theory Spec2Isabelle
  imports Complex_Main "HOL-Library.Sublist"
begin

chapter \<open>The model\<close>

section \<open>JavaScript strings\<close>

text \<open>
  A JavaScript string is a sequence of UTF-16 code units; \<open>length\<close>, \<open>includes\<close>,
  \<open>startsWith\<close>, \<open>trim\<close> and the regular expressions of the sources all work on code
  units. Code units are kept as natural numbers (every real code unit is below 65536).
  \<open>js\<close> embeds an ASCII literal.
\<close>

type_synonym jsstring = "nat list"

definition js :: "string \<Rightarrow> jsstring" where
  "js s = map of_char s"

text \<open>
  White space as \<open>String.prototype.trim\<close> and the regular expression class \<open>\s\<close>
  see it: TAB, LF, VT, FF, CR, SPACE, NBSP, U+1680, U+2000..U+200A, U+2028, U+2029, U+202F,
  U+205F, U+3000 and U+FEFF.
\<close>

definition js_space :: "nat \<Rightarrow> bool" where
  "js_space c = (c = 9 \<or> c = 10 \<or> c = 11 \<or> c = 12 \<or> c = 13 \<or> c = 32 \<or> c = 160
     \<or> c = 5760 \<or> (8192 \<le> c \<and> c \<le> 8202) \<or> c = 8232 \<or> c = 8233 \<or> c = 8239
     \<or> c = 8287 \<or> c = 12288 \<or> c = 65279)"

definition trim :: "jsstring \<Rightarrow> jsstring" where
  "trim s = rev (dropWhile js_space (rev (dropWhile js_space s)))"

text \<open>The class \<open>\d\<close>: the ASCII digits.\<close>

definition js_digit :: "nat \<Rightarrow> bool" where
  "js_digit c = (48 \<le> c \<and> c \<le> 57)"

text \<open>\<open>s.startsWith(p)\<close> is \<^const>\<open>prefix\<close>; \<open>s.includes(k)\<close> looks for \<open>k\<close> at every offset.\<close>

definition startsWith :: "jsstring \<Rightarrow> jsstring \<Rightarrow> bool" where
  "startsWith s p = prefix p s"

fun js_includes :: "jsstring \<Rightarrow> jsstring \<Rightarrow> bool" where
  "js_includes [] k = (k = [])"
| "js_includes (c # cs) k = (prefix k (c # cs) \<or> js_includes cs k)"

text \<open>\<open>s.split('\n')\<close>: the pieces between line feeds; always at least one piece.\<close>

fun split_lines :: "jsstring \<Rightarrow> jsstring list" where
  "split_lines [] = [[]]"
| "split_lines (c # cs) =
     (if c = 10 then [] # split_lines cs
      else (case split_lines cs of l # ls \<Rightarrow> (c # l) # ls | [] \<Rightarrow> [[c]]))"

text \<open>
  \<open>toUpperCase\<close> and \<open>toLowerCase\<close> follow the Unicode case tables, which are not part
  of the repository: the functions that call them take the mapping as an argument. The
  ASCII mappings below serve to evaluate them on ASCII and CJK text, which has no other
  cased letters.
\<close>

definition ascii_toUpperCase :: "jsstring \<Rightarrow> jsstring" where
  "ascii_toUpperCase s = map (\<lambda>c. if 97 \<le> c \<and> c \<le> 122 then c - 32 else c) s"

definition ascii_toLowerCase :: "jsstring \<Rightarrow> jsstring" where
  "ascii_toLowerCase s = map (\<lambda>c. if 65 \<le> c \<and> c \<le> 90 then c + 32 else c) s"

section \<open>The Document model\<close>

text \<open>
  The Document schema: the fields the services read and write. \<open>processingStatus\<close> is the
  enum \<open>pending | processing | completed | failed\<close> with default \<open>pending\<close>;
  \<open>markdownContent\<close> defaults to the empty string, \<open>restructuredContent\<close> and
  \<open>processingError\<close> to null. Of \<open>metadata\<close> only \<open>url\<close> is kept; the rest of it,
  \<open>syncStatus\<close> and \<open>tags\<close> carry no validator that can fail here and no service
  below reads them.
\<close>

datatype status = pending | processing | completed | failed

record document =
  userId :: nat
  title :: jsstring
  originalFormat :: jsstring
  filePath :: "jsstring option"
  markdownContent :: jsstring
  restructuredContent :: "jsstring option"
  processingStatus :: status
  processingError :: "jsstring option"
  isDeleted :: bool
  url :: "jsstring option"

text \<open>The enum of the path \<open>originalFormat\<close>.\<close>

definition originalFormat_enum :: "jsstring list" where
  "originalFormat_enum = [js ''pdf'', js ''docx'', js ''pptx'', js ''image'', js ''url'']"

text \<open>
  Errors. Each constructor is one \<open>throw\<close> of the sources or one failure of a library the
  sources call; the comment gives the message where the sources build one.
\<close>

datatype failure =
    FileMissing                     \<comment> \<open>\<open>_validateFile\<close>: no file\<close>
  | FileTooLarge                    \<comment> \<open>\<open>_validateFile\<close>: size over the limit\<close>
  | UnsupportedFileType jsstring    \<comment> \<open>\<open>_validateFile\<close>: MIME type not supported\<close>
  | S3NotConfigured                 \<comment> \<open>\<open>_uploadToS3\<close> without credentials\<close>
  | S3UploadFailed jsstring         \<comment> \<open>\<open>_uploadToS3\<close>: the SDK's upload failed, with its message\<close>
  | ValidationError "jsstring list" \<comment> \<open>Mongoose: the paths whose validators failed\<close>
  | DuplicateKeyError               \<comment> \<open>MongoDB: a unique index rejects the insert (E11000)\<close>
  | DocumentNotFound                \<comment> \<open>\<open>processAIFeatures\<close>: no such document\<close>
  | AIServiceError jsstring         \<comment> \<open>an \<open>AIService\<close> call failed, with its message\<close>
  | TypeError                       \<comment> \<open>a property read on \<open>undefined\<close>\<close>
  | FileNameEmpty                   \<comment> \<open>\<open>validateFile\<close>: no file name\<close>
  | InvalidFile "failure list"      \<comment> \<open>\<open>uploadDocument\<close>: the validation errors, joined\<close>
  | InvalidUrl                      \<comment> \<open>\<open>addUrlDocument\<close>: the URL does not parse\<close>
  | UploadFailed failure            \<comment> \<open>\<open>uploadDocument\<close> rethrows with a prefix\<close>
  | SummaryFailed failure           \<comment> \<open>\<open>generateAndSaveSummary\<close> rethrows with a prefix\<close>
  | ConceptsFailed failure          \<comment> \<open>\<open>extractAndSaveConcepts\<close> rethrows with a prefix\<close>

text \<open>
  Validation as \<open>document.save()\<close> runs it, path by path: \<open>title\<close> is required (a
  string that is empty counts as missing) and at most 200 code units long;
  \<open>originalFormat\<close> is required and a member of its enum; \<open>filePath\<close> is required unless
  the format is \<open>url\<close>; \<open>restructuredContent\<close> is at most 50000 code units long;
  \<open>metadata.url\<close> is required when the format is \<open>url\<close>. The result lists the failing
  paths.
\<close>

definition validate_document :: "document \<Rightarrow> jsstring list" where
  "validate_document d =
     (if title d = [] \<or> length (title d) > 200 then [js ''title''] else []) @
     (if originalFormat d = [] \<or> originalFormat d \<notin> set originalFormat_enum
      then [js ''originalFormat''] else []) @
     (if originalFormat d \<noteq> js ''url'' \<and> (filePath d = None \<or> filePath d = Some [])
      then [js ''filePath''] else []) @
     (case restructuredContent d of
        Some r \<Rightarrow> if length r > 50000 then [js ''restructuredContent''] else []
      | None \<Rightarrow> []) @
     (if originalFormat d = js ''url'' \<and> (url d = None \<or> url d = Some [])
      then [js ''metadata.url''] else [])"

section \<open>The Summary and Concept models\<close>

text \<open>
  The Summary schema: \<open>documentId\<close>, \<open>userId\<close>, \<open>type\<close> (an enum, default
  \<open>ai_generated\<close>) and \<open>content\<close> (required, at most 10000 code units). The index
  \<open>{documentId: 1, type: 1}\<close> is unique.
\<close>

record summary =
  s_documentId :: nat
  s_userId :: nat
  s_type :: jsstring
  s_content :: jsstring

definition summary_type_enum :: "jsstring list" where
  "summary_type_enum =
     [js ''ai_generated'', js ''manual'', js ''oneline'', js ''detailed'', js ''keypoints'']"

definition validate_summary :: "summary \<Rightarrow> jsstring list" where
  "validate_summary s =
     (if s_type s \<notin> set summary_type_enum then [js ''type''] else []) @
     (if s_content s = [] \<or> length (s_content s) > 10000 then [js ''content''] else [])"

text \<open>
  The Concept schema: \<open>term\<close> (required, trimmed, at most 200), \<open>definition\<close> (required,
  at most 2000), \<open>documentId\<close>, \<open>userId\<close>, \<open>occurrences\<close> (each with a \<open>position\<close> that
  is not negative, a required \<open>context\<close> of at most 500 and a \<open>confidence\<close> between 0
  and 1, default 1), \<open>category\<close> (an enum) and \<open>importance\<close> (1 to 5). The index
  \<open>{documentId: 1, term: 1}\<close> is unique.
\<close>

record occurrence =
  o_position :: int
  o_context :: jsstring
  o_confidence :: rat

record concept =
  c_term :: jsstring
  c_definition :: jsstring
  c_documentId :: nat
  c_userId :: nat
  c_occurrences :: "occurrence list"
  c_category :: jsstring
  c_importance :: int

definition category_enum :: "jsstring list" where
  "category_enum =
     [js ''person'', js ''place'', js ''concept'', js ''term'', js ''formula'', js ''theory'',
      js ''other'']"

definition valid_occurrence :: "occurrence \<Rightarrow> bool" where
  "valid_occurrence occ =
     (0 \<le> o_position occ \<and> o_context occ \<noteq> [] \<and> length (o_context occ) \<le> 500 \<and>
      0 \<le> o_confidence occ \<and> o_confidence occ \<le> 1)"

definition validate_concept :: "concept \<Rightarrow> jsstring list" where
  "validate_concept c =
     (if c_term c = [] \<or> length (c_term c) > 200 then [js ''term''] else []) @
     (if c_definition c = [] \<or> length (c_definition c) > 2000 then [js ''definition''] else []) @
     (if \<not> list_all valid_occurrence (c_occurrences c) then [js ''occurrences''] else []) @
     (if c_category c \<notin> set category_enum then [js ''category''] else []) @
     (if c_importance c < 1 \<or> 5 < c_importance c then [js ''importance''] else [])"

section \<open>The database\<close>

text \<open>
  The documents collection as a map from \<open>_id\<close> to document, with the source of fresh
  ids, and the summaries and concepts collections as lists of rows in insertion order.
  \<open>save_document\<close> is \<open>new Document(...).save()\<close>: it validates, then inserts under a
  fresh id.
\<close>

record database =
  documents :: "nat \<rightharpoonup> document"
  nextId :: nat
  summaries :: "summary list"
  concepts :: "concept list"

definition empty_database :: database where
  "empty_database = \<lparr>documents = Map.empty, nextId = 0, summaries = [], concepts = []\<rparr>"

definition save_document :: "database \<Rightarrow> document \<Rightarrow> failure + (nat \<times> database)" where
  "save_document db d =
     (case validate_document d of
        [] \<Rightarrow> Inr (nextId db,
                  db\<lparr>documents := (documents db)(nextId db \<mapsto> d), nextId := Suc (nextId db)\<rparr>)
      | p # ps \<Rightarrow> Inl (ValidationError (p # ps)))"

text \<open>\<open>Document.findByIdAndUpdate(id, update)\<close>: no validation, nothing happens without a match.\<close>

definition findByIdAndUpdate :: "database \<Rightarrow> nat \<Rightarrow> (document \<Rightarrow> document) \<Rightarrow> database" where
  "findByIdAndUpdate db i upd =
     (case documents db i of
        None \<Rightarrow> db
      | Some d \<Rightarrow> db\<lparr>documents := (documents db)(i \<mapsto> upd d)\<rparr>)"

section \<open>Upload through the DocumentService that delegates to FileExtractService\<close>

text \<open>The upload route's multer \<open>fileFilter\<close> (routes/documents.js): the accepted MIME types.\<close>

definition allowedMimeTypes :: "jsstring list" where
  "allowedMimeTypes =
     [js ''application/pdf'',
      js ''application/vnd.openxmlformats-officedocument.wordprocessingml.document'',
      js ''application/msword'',
      js ''application/vnd.openxmlformats-officedocument.presentationml.presentation'',
      js ''application/vnd.ms-powerpoint'',
      js ''image/jpeg'', js ''image/jpg'', js ''image/png'', js ''image/gif'',
      js ''image/bmp'', js ''image/webp'', js ''text/plain'']"

definition fileFilter :: "jsstring \<Rightarrow> bool" where
  "fileFilter mimetype = (mimetype \<in> set allowedMimeTypes)"

text \<open>The multer file object, and what the constructor of the service reads from the environment.\<close>

record upload_file =
  originalname :: jsstring
  mimetype :: jsstring
  fsize :: nat
  buffer :: "nat list"

record service_config =
  s3Enabled :: bool
  maxFileSize :: nat

text \<open>
  \<open>this.supportedFormats\<close>: the keys of the table. The lookup
  \<open>this.supportedFormats[file.mimetype]\<close> of the source also finds the names every object
  inherits (\<open>constructor\<close> and the like); the model reads the table by its own keys
  only, which is the same for every string that is a MIME type.
\<close>

definition supportedFormats :: "jsstring list" where
  "supportedFormats =
     [js ''application/pdf'',
      js ''application/vnd.openxmlformats-officedocument.wordprocessingml.document'',
      js ''application/msword'', js ''text/plain'', js ''image/jpeg'', js ''image/png'']"

definition validateFile :: "service_config \<Rightarrow> upload_file option \<Rightarrow> failure + upload_file" where
  "validateFile cfg file =
     (case file of
        None \<Rightarrow> Inl FileMissing
      | Some f \<Rightarrow>
          if fsize f > maxFileSize cfg then Inl FileTooLarge
          else if mimetype f \<notin> set supportedFormats then Inl (UnsupportedFileType (mimetype f))
          else Inr f)"

text \<open>
  \<open>_uploadToS3\<close>: fails without configuration; otherwise the outcome of the SDK's upload
  (\<open>Some msg\<close> when it throws) decides.
\<close>

definition uploadToS3 :: "service_config \<Rightarrow> jsstring option \<Rightarrow> failure + unit" where
  "uploadToS3 cfg sdk_error =
     (if \<not> s3Enabled cfg then Inl S3NotConfigured
      else case sdk_error of Some msg \<Rightarrow> Inl (S3UploadFailed msg) | None \<Rightarrow> Inr ())"

text \<open>\<open>_getFormatFromMimeType\<close>: \<open>formatMap[mimeType] || 'unknown'\<close>.\<close>

definition getFormatFromMimeType :: "jsstring \<Rightarrow> jsstring" where
  "getFormatFromMimeType mimeType =
     (if mimeType = js ''application/pdf'' then js ''pdf''
      else if mimeType = js ''application/vnd.openxmlformats-officedocument.wordprocessingml.document''
        then js ''docx''
      else if mimeType = js ''application/msword'' then js ''doc''
      else if mimeType = js ''text/plain'' then js ''txt''
      else if mimeType = js ''image/jpeg'' then js ''jpg''
      else if mimeType = js ''image/png'' then js ''png''
      else js ''unknown'')"

text \<open>
  A background task: a promise the caller starts and does not await. The functions below
  return the tasks they start next to their result; nothing they return depends on what
  the tasks will do.
\<close>

datatype task =
    ProcessFileExtraction nat "nat list" jsstring  \<comment> \<open>document id, file buffer, MIME type\<close>
  | ProcessAIFeatures nat jsstring                 \<comment> \<open>document id, markdown content\<close>

text \<open>
  \<open>uploadDocument(file, userId, metadata)\<close>. Outside the repository and passed in: the
  outcome of the S3 upload, the generated file key (time stamp and random bytes), and
  \<open>_extractTitle\<close>, which is \<open>path.basename(name, path.extname(name))\<close>. The schema trims
  the title. Every error is rethrown with the upload prefix.
\<close>

definition uploadDocument ::
  "service_config \<Rightarrow> jsstring option \<Rightarrow> jsstring \<Rightarrow> (jsstring \<Rightarrow> jsstring) \<Rightarrow> database \<Rightarrow>
   upload_file option \<Rightarrow> nat \<Rightarrow> jsstring option \<Rightarrow>
   (failure + (nat \<times> document)) \<times> database \<times> task list" where
  "uploadDocument cfg sdk_error fileKey extractTitle db file uid meta_title =
     (case validateFile cfg file of
        Inl e \<Rightarrow> (Inl (UploadFailed e), db, [])
      | Inr f \<Rightarrow>
          (case uploadToS3 cfg sdk_error of
             Inl e \<Rightarrow> (Inl (UploadFailed e), db, [])
           | Inr _ \<Rightarrow>
               let d = \<lparr>userId = uid,
                        title = trim (case meta_title of
                                        Some t \<Rightarrow> if t \<noteq> [] then t else extractTitle (originalname f)
                                      | None \<Rightarrow> extractTitle (originalname f)),
                        originalFormat = getFormatFromMimeType (mimetype f),
                        filePath = Some fileKey,
                        markdownContent = [],
                        restructuredContent = None,
                        processingStatus = pending,
                        processingError = None,
                        isDeleted = False,
                        url = None\<rparr>
               in (case save_document db d of
                     Inl e \<Rightarrow> (Inl (UploadFailed e), db, [])
                   | Inr (i, db') \<Rightarrow>
                       (Inr (i, d), db', [ProcessFileExtraction i (buffer f) (mimetype f)]))))"

subsection \<open>MIME types the schema cannot store\<close>

definition text_file :: upload_file where
  "text_file = \<lparr>originalname = js ''notes.txt'', mimetype = js ''text/plain'',
                 fsize = 12, buffer = [72, 101, 108, 108, 111]\<rparr>"

section \<open>Heading detection in PDF text\<close>

text \<open>
  \<open>isPotentialTitle(line, lines, index)\<close> and \<open>determineTitleLevel(line, lines, index)\<close> of
  the DocumentService that parses PDFs itself. The named constants of the source are kept
  as definitions of their own.
\<close>

text \<open>\<open>/[A-Z]/.test(line)\<close>\<close>

definition hasUpperCase :: "jsstring \<Rightarrow> bool" where
  "hasUpperCase line = (\<exists>c \<in> set line. 65 \<le> c \<and> c \<le> 90)"

text \<open>\<open>line === line.toUpperCase() && hasUpperCase\<close>\<close>

definition isAllUpperCase :: "(jsstring \<Rightarrow> jsstring) \<Rightarrow> jsstring \<Rightarrow> bool" where
  "isAllUpperCase toUpperCase line = (line = toUpperCase line \<and> hasUpperCase line)"

text \<open>
  \<open>/^\d+[\.\s]/.test(line)\<close>: the longest run of digits at the start is not empty and the
  code unit after it is a full stop or white space (no digit is either, so the greedy
  match is the only one).
\<close>

definition startsWithNumber :: "jsstring \<Rightarrow> bool" where
  "startsWithNumber line =
     (takeWhile js_digit line \<noteq> [] \<and>
      (case dropWhile js_digit line of [] \<Rightarrow> False | c # _ \<Rightarrow> c = 46 \<or> js_space c))"

text \<open>
  \<open>index === 0 || !lines[index - 1].trim()\<close> and
  \<open>index === lines.length - 1 || !lines[index + 1].trim()\<close>. Reading past the end of
  \<open>lines\<close> gives \<open>undefined\<close>, and \<open>.trim()\<close> on it throws a TypeError.
\<close>

definition prevLineEmpty :: "jsstring list \<Rightarrow> nat \<Rightarrow> failure + bool" where
  "prevLineEmpty lines index =
     (if index = 0 then Inr True
      else if index - 1 < length lines then Inr (trim (lines ! (index - 1)) = [])
      else Inl TypeError)"

definition nextLineEmpty :: "jsstring list \<Rightarrow> nat \<Rightarrow> failure + bool" where
  "nextLineEmpty lines index =
     (if index + 1 = length lines then Inr True
      else if index + 1 < length lines then Inr (trim (lines ! (index + 1)) = [])
      else Inl TypeError)"

text \<open>
  The title keywords, in the order of the source: U+7AE0, U+8282, U+90E8 U+5206,
  \<open>Chapter\<close>, \<open>Section\<close>, \<open>Part\<close>, U+7B2C, U+6982 U+8FF0, U+4ECB U+7ECD, U+603B U+7ED3.
\<close>

definition titleKeywords :: "jsstring list" where
  "titleKeywords =
     [[31456], [33410], [37096, 20998], js ''Chapter'', js ''Section'', js ''Part'',
      [31532], [27010, 36848], [20171, 32461], [24635, 32467]]"

definition containsTitleKeyword :: "jsstring \<Rightarrow> bool" where
  "containsTitleKeyword line = (\<exists>keyword \<in> set titleKeywords. js_includes line keyword)"

definition isPotentialTitle ::
  "(jsstring \<Rightarrow> jsstring) \<Rightarrow> jsstring \<Rightarrow> jsstring list \<Rightarrow> nat \<Rightarrow> failure + bool" where
  "isPotentialTitle toUpperCase line lines index =
     (if trim line = [] then Inr False
      else if length line > 100 then Inr False
      else case prevLineEmpty lines index of
             Inl e \<Rightarrow> Inl e
           | Inr prev \<Rightarrow>
               (case nextLineEmpty lines index of
                  Inl e \<Rightarrow> Inl e
                | Inr next \<Rightarrow>
                    Inr ((isAllUpperCase toUpperCase line \<and> prev) \<or>
                         startsWithNumber line \<or>
                         (containsTitleKeyword line \<and> length line < 50) \<or>
                         (prev \<and> next \<and> length line < 80))))"

text \<open>\<open>line.match(/^(\d+)\.(\d+)/)\<close>: digits, a full stop, a digit.\<close>

definition subNumberMatch :: "jsstring \<Rightarrow> bool" where
  "subNumberMatch line =
     (takeWhile js_digit line \<noteq> [] \<and>
      (case dropWhile js_digit line of
         c # d # _ \<Rightarrow> c = 46 \<and> js_digit d
       | _ \<Rightarrow> False))"

text \<open>
  \<open>parseInt(numberMatch[1])\<close> on a string of digits. JavaScript rounds the value to a
  double; the rounding is monotone and keeps 10, so the comparison with 10 below is the
  comparison of the exact values.
\<close>

definition parseInt :: "jsstring \<Rightarrow> nat" where
  "parseInt ds = foldl (\<lambda>n c. 10 * n + (c - 48)) 0 ds"

text \<open>
  \<open>index < lines.length * 0.1\<close> in IEEE 754 double precision. The literal \<open>0.1\<close> is the
  double \<open>3602879701896397 / 2^55\<close>; the product with the integer \<open>n\<close> is rounded to 53
  significant bits, ties to even. \<open>double_times_tenth n\<close> is that double, times \<open>2^55\<close>.
\<close>

fun bit_length :: "nat \<Rightarrow> nat" where
  "bit_length n = (if n = 0 then 0 else Suc (bit_length (n div 2)))"

definition double_times_tenth :: "nat \<Rightarrow> nat" where
  "double_times_tenth n =
     (let p = n * 3602879701896397; l = bit_length p
      in if l \<le> 53 then p
         else let sh = l - 53; q = p div 2 ^ sh; r = p mod 2 ^ sh; h = 2 ^ (sh - 1)
              in (if h < r \<or> (r = h \<and> odd q) then q + 1 else q) * 2 ^ sh)"

definition inFirstTenth :: "nat \<Rightarrow> nat \<Rightarrow> bool" where
  "inFirstTenth index n = (index * 2 ^ 55 < double_times_tenth n)"

definition determineTitleLevel ::
  "(jsstring \<Rightarrow> jsstring) \<Rightarrow> jsstring \<Rightarrow> jsstring list \<Rightarrow> nat \<Rightarrow> nat" where
  "determineTitleLevel toLowerCase line lines index =
     (if subNumberMatch line then 2
      else if startsWithNumber line
        then (if parseInt (takeWhile js_digit line) \<le> 10 then 1 else 2)
      else if js_includes line [31532] \<and> (js_includes line [31456] \<or> js_includes line [33410])
        then (if js_includes line [31456] then 1 else 2)
      else if js_includes (toLowerCase line) (js ''chapter'') then 1
      else if js_includes (toLowerCase line) (js ''section'') then 2
      else if inFirstTenth index (length lines) then 1
      else if length line < 30 then 2
      else 3)"

declare bit_length.simps [simp del]

subsection \<open>Which lines become headings\<close>

text \<open>
  The rule in the words of the specification: all upper case and flanked by blank lines,
  or numbered, or a keyword on a short line, or a short isolated line. The two length
  thresholds, which the specification leaves open, are those of the code.
\<close>

definition spec_isPotentialTitle ::
  "(jsstring \<Rightarrow> jsstring) \<Rightarrow> jsstring \<Rightarrow> jsstring list \<Rightarrow> nat \<Rightarrow> bool" where
  "spec_isPotentialTitle toUpperCase line lines index =
     ((isAllUpperCase toUpperCase line \<and> prevLineEmpty lines index = Inr True \<and>
         nextLineEmpty lines index = Inr True) \<or>
      startsWithNumber line \<or>
      (containsTitleKeyword line \<and> length line < 50) \<or>
      (prevLineEmpty lines index = Inr True \<and> nextLineEmpty lines index = Inr True \<and>
         length line < 80))"

subsection \<open>The level of a heading\<close>

text \<open>
  The rule in the words of the specification: sub-numbering gives 2; numbering gives 1 up
  to ten and 2 above; a chapter keyword gives 1 and a section keyword 2; a line in the
  first tenth gives 1; everything else 3.
\<close>

definition spec_determineTitleLevel ::
  "(jsstring \<Rightarrow> jsstring) \<Rightarrow> jsstring \<Rightarrow> jsstring list \<Rightarrow> nat \<Rightarrow> nat" where
  "spec_determineTitleLevel toLowerCase line lines index =
     (if subNumberMatch line then 2
      else if startsWithNumber line
        then (if parseInt (takeWhile js_digit line) \<le> 10 then 1 else 2)
      else if js_includes line [31532] \<and> js_includes line [31456] then 1
      else if js_includes line [31532] \<and> js_includes line [33410] then 2
      else if js_includes (toLowerCase line) (js ''chapter'') then 1
      else if js_includes (toLowerCase line) (js ''section'') then 2
      else if inFirstTenth index (length lines) then 1
      else 3)"

text \<open>
  The body of the loop of \<open>convertPdfTextToMarkdown\<close> for the line at index \<open>i\<close>, with
  \<open>i < lines.length\<close>: what it pushes to \<open>processedLines\<close>. An empty line stays empty, a
  potential title gets as many \<open>#\<close> as its level and a space in front, any other line
  is kept.
\<close>

definition processedLine ::
  "(jsstring \<Rightarrow> jsstring) \<Rightarrow> (jsstring \<Rightarrow> jsstring) \<Rightarrow> jsstring list \<Rightarrow> nat \<Rightarrow>
   failure + jsstring" where
  "processedLine toUpperCase toLowerCase lines i =
     (let line = lines ! i
      in if line = [] then Inr []
         else case isPotentialTitle toUpperCase line lines i of
                Inl e \<Rightarrow> Inl e
              | Inr True \<Rightarrow>
                  Inr (replicate (determineTitleLevel toLowerCase line lines i) 35 @ 32 # line)
              | Inr False \<Rightarrow> Inr line)"

text \<open>
  A text of twenty lines, cleaned as \<open>convertPdfTextToMarkdown\<close> cleans it (every line
  trimmed, no two blank lines in a row): fourteen lines of running text, a blank line, a
  short line, a blank line, three more lines of text.
\<close>

definition late_heading_lines :: "jsstring list" where
  "late_heading_lines =
     replicate 14 (js ''Text.'') @ [[], js ''Closing remarks'', []] @ replicate 3 (js ''Text.'')"

section \<open>The Mermaid syntax check of AIService\<close>

definition validTypes :: "jsstring list" where
  "validTypes = [js ''mindmap'', js ''graph'', js ''flowchart'', js ''gitgraph'', js ''journey'',
                 js ''gantt'', js ''pie'', js ''quadrantChart'']"

text \<open>The characters a mindmap node may not contain: \<open>< > { } [ ] ( ) |\<close>.\<close>

definition invalidChars :: "nat list" where
  "invalidChars = [60, 62, 123, 125, 91, 93, 40, 41, 124]"

text \<open>
  \<open>isValidMindmapNode(line)\<close>. The source also measures the indentation of the line and
  then does not use it.
\<close>

definition isValidMindmapNode :: "jsstring \<Rightarrow> bool" where
  "isValidMindmapNode line =
     (let content = trim line
      in if content = [] then False
         else \<not> (\<exists>char \<in> set invalidChars. js_includes content [char]))"

text \<open>\<open>mermaidCode.split('\n').filter(line => line.trim())\<close>\<close>

definition nonBlankLines :: "jsstring \<Rightarrow> jsstring list" where
  "nonBlankLines mermaidCode = filter (\<lambda>line. trim line \<noteq> []) (split_lines mermaidCode)"

text \<open>
  \<open>validateMermaidSyntax(mermaidCode)\<close>. Without a first line \<open>firstLine\<close> is
  \<open>undefined\<close> and no type matches. The loop over the lines after the first returns
  \<open>false\<close> at the first node that is not valid.
\<close>

definition validateMermaidSyntax :: "jsstring \<Rightarrow> bool" where
  "validateMermaidSyntax mermaidCode =
     (case nonBlankLines mermaidCode of
        [] \<Rightarrow> False
      | l # rest \<Rightarrow>
          let firstLine = trim l
          in if \<not> (\<exists>type \<in> set validTypes. startsWith firstLine type) then False
             else if startsWith firstLine (js ''mindmap'') \<and>
                     (\<exists>line \<in> set rest. trim line \<noteq> [] \<and> \<not> isValidMindmapNode (trim line))
               then False
             else if length (l # rest) < 2 then False
             else True)"

text \<open>
  The rule in the words of the specification: the first non-blank line declares a diagram
  type and, for a mindmap, no later non-blank line has a forbidden character. (The
  indentation rule of the specification, which only concerns mindmaps with later lines,
  is not part of this definition.)
\<close>

definition spec_validDiagram :: "jsstring \<Rightarrow> bool" where
  "spec_validDiagram mermaidCode =
     (case nonBlankLines mermaidCode of
        [] \<Rightarrow> False
      | l # rest \<Rightarrow>
          (\<exists>type \<in> set validTypes. startsWith (trim l) type) \<and>
          (startsWith (trim l) (js ''mindmap'') \<longrightarrow>
             (\<forall>line \<in> set rest. \<forall>char \<in> set invalidChars. char \<notin> set (trim line))))"

section \<open>FileExtractService\<close>

text \<open>
  What lies outside the repository: \<open>pdfParse(buffer)\<close> (the text of the PDF, or the
  message of the error it throws), \<open>buffer.toString('utf-8')\<close>, the Unicode upper-casing,
  and the three calls of the AIService that annotation makes (each the text or concept
  list the model returns, or the message of the error the call throws).
\<close>

record externals =
  pdfParse :: "nat list \<Rightarrow> jsstring + jsstring"
  bufferToString :: "nat list \<Rightarrow> jsstring"
  upperCase :: "jsstring \<Rightarrow> jsstring"

record occurrence_data =
  od_position :: int
  od_context :: jsstring
  od_confidence :: "rat option"

record concept_data =
  cd_term :: jsstring
  cd_definition :: jsstring
  cd_category :: jsstring
  cd_importance :: int
  cd_occurrences :: "occurrence_data list option"

record ai_service =
  restructureDocument :: "jsstring \<Rightarrow> jsstring + jsstring"
  generateSummary :: "jsstring \<Rightarrow> jsstring + jsstring"
  extractConcepts :: "jsstring \<Rightarrow> jsstring + concept_data list"

text \<open>
  The messages of the errors \<open>extractToMarkdown\<close> throws: the prefix for an unsupported
  MIME type (eight CJK characters, a colon and a space), the message of the Word
  placeholder (\<open>Word\<close> and nine CJK characters), and the prefix \<open>extractPdfToMarkdown\<close>
  puts before the message of pdf-parse (\<open>PDF\<close>, four CJK characters, a colon and a space).
\<close>

definition msg_unsupported_type :: jsstring where
  "msg_unsupported_type = [19981, 25903, 25345, 30340, 25991, 20214, 31867, 22411, 58, 32]"

definition msg_word_not_implemented :: jsstring where
  "msg_word_not_implemented =
     [87, 111, 114, 100, 25991, 26723, 35299, 26512, 21151, 33021, 24453, 23454, 29616]"

definition msg_pdf_failed :: jsstring where
  "msg_pdf_failed = [80, 68, 70, 35299, 26512, 22833, 36133, 58, 32]"

text \<open>
  \<open>extractPdfToMarkdown\<close>: every non-blank line, trimmed, followed by an empty line; a
  line that equals its upper-casing and is shorter than 100 becomes a second-level
  heading.
\<close>

definition pdfLineToMarkdown :: "(jsstring \<Rightarrow> jsstring) \<Rightarrow> jsstring \<Rightarrow> jsstring" where
  "pdfLineToMarkdown toUpper line =
     (let trimmedLine = trim line
      in if trimmedLine = [] then []
         else if trimmedLine = toUpper trimmedLine \<and> length trimmedLine < 100
           then js ''## '' @ trimmedLine @ [10, 10]
         else trimmedLine @ [10, 10])"

definition extractPdfToMarkdown :: "externals \<Rightarrow> nat list \<Rightarrow> jsstring + jsstring" where
  "extractPdfToMarkdown env fileBuffer =
     (case pdfParse env fileBuffer of
        Inl message \<Rightarrow> Inl (msg_pdf_failed @ message)
      | Inr text \<Rightarrow> Inr (concat (map (pdfLineToMarkdown (upperCase env)) (split_lines text))))"

text \<open>
  \<open>extractToMarkdown(documentId, fileBuffer, mimeType)\<close>. An error is the message it
  carries. On success the document gets the markdown and the status \<open>completed\<close>, and
  annotation is started without being awaited; on an error the document gets the status
  \<open>failed\<close> and the message, and the error is thrown on.
\<close>

definition extractToMarkdown ::
  "externals \<Rightarrow> database \<Rightarrow> nat \<Rightarrow> nat list \<Rightarrow> jsstring \<Rightarrow>
   (jsstring + jsstring) \<times> database \<times> task list" where
  "extractToMarkdown env db documentId fileBuffer mimeType =
     (let extraction =
            (if mimeType = js ''application/pdf'' then extractPdfToMarkdown env fileBuffer
             else if mimeType = js ''application/vnd.openxmlformats-officedocument.wordprocessingml.document''
                     \<or> mimeType = js ''application/msword''
               then Inl msg_word_not_implemented
             else if mimeType = js ''text/plain'' then Inr (bufferToString env fileBuffer)
             else Inl (msg_unsupported_type @ mimeType))
      in case extraction of
           Inr markdown \<Rightarrow>
             (Inr markdown,
              findByIdAndUpdate db documentId
                (\<lambda>d. d\<lparr>markdownContent := markdown, processingStatus := completed\<rparr>),
              [ProcessAIFeatures documentId markdown])
         | Inl message \<Rightarrow>
             (Inl message,
              findByIdAndUpdate db documentId
                (\<lambda>d. d\<lparr>processingStatus := failed, processingError := Some message\<rparr>),
              []))"

text \<open>
  \<open>processFileExtraction\<close> of the DocumentService: status \<open>processing\<close>, then
  \<open>extractToMarkdown\<close>; an error is logged and written to the document once more. It
  never throws.
\<close>

definition processFileExtraction ::
  "externals \<Rightarrow> database \<Rightarrow> nat \<Rightarrow> nat list \<Rightarrow> jsstring \<Rightarrow> database \<times> task list" where
  "processFileExtraction env db documentId fileBuffer mimeType =
     (case extractToMarkdown env
             (findByIdAndUpdate db documentId (\<lambda>d. d\<lparr>processingStatus := processing\<rparr>))
             documentId fileBuffer mimeType of
        (Inr _, db', tasks) \<Rightarrow> (db', tasks)
      | (Inl message, db', tasks) \<Rightarrow>
          (findByIdAndUpdate db' documentId
             (\<lambda>d. d\<lparr>processingStatus := failed, processingError := Some message\<rparr>),
           tasks))"

subsection \<open>Summaries\<close>

text \<open>
  \<open>summary.save()\<close> of a new row: validation, then the insert, which the unique index
  rejects when a row with the same document and type exists.
\<close>

definition insert_summary :: "database \<Rightarrow> summary \<Rightarrow> failure + database" where
  "insert_summary db s =
     (case validate_summary s of
        p # ps \<Rightarrow> Inl (ValidationError (p # ps))
      | [] \<Rightarrow>
          if \<exists>r \<in> set (summaries db). s_documentId r = s_documentId s \<and> s_type r = s_type s
          then Inl DuplicateKeyError
          else Inr (db\<lparr>summaries := summaries db @ [s]\<rparr>))"

text \<open>
  \<open>generateAndSaveSummary(documentId, userId, markdownContent)\<close>; \<open>generated\<close> is the
  outcome of \<open>aiService.generateSummary(markdownContent, ...)\<close>.
\<close>

definition generateAndSaveSummary ::
  "database \<Rightarrow> jsstring + jsstring \<Rightarrow> nat \<Rightarrow> nat \<Rightarrow> (failure + summary) \<times> database" where
  "generateAndSaveSummary db generated documentId uid =
     (case generated of
        Inl message \<Rightarrow> (Inl (SummaryFailed (AIServiceError message)), db)
      | Inr summaryContent \<Rightarrow>
          let s = \<lparr>s_documentId = documentId, s_userId = uid, s_type = js ''ai_generated'',
                   s_content = summaryContent\<rparr>
          in (case insert_summary db s of
                Inl e \<Rightarrow> (Inl (SummaryFailed e), db)
              | Inr db' \<Rightarrow> (Inr s, db')))"

subsection \<open>Concepts\<close>

text \<open>\<open>Array.prototype.find\<close> and \<open>findOne\<close>: the first match, here by its index.\<close>

fun findIndex :: "('a \<Rightarrow> bool) \<Rightarrow> 'a list \<Rightarrow> nat option" where
  "findIndex P [] = None"
| "findIndex P (x # xs) = (if P x then Some 0 else map_option Suc (findIndex P xs))"

text \<open>
  \<open>addOccurrence(position, context, confidence = 1.0)\<close> without its final \<open>save\<close>: an
  occurrence at the same position is overwritten, a new position is appended.
\<close>

definition addOccurrence :: "concept \<Rightarrow> occurrence_data \<Rightarrow> concept" where
  "addOccurrence c od =
     (let conf = (case od_confidence od of Some x \<Rightarrow> x | None \<Rightarrow> 1)
      in case findIndex (\<lambda>occ. o_position occ = od_position od) (c_occurrences c) of
           Some i \<Rightarrow>
             c\<lparr>c_occurrences := (c_occurrences c)
                  [i := (c_occurrences c ! i)\<lparr>o_context := od_context od, o_confidence := conf\<rparr>]\<rparr>
         | None \<Rightarrow>
             c\<lparr>c_occurrences := c_occurrences c @
                  [\<lparr>o_position = od_position od, o_context = od_context od, o_confidence = conf\<rparr>]\<rparr>)"

text \<open>
  The loop over the occurrences of an existing concept, the row at index \<open>i\<close>: each
  \<open>addOccurrence\<close> saves the concept, and a failed validation throws and leaves the row
  as the last save wrote it.
\<close>

fun addOccurrences ::
  "concept list \<Rightarrow> nat \<Rightarrow> concept \<Rightarrow> occurrence_data list \<Rightarrow> (failure + concept) \<times> concept list" where
  "addOccurrences cs i c [] = (Inr c, cs)"
| "addOccurrences cs i c (od # ods) =
     (let c' = addOccurrence c od
      in case validate_concept c' of
           [] \<Rightarrow> addOccurrences (cs[i := c']) i c' ods
         | p # ps \<Rightarrow> (Inl (ValidationError (p # ps)), cs))"

text \<open>\<open>concept.save()\<close> of a new row, under the unique index on document and term.\<close>

definition insert_concept :: "concept list \<Rightarrow> concept \<Rightarrow> failure + concept list" where
  "insert_concept cs c =
     (case validate_concept c of
        p # ps \<Rightarrow> Inl (ValidationError (p # ps))
      | [] \<Rightarrow>
          if \<exists>r \<in> set cs. c_documentId r = c_documentId c \<and> c_term r = c_term c
          then Inl DuplicateKeyError
          else Inr (cs @ [c]))"

text \<open>
  The loop of \<open>extractAndSaveConcepts\<close> over the concepts the model returned. The schema
  trims \<open>term\<close>, in the filter of \<open>findOne\<close> as in a new row. \<open>saved\<close> is the list the
  function returns.
\<close>

fun saveConcepts ::
  "concept list \<Rightarrow> nat \<Rightarrow> nat \<Rightarrow> concept list \<Rightarrow> concept_data list \<Rightarrow>
   (failure + concept list) \<times> concept list" where
  "saveConcepts cs documentId uid saved [] = (Inr saved, cs)"
| "saveConcepts cs documentId uid saved (cd # cds) =
     (case findIndex (\<lambda>c. c_documentId c = documentId \<and> c_term c = trim (cd_term cd)) cs of
        Some i \<Rightarrow>
          (case addOccurrences cs i
                  ((cs ! i)\<lparr>c_definition := cd_definition cd, c_category := cd_category cd,
                            c_importance := cd_importance cd\<rparr>)
                  (case cd_occurrences cd of Some ods \<Rightarrow> ods | None \<Rightarrow> []) of
             (Inl e, cs') \<Rightarrow> (Inl e, cs')
           | (Inr c', cs') \<Rightarrow>
               (case validate_concept c' of
                  [] \<Rightarrow> saveConcepts (cs'[i := c']) documentId uid (saved @ [c']) cds
                | p # ps \<Rightarrow> (Inl (ValidationError (p # ps)), cs')))
      | None \<Rightarrow>
          (let c = \<lparr>c_term = trim (cd_term cd), c_definition = cd_definition cd,
                    c_documentId = documentId, c_userId = uid,
                    c_occurrences =
                      map (\<lambda>od. \<lparr>o_position = od_position od, o_context = od_context od,
                                  o_confidence = (case od_confidence od of Some x \<Rightarrow> x | None \<Rightarrow> 1)\<rparr>)
                        (case cd_occurrences cd of Some ods \<Rightarrow> ods | None \<Rightarrow> []),
                    c_category = cd_category cd, c_importance = cd_importance cd\<rparr>
           in case insert_concept cs c of
                Inl e \<Rightarrow> (Inl e, cs)
              | Inr cs' \<Rightarrow> saveConcepts cs' documentId uid (saved @ [c]) cds))"

text \<open>
  \<open>extractAndSaveConcepts(documentId, userId, markdownContent)\<close>; \<open>extracted\<close> is the
  outcome of \<open>aiService.extractConcepts(markdownContent, ...)\<close>.
\<close>

definition extractAndSaveConcepts ::
  "database \<Rightarrow> jsstring + concept_data list \<Rightarrow> nat \<Rightarrow> nat \<Rightarrow>
   (failure + concept list) \<times> database" where
  "extractAndSaveConcepts db extracted documentId uid =
     (case extracted of
        Inl message \<Rightarrow> (Inl (ConceptsFailed (AIServiceError message)), db)
      | Inr cds \<Rightarrow>
          (case saveConcepts (concepts db) documentId uid [] cds of
             (Inl e, cs') \<Rightarrow> (Inl (ConceptsFailed e), db\<lparr>concepts := cs'\<rparr>)
           | (Inr saved, cs') \<Rightarrow> (Inr saved, db\<lparr>concepts := cs'\<rparr>)))"

subsection \<open>Annotation\<close>

text \<open>
  What annotation prints with \<open>console.error\<close>: the label and the error. The labels are
  \<open>AI\<close> and six CJK characters with a colon (the \<open>catch\<close> of \<open>processAIFeatures\<close>), six CJK
  characters with a colon each for a rejected summary and for rejected concepts, and \<open>AI\<close>
  and four CJK characters with a colon (the \<open>catch\<close> handler that \<open>extractToMarkdown\<close>
  attaches to the call).
\<close>

type_synonym console = "(jsstring \<times> failure) list"

definition label_ai_features_failed :: jsstring where
  "label_ai_features_failed = [65, 73, 21151, 33021, 22788, 29702, 22833, 36133, 58]"

definition label_summary_failed :: jsstring where
  "label_summary_failed = [25688, 35201, 29983, 25104, 22833, 36133, 58]"

definition label_concepts_failed :: jsstring where
  "label_concepts_failed = [27010, 24565, 25552, 21462, 22833, 36133, 58]"

definition label_ai_failed :: jsstring where
  "label_ai_failed = [65, 73, 22788, 29702, 22833, 36133, 58]"

text \<open>
  \<open>processAIFeatures(documentId, markdownContent)\<close>: the document is read, the
  restructuring is awaited and written, and then the summary and the concepts are
  started together and awaited with \<open>Promise.allSettled\<close>; a rejected summary is printed,
  then rejected concepts. Whatever is thrown before that is printed by the \<open>catch\<close> and
  thrown on. The two write to different collections and read nothing of each other, so
  running one after the other gives the database every interleaving gives. The result is
  what the function throws or returns, the database it leaves, and what it printed.
\<close>

definition processAIFeatures ::
  "ai_service \<Rightarrow> database \<Rightarrow> nat \<Rightarrow> jsstring \<Rightarrow> (failure + unit) \<times> database \<times> console" where
  "processAIFeatures ai db documentId content =
     (case documents db documentId of
        None \<Rightarrow> (Inl DocumentNotFound, db, [(label_ai_features_failed, DocumentNotFound)])
      | Some document \<Rightarrow>
          (case restructureDocument ai content of
             Inl message \<Rightarrow>
               (Inl (AIServiceError message), db,
                [(label_ai_features_failed, AIServiceError message)])
           | Inr restructured \<Rightarrow>
               let db1 = findByIdAndUpdate db documentId
                           (\<lambda>d. d\<lparr>restructuredContent := Some restructured\<rparr>);
                   summaryResult = generateAndSaveSummary db1 (generateSummary ai content)
                                     documentId (userId document);
                   conceptsResult = extractAndSaveConcepts (snd summaryResult)
                                      (extractConcepts ai content) documentId (userId document)
               in (Inr (), snd conceptsResult,
                   (case fst summaryResult of
                      Inl reason \<Rightarrow> [(label_summary_failed, reason)]
                    | Inr _ \<Rightarrow> []) @
                   (case fst conceptsResult of
                      Inl reason \<Rightarrow> [(label_concepts_failed, reason)]
                    | Inr _ \<Rightarrow> []))))"

text \<open>
  The call in \<open>extractToMarkdown\<close>, \<open>this.processAIFeatures(...).catch(error => ...)\<close>,
  which nothing awaits: the handler prints what \<open>processAIFeatures\<close> throws, and nothing is
  thrown on. The result is the database it leaves and all that was printed.
\<close>

definition runAIFeatures :: "ai_service \<Rightarrow> database \<Rightarrow> nat \<Rightarrow> jsstring \<Rightarrow> database \<times> console" where
  "runAIFeatures ai db documentId markdown =
     (case processAIFeatures ai db documentId markdown of
        (Inl error, db', printed) \<Rightarrow> (db', printed @ [(label_ai_failed, error)])
      | (Inr _, db', printed) \<Rightarrow> (db', printed))"

text \<open>
  Running a background task: the database it leaves and the tasks it starts. Whatever it
  throws ends in the \<open>catch\<close> handler its caller attached, which logs it.
\<close>

definition run_task :: "externals \<Rightarrow> ai_service \<Rightarrow> database \<Rightarrow> task \<Rightarrow> database \<times> task list" where
  "run_task env ai db t =
     (case t of
        ProcessFileExtraction documentId fileBuffer mimeType \<Rightarrow>
          processFileExtraction env db documentId fileBuffer mimeType
      | ProcessAIFeatures documentId markdown \<Rightarrow>
          (fst (runAIFeatures ai db documentId markdown), []))"

section \<open>The status invariant of a document\<close>

text \<open>
  \<open>updateProcessingStatus(status, error = null)\<close> of the Document model, before its
  \<open>save\<close>: the error is stored when it is truthy (a string that is not empty), and
  null otherwise.
\<close>

definition updateProcessingStatus :: "document \<Rightarrow> status \<Rightarrow> jsstring option \<Rightarrow> document" where
  "updateProcessingStatus d st error =
     d\<lparr>processingStatus := st,
       processingError := (case error of
                             Some e \<Rightarrow> if e \<noteq> [] then Some e else None
                           | None \<Rightarrow> None)\<rparr>"

text \<open>The invariant in the words of the specification.\<close>

definition status_invariant :: "document \<Rightarrow> bool" where
  "status_invariant d =
     (((markdownContent d \<noteq> []) = (processingStatus d = completed)) \<and>
      ((processingError d \<noteq> None) = (processingStatus d = failed)))"

text \<open>
  A PDF without text, a scan: pdf-parse returns two line feeds. The record as
  \<open>uploadDocument\<close> creates it, and the database that holds it.
\<close>

definition scan_externals :: externals where
  "scan_externals = \<lparr>pdfParse = (\<lambda>b. Inr [10, 10]), bufferToString = (\<lambda>b. []),
                      upperCase = ascii_toUpperCase\<rparr>"

definition uploaded_pdf :: document where
  "uploaded_pdf = \<lparr>userId = 7, title = js ''scan'', originalFormat = js ''pdf'',
                    filePath = Some (js ''documents/1-ab.pdf''), markdownContent = [],
                    restructuredContent = None, processingStatus = pending,
                    processingError = None, isDeleted = False, url = None\<rparr>"

definition one_pdf_database :: database where
  "one_pdf_database = \<lparr>documents = [0 \<mapsto> uploaded_pdf], nextId = 1, summaries = [], concepts = []\<rparr>"

section \<open>One summary per document and type\<close>

definition unique_summaries :: "summary list \<Rightarrow> bool" where
  "unique_summaries ss = distinct (map (\<lambda>s. (s_documentId s, s_type s)) ss)"

definition first_summary_database :: database where
  "first_summary_database =
     snd (generateAndSaveSummary one_pdf_database (Inr (js ''first'')) 0 7)"

section \<open>Isolation of the annotation artifacts\<close>

text \<open>
  A document whose restructuring fails while its summary would succeed.
\<close>

definition restructure_down :: ai_service where
  "restructure_down = \<lparr>restructureDocument = (\<lambda>content. Inl (js ''timeout'')),
                        generateSummary = (\<lambda>content. Inr (js ''A summary.'')),
                        extractConcepts = (\<lambda>content. Inr [])\<rparr>"

definition summary_down :: ai_service where
  "summary_down =
     \<lparr>restructureDocument = (\<lambda>content. Inr (js ''Tidy text.'')),
      generateSummary = (\<lambda>content. Inl (js ''rate limit'')),
      extractConcepts = (\<lambda>content. Inr [\<lparr>cd_term = js ''Heap'', cd_definition = js ''A tree.'',
         cd_category = js ''concept'', cd_importance = 3, cd_occurrences = None\<rparr>])\<rparr>"

section \<open>One concept per document and term\<close>

definition concept_key :: "concept \<Rightarrow> nat \<times> jsstring" where
  "concept_key c = (c_documentId c, c_term c)"

definition unique_concepts :: "concept list \<Rightarrow> bool" where
  "unique_concepts cs = distinct (map concept_key cs)"

text \<open>
  A submitted occurrence as the schema stores it, with the default confidence 1.
\<close>

abbreviation stored_occurrence :: "occurrence_data \<Rightarrow> occurrence" where
  "stored_occurrence od \<equiv>
     \<lparr>o_position = od_position od, o_context = od_context od,
      o_confidence = (case od_confidence od of Some x \<Rightarrow> x | None \<Rightarrow> 1)\<rparr>"

text \<open>The same term submitted twice for document 0.\<close>

definition heap_first :: concept_data where
  "heap_first = \<lparr>cd_term = js ''Heap'', cd_definition = js ''A tree.'',
                  cd_category = js ''concept'', cd_importance = 3,
                  cd_occurrences = Some [\<lparr>od_position = 3, od_context = js ''a heap is'',
                                          od_confidence = None\<rparr>]\<rparr>"

definition heap_second :: concept_data where
  "heap_second = \<lparr>cd_term = js ''Heap'', cd_definition = js ''A priority tree.'',
                   cd_category = js ''term'', cd_importance = 5,
                   cd_occurrences = Some [\<lparr>od_position = 3, od_context = js ''the heap'',
                                           od_confidence = Some (1 / 2)\<rparr>,
                                          \<lparr>od_position = 9, od_context = js ''heap order'',
                                           od_confidence = None\<rparr>]\<rparr>"

definition heap_row :: concept where
  "heap_row = \<lparr>c_term = js ''Heap'', c_definition = js ''A tree.'', c_documentId = 0,
               c_userId = 7,
               c_occurrences = [\<lparr>o_position = 3, o_context = js ''a heap is'', o_confidence = 1\<rparr>],
               c_category = js ''concept'', c_importance = 3\<rparr>"

definition heap_row_merged :: concept where
  "heap_row_merged = \<lparr>c_term = js ''Heap'', c_definition = js ''A priority tree.'',
               c_documentId = 0, c_userId = 7,
               c_occurrences = [\<lparr>o_position = 3, o_context = js ''the heap'', o_confidence = 1 / 2\<rparr>,
                                \<lparr>o_position = 9, o_context = js ''heap order'', o_confidence = 1\<rparr>],
               c_category = js ''term'', c_importance = 5\<rparr>"

section \<open>The controller and the DocumentService that parses on upload\<close>

text \<open>
  An HTTP response: the status code and, where the body carries one, the document.
\<close>

datatype response = Response (responseCode: nat) (responseBody: "document option")

text \<open>
  The upload request as the handler sees it: whether express-validator found the fields
  in order, the file multer parsed, the user of the token, and the title.
\<close>

record upload_request =
  fieldsValid :: bool
  requestFile :: "upload_file option"
  requestUser :: nat
  requestTitle :: "jsstring option"

text \<open>
  \<open>DocumentController.uploadDocument\<close> over the DocumentService that delegates extraction
  to FileExtractService: 400 for invalid fields or no file, 500 when the service throws,
  201 with the record the service returned.
\<close>

definition uploadDocumentHandler ::
  "service_config \<Rightarrow> jsstring option \<Rightarrow> jsstring \<Rightarrow> (jsstring \<Rightarrow> jsstring) \<Rightarrow> database \<Rightarrow>
   upload_request \<Rightarrow> response \<times> database \<times> task list" where
  "uploadDocumentHandler cfg sdk_error fileKey extractTitle db req =
     (if \<not> fieldsValid req then (Response 400 None, db, [])
      else case requestFile req of
             None \<Rightarrow> (Response 400 None, db, [])
           | Some f \<Rightarrow>
               (case uploadDocument cfg sdk_error fileKey extractTitle db (Some f)
                       (requestUser req) (requestTitle req) of
                  (Inl e, db', tasks) \<Rightarrow> (Response 500 None, db', tasks)
                | (Inr (i, d), db', tasks) \<Rightarrow> (Response 201 (Some d), db', tasks)))"

subsection \<open>The service\<close>

text \<open>
  What lies outside the repository: the outcome of the S3 upload and of the S3 delete
  (\<open>None\<close> when it succeeds, which includes the mock of the test environment), the bytes
  of a stored file (\<open>getFileStream\<close> and \<open>streamToBuffer\<close>, or the message of their
  error), pdf-parse followed by \<open>convertPdfTextToMarkdown\<close> (the markdown, or the message
  of the parse error; the conversion is a function of the parse result), \<open>mime.lookup\<close>,
  the URL parser, and the two title helpers built on \<open>path\<close> and \<open>URL\<close>.
\<close>

record parser_externals =
  s3PutError :: "jsstring option"
  s3DeleteError :: "jsstring option"
  fetchBuffer :: "jsstring option \<Rightarrow> jsstring + nat list"
  pdfMarkdown :: "nat list \<Rightarrow> jsstring + jsstring"
  mimeLookup :: "jsstring \<Rightarrow> jsstring"
  validUrl :: "jsstring \<Rightarrow> bool"
  baseTitle :: "jsstring \<Rightarrow> jsstring"
  urlTitle :: "jsstring \<Rightarrow> jsstring"

text \<open>
  The messages: document missing (five CJK characters), document missing or not
  accessible (ten), the prefix and suffix of the unsupported format message, and the
  note of a URL document. The two fragments the controller looks for in a message to
  answer 404: \<open>missing\<close> (three characters) and \<open>no access\<close> (four).
\<close>

definition msg_document_missing :: jsstring where
  "msg_document_missing = [25991, 26723, 19981, 23384, 22312]"

definition msg_missing_or_forbidden :: jsstring where
  "msg_missing_or_forbidden =
     [25991, 26723, 19981, 23384, 22312, 25110, 26080, 26435, 35775, 38382]"

definition msg_unsupported_format :: "jsstring \<Rightarrow> jsstring" where
  "msg_unsupported_format format =
     [26242, 19981, 25903, 25345, 32] @ format @ [32, 26684, 24335, 30340, 35299, 26512]"

definition url_note :: jsstring where
  "url_note = [42, 27492, 25991, 26723, 20026, 32593, 39029, 38142, 25509, 65292, 20869, 23481,
               35299, 26512, 21151, 33021, 23558, 22312, 21518, 32493, 29256, 26412, 20013,
               25552, 20379, 12290, 42]"

definition fragment_missing :: jsstring where
  "fragment_missing = [19981, 23384, 22312]"

definition fragment_no_access :: jsstring where
  "fragment_no_access = [26080, 26435, 35775, 38382]"

definition statusCode :: "jsstring \<Rightarrow> nat" where
  "statusCode message =
     (if js_includes message fragment_missing \<or> js_includes message fragment_no_access
      then 404 else 500)"

text \<open>
  \<open>this.supportedFormats\<close>: MIME type to format; \<open>[]\<close> stands for no entry. As above,
  the table is read by its own keys only.
\<close>

definition formatOfMimeType :: "jsstring \<Rightarrow> jsstring" where
  "formatOfMimeType m =
     (if m = js ''application/pdf'' then js ''pdf''
      else if m = js ''application/vnd.openxmlformats-officedocument.wordprocessingml.document''
              \<or> m = js ''application/msword'' then js ''docx''
      else if m = js ''application/vnd.openxmlformats-officedocument.presentationml.presentation''
              \<or> m = js ''application/vnd.ms-powerpoint'' then js ''pptx''
      else if m \<in> {js ''image/jpeg'', js ''image/jpg'', js ''image/png'', js ''image/gif'',
                   js ''image/bmp'', js ''image/webp''} then js ''image''
      else [])"

text \<open>\<open>validateFile(file)\<close>: the errors, the format and the MIME type.\<close>

definition validateFileInline ::
  "service_config \<Rightarrow> parser_externals \<Rightarrow> upload_file \<Rightarrow> failure list \<times> jsstring \<times> jsstring" where
  "validateFileInline cfg ext f =
     (let mimeType = (if mimetype f \<noteq> [] then mimetype f else mimeLookup ext (originalname f))
      in ((if fsize f > maxFileSize cfg then [FileTooLarge] else []) @
          (if formatOfMimeType mimeType = [] then [UnsupportedFileType mimeType] else []) @
          (if trim (originalname f) = [] then [FileNameEmpty] else []),
          formatOfMimeType mimeType, mimeType))"

text \<open>
  \<open>getDocument(documentId, userId)\<close>: the document of that id, of that user, not deleted.
\<close>

definition getDocument :: "database \<Rightarrow> nat \<Rightarrow> nat \<Rightarrow> jsstring + document" where
  "getDocument db i uid =
     (case documents db i of
        None \<Rightarrow> Inl msg_missing_or_forbidden
      | Some d \<Rightarrow> if userId d = uid \<and> \<not> isDeleted d then Inr d else Inl msg_missing_or_forbidden)"

text \<open>
  \<open>document.updateProcessingStatus(status, error)\<close> with its \<open>save\<close>. The document in
  memory was read from the collection just before and agrees with the stored one on the
  fields it does not set, so the save is the same update of the stored document.
\<close>

definition saveStatus :: "database \<Rightarrow> nat \<Rightarrow> status \<Rightarrow> jsstring option \<Rightarrow> database" where
  "saveStatus db i st error = findByIdAndUpdate db i (\<lambda>d. updateProcessingStatus d st error)"

text \<open>
  \<open>parseAndConvertDocument(documentId, fileBuffer = null)\<close>. The third component is the
  history of the call: the database as each write to the documents collection left it,
  in order. An error is the message it carries; whatever fails after the document was
  found is written to the document as \<open>failed\<close> and thrown on.
\<close>

definition parseAndConvertDocument ::
  "parser_externals \<Rightarrow> database \<Rightarrow> nat \<Rightarrow> nat list option \<Rightarrow>
   (jsstring + document) \<times> database \<times> database list" where
  "parseAndConvertDocument ext db documentId fileBuffer =
     (case documents db documentId of
        None \<Rightarrow> (Inl msg_document_missing, db, [])
      | Some doc \<Rightarrow>
          let db1 = saveStatus db documentId processing None;
              conversion =
                (case (case fileBuffer of
                         Some b \<Rightarrow> Inr b
                       | None \<Rightarrow> fetchBuffer ext (filePath doc)) of
                   Inl message \<Rightarrow> Inl message
                 | Inr buf \<Rightarrow>
                     if originalFormat doc = js ''pdf'' then pdfMarkdown ext buf
                     else if originalFormat doc = js ''url''
                       then Inr (js ''# '' @ title doc @ [10, 10] @ js ''**URL**: '' @
                                 (case url doc of Some u \<Rightarrow> u | None \<Rightarrow> js ''undefined'') @
                                 [10, 10] @ url_note)
                     else Inl (msg_unsupported_format (originalFormat doc)))
          in case conversion of
               Inr markdown \<Rightarrow>
                 let db2 = findByIdAndUpdate db1 documentId
                             (\<lambda>d. updateProcessingStatus (d\<lparr>markdownContent := markdown\<rparr>)
                                    completed None)
                 in (Inr (updateProcessingStatus (doc\<lparr>markdownContent := markdown\<rparr>) completed None),
                     db2, [db1, db2])
             | Inl message \<Rightarrow>
                 let db2 = saveStatus db1 documentId failed (Some message)
                 in (Inl message, db2, [db1, db2]))"

text \<open>
  \<open>uploadDocument(file, userId, metadata)\<close> of this service: the record is created with
  status \<open>processing\<close>, parsing is awaited, a parse error is written to the record once
  more, and the record is read back for the response. The third component is the
  history again: the database after the insert, after each write of the parser, and
  after the write of the parse error.
\<close>

definition uploadAndParse ::
  "service_config \<Rightarrow> parser_externals \<Rightarrow> jsstring \<Rightarrow> database \<Rightarrow> upload_file \<Rightarrow> nat \<Rightarrow>
   jsstring option \<Rightarrow> (failure + document) \<times> database \<times> database list" where
  "uploadAndParse cfg ext s3Key db f uid meta_title =
     (case validateFileInline cfg ext f of
        (e # es, _, _) \<Rightarrow> (Inl (InvalidFile (e # es)), db, [])
      | ([], format, mimeType) \<Rightarrow>
          (case s3PutError ext of
             Some message \<Rightarrow> (Inl (S3UploadFailed message), db, [])
           | None \<Rightarrow>
               let d = \<lparr>userId = uid,
                        title = trim (case meta_title of
                                        Some t \<Rightarrow> if t \<noteq> [] then t else baseTitle ext (originalname f)
                                      | None \<Rightarrow> baseTitle ext (originalname f)),
                        originalFormat = format,
                        filePath = Some s3Key,
                        markdownContent = [],
                        restructuredContent = None,
                        processingStatus = processing,
                        processingError = None,
                        isDeleted = False,
                        url = None\<rparr>
               in (case save_document db d of
                     Inl e \<Rightarrow> (Inl e, db, [])
                   | Inr (i, db1) \<Rightarrow>
                       (case parseAndConvertDocument ext db1 i (Some (buffer f)) of
                          (parsed, db2, states) \<Rightarrow>
                            let db3 = (case parsed of
                                         Inl message \<Rightarrow> saveStatus db2 i failed (Some message)
                                       | Inr _ \<Rightarrow> db2);
                                states3 = db1 # states @
                                       (case parsed of Inl message \<Rightarrow> [db3] | Inr _ \<Rightarrow> [])
                            in (case documents db3 i of
                                  Some updated \<Rightarrow> (Inr updated, db3, states3)
                                | None \<Rightarrow> (Inl TypeError, db3, states3))))))"

text \<open>\<open>addUrlDocument(url, userId, metadata)\<close>: the same for a URL, which has no file.\<close>

definition addUrlDocument ::
  "parser_externals \<Rightarrow> database \<Rightarrow> jsstring \<Rightarrow> nat \<Rightarrow> jsstring option \<Rightarrow>
   (failure + document) \<times> database \<times> database list" where
  "addUrlDocument ext db u uid meta_title =
     (if \<not> validUrl ext u then (Inl InvalidUrl, db, [])
      else
        let d = \<lparr>userId = uid,
                 title = trim (case meta_title of
                                 Some t \<Rightarrow> if t \<noteq> [] then t else urlTitle ext u
                               | None \<Rightarrow> urlTitle ext u),
                 originalFormat = js ''url'',
                 filePath = None,
                 markdownContent = [],
                 restructuredContent = None,
                 processingStatus = processing,
                 processingError = None,
                 isDeleted = False,
                 url = Some (trim u)\<rparr>
        in (case save_document db d of
              Inl e \<Rightarrow> (Inl e, db, [])
            | Inr (i, db1) \<Rightarrow>
                (case parseAndConvertDocument ext db1 i None of
                   (parsed, db2, states) \<Rightarrow>
                     let db3 = (case parsed of
                                  Inl message \<Rightarrow> saveStatus db2 i failed (Some message)
                                | Inr _ \<Rightarrow> db2);
                         states3 = db1 # states @
                                (case parsed of Inl message \<Rightarrow> [db3] | Inr _ \<Rightarrow> [])
                     in (case documents db3 i of
                           Some updated \<Rightarrow> (Inr updated, db3, states3)
                         | None \<Rightarrow> (Inl TypeError, db3, states3)))))"

text \<open>
  \<open>deleteDocument(documentId, userId)\<close>: the stored file is deleted, then the record is
  marked deleted. An error is the message it carries.
\<close>

definition msg_delete_failed :: jsstring where
  "msg_delete_failed = [25991, 20214, 21024, 38500, 22833, 36133, 58, 32]"

definition deleteDocument :: "parser_externals \<Rightarrow> database \<Rightarrow> nat \<Rightarrow> nat \<Rightarrow> (jsstring + unit) \<times> database" where
  "deleteDocument ext db i uid =
     (case getDocument db i uid of
        Inl message \<Rightarrow> (Inl message, db)
      | Inr d \<Rightarrow>
          if filePath d \<noteq> None \<and> filePath d \<noteq> Some [] \<and> s3DeleteError ext \<noteq> None
          then (Inl (msg_delete_failed @ (case s3DeleteError ext of Some m \<Rightarrow> m | None \<Rightarrow> [])), db)
          else (Inr (), findByIdAndUpdate db i (\<lambda>d. d\<lparr>isDeleted := True\<rparr>)))"

subsection \<open>The handlers of the controller\<close>

text \<open>
  The requests of the document routes that this controller answers through the
  DocumentService, each with the user of its token, and the handler of each: the
  response, the database afterwards, and the history of the request, which is the
  database as each write to the documents collection left it, in order. (The routes
  under \<open>/ai\<close> and \<open>/exercises\<close> go to the AIService and write no document.)
\<close>

datatype request =
    UploadDocument upload_request jsstring
  | AddUrlDocument bool jsstring nat "jsstring option"
  | GetDocument nat nat
  | ListDocuments nat
  | GetDocumentStats nat
  | DownloadDocument nat nat
  | GetMarkdownContent nat nat
  | DeleteDocument nat nat
  | ReprocessDocument nat nat

definition reprocessDocument ::
  "parser_externals \<Rightarrow> database \<Rightarrow> nat \<Rightarrow> nat \<Rightarrow> response \<times> database \<times> database list" where
  "reprocessDocument ext db documentId uid =
     (case getDocument db documentId uid of
        Inl message \<Rightarrow> (Response (statusCode message) None, db, [])
      | Inr d \<Rightarrow>
          if processingStatus d = processing then (Response 400 None, db, [])
          else (case parseAndConvertDocument ext db documentId None of
                  (Inr d', db', states) \<Rightarrow> (Response 200 (Some d'), db', states)
                | (Inl message, db', states) \<Rightarrow>
                    (Response (statusCode message) None, db', states)))"

definition handle ::
  "service_config \<Rightarrow> parser_externals \<Rightarrow> database \<Rightarrow> request \<Rightarrow>
   response \<times> database \<times> database list" where
  "handle cfg ext db req =
     (case req of
        UploadDocument r s3Key \<Rightarrow>
          (if \<not> fieldsValid r then (Response 400 None, db, [])
           else case requestFile r of
                  None \<Rightarrow> (Response 400 None, db, [])
                | Some f \<Rightarrow>
                    (case uploadAndParse cfg ext s3Key db f (requestUser r) (requestTitle r) of
                       (Inl e, db', states) \<Rightarrow> (Response 500 None, db', states)
                     | (Inr d, db', states) \<Rightarrow> (Response 201 (Some d), db', states)))
      | AddUrlDocument valid u uid meta_title \<Rightarrow>
          (if \<not> valid then (Response 400 None, db, [])
           else case addUrlDocument ext db u uid meta_title of
                  (Inl e, db', states) \<Rightarrow> (Response 500 None, db', states)
                | (Inr d, db', states) \<Rightarrow> (Response 201 (Some d), db', states))
      | GetDocument i uid \<Rightarrow>
          (case getDocument db i uid of
             Inl message \<Rightarrow> (Response (statusCode message) None, db, [])
           | Inr d \<Rightarrow> (Response 200 (Some d), db, []))
      | ListDocuments uid \<Rightarrow> (Response 200 None, db, [])
      | GetDocumentStats uid \<Rightarrow> (Response 200 None, db, [])
      | DownloadDocument i uid \<Rightarrow>
          (case getDocument db i uid of
             Inl message \<Rightarrow> (Response (statusCode message) None, db, [])
           | Inr d \<Rightarrow>
               if filePath d = None \<or> filePath d = Some [] then (Response 404 None, db, [])
               else (case fetchBuffer ext (filePath d) of
                       Inl message \<Rightarrow> (Response (statusCode message) None, db, [])
                     | Inr _ \<Rightarrow> (Response 200 None, db, [])))
      | GetMarkdownContent i uid \<Rightarrow>
          (case getDocument db i uid of
             Inl message \<Rightarrow> (Response (statusCode message) None, db, [])
           | Inr d \<Rightarrow>
               if markdownContent d = [] then (Response 404 None, db, [])
               else (Response 200 (Some d), db, []))
      | DeleteDocument i uid \<Rightarrow>
          (case deleteDocument ext db i uid of
             (Inl message, db') \<Rightarrow> (Response (statusCode message) None, db', [])
           | (Inr _, db') \<Rightarrow> (Response 200 None, db', [db']))
      | ReprocessDocument i uid \<Rightarrow> reprocessDocument ext db i uid)"

section \<open>Reprocessing\<close>








section \<open>What an upload returns\<close>

definition pdf_file :: upload_file where
  "pdf_file = \<lparr>originalname = js ''report.pdf'', mimetype = js ''application/pdf'',
                fsize = 4, buffer = [37, 80, 68, 70]\<rparr>"

definition pdf_request :: upload_request where
  "pdf_request = \<lparr>fieldsValid = True, requestFile = Some pdf_file, requestUser = 7,
                   requestTitle = None\<rparr>"

definition default_config :: service_config where
  "default_config = \<lparr>s3Enabled = True, maxFileSize = 52428800\<rparr>"

definition parsing_externals :: parser_externals where
  "parsing_externals =
     \<lparr>s3PutError = None, s3DeleteError = None, fetchBuffer = (\<lambda>p. Inr [37, 80, 68, 70]),
      pdfMarkdown = (\<lambda>b. Inr (js ''# report'')), mimeLookup = (\<lambda>n. []),
      validUrl = (\<lambda>u. True), baseTitle = (\<lambda>n. js ''report''), urlTitle = (\<lambda>u. js ''page'')\<rparr>"

chapter \<open>Properties\<close>

section \<open>JavaScript strings\<close>

lemma js_Nil [simp]: "js [] = []"
  by (simp add: js_def)

lemma js_Cons [simp]: "js (c # cs) = of_char c # js cs"
  by (simp add: js_def)

lemma js_includes_iff: "js_includes s k \<longleftrightarrow> (\<exists>p q. s = p @ k @ q)"
proof (induction s)
  case Nil
  then show ?case by auto
next
  case (Cons c cs)
  show ?case
  proof
    assume "js_includes (c # cs) k"
    then consider "prefix k (c # cs)" | "js_includes cs k" by auto
    then show "\<exists>p q. c # cs = p @ k @ q"
    proof cases
      case 1
      then obtain q where "c # cs = k @ q" by (auto simp: prefix_def)
      then have "c # cs = [] @ k @ q" by simp
      then show ?thesis by blast
    next
      case 2
      with Cons obtain p q where "cs = p @ k @ q" by blast
      then have "c # cs = (c # p) @ k @ q" by simp
      then show ?thesis by blast
    qed
  next
    assume "\<exists>p q. c # cs = p @ k @ q"
    then obtain p q where pq: "c # cs = p @ k @ q" by blast
    show "js_includes (c # cs) k"
    proof (cases p)
      case Nil
      with pq have "prefix k (c # cs)" by (simp add: prefix_def)
      then show ?thesis by simp
    next
      case (Cons a p')
      with pq have "cs = p' @ k @ q" by simp
      with Cons.IH have "js_includes cs k" by blast
      then show ?thesis by simp
    qed
  qed
qed

section \<open>Upload through the DocumentService that delegates to FileExtractService\<close>

subsection \<open>MIME types the schema cannot store\<close>

lemma mapped_not_in_enum:
  assumes "m \<in> {js ''text/plain'', js ''application/msword'', js ''image/jpeg'', js ''image/png''}"
  shows "getFormatFromMimeType m \<notin> set originalFormat_enum"
    and "fileFilter m" and "m \<in> set supportedFormats"
  using assms
  by (auto simp: getFormatFromMimeType_def originalFormat_enum_def fileFilter_def
      allowedMimeTypes_def supportedFormats_def)

lemma validate_document_bad_format:
  "originalFormat d \<notin> set originalFormat_enum \<Longrightarrow> js ''originalFormat'' \<in> set (validate_document d)"
  by (simp add: validate_document_def)

lemma save_document_bad_format:
  assumes "originalFormat d \<notin> set originalFormat_enum"
  shows "\<exists>ps. save_document db d = Inl (ValidationError ps) \<and> js ''originalFormat'' \<in> set ps"
proof -
  from assms have "js ''originalFormat'' \<in> set (validate_document d)"
    by (rule validate_document_bad_format)
  then show ?thesis
    by (cases "validate_document d") (auto simp: save_document_def)
qed

text \<open>
  Claim C10. For an upload whose MIME type is \<open>text/plain\<close>, \<open>application/msword\<close>,
  \<open>image/jpeg\<close> or \<open>image/png\<close>: the route's file filter accepts the type; the format
  that \<open>_getFormatFromMimeType\<close> gives it is outside the enum of \<open>originalFormat\<close>;
  \<open>uploadDocument\<close> never succeeds, leaves the database as it was and starts no
  extraction; and when the size check and the S3 upload pass, the failure is the schema's
  validation error on the path \<open>originalFormat\<close>.
\<close>

theorem unstorable_mime_types_fail_validation:
  assumes "mimetype f \<in> {js ''text/plain'', js ''application/msword'', js ''image/jpeg'', js ''image/png''}"
  shows "fileFilter (mimetype f) \<and>
     getFormatFromMimeType (mimetype f) \<notin> set originalFormat_enum \<and>
     (\<exists>e. uploadDocument cfg sdk_error fileKey extractTitle db (Some f) uid meta_title
           = (Inl (UploadFailed e), db, [])) \<and>
     (fsize f \<le> maxFileSize cfg \<and> s3Enabled cfg \<and> sdk_error = None \<longrightarrow>
       (\<exists>ps. uploadDocument cfg sdk_error fileKey extractTitle db (Some f) uid meta_title
             = (Inl (UploadFailed (ValidationError ps)), db, []) \<and> js ''originalFormat'' \<in> set ps))"
proof -
  note m = mapped_not_in_enum [OF assms]
  let ?d = "\<lparr>userId = uid,
             title = trim (case meta_title of
                             Some t \<Rightarrow> if t \<noteq> [] then t else extractTitle (originalname f)
                           | None \<Rightarrow> extractTitle (originalname f)),
             originalFormat = getFormatFromMimeType (mimetype f),
             filePath = Some fileKey, markdownContent = [], restructuredContent = None,
             processingStatus = pending, processingError = None, isDeleted = False, url = None\<rparr>"
  from m(1) obtain ps where ps: "save_document db ?d = Inl (ValidationError ps)"
    "js ''originalFormat'' \<in> set ps"
    using save_document_bad_format [of ?d db] by auto
  have a: "\<exists>e. uploadDocument cfg sdk_error fileKey extractTitle db (Some f) uid meta_title
           = (Inl (UploadFailed e), db, [])"
    using ps(1)
    by (auto simp: uploadDocument_def Let_def validateFile_def split: sum.splits if_splits)
  have b: "fsize f \<le> maxFileSize cfg \<and> s3Enabled cfg \<and> sdk_error = None \<longrightarrow>
       (\<exists>ps. uploadDocument cfg sdk_error fileKey extractTitle db (Some f) uid meta_title
             = (Inl (UploadFailed (ValidationError ps)), db, []) \<and> js ''originalFormat'' \<in> set ps)"
    using ps m(3) by (auto simp: uploadDocument_def Let_def validateFile_def uploadToS3_def)
  from m a b show ?thesis by blast
qed

theorem unstorable_mime_types_witness:
  "fileFilter (js ''text/plain'') \<and>
   getFormatFromMimeType (js ''text/plain'') = js ''txt'' \<and>
   (\<exists>ps. uploadDocument \<lparr>s3Enabled = True, maxFileSize = 52428800\<rparr> None (js ''documents/k.txt'')
           (\<lambda>n. js ''notes'') empty_database (Some text_file) 7 None
         = (Inl (UploadFailed (ValidationError ps)), empty_database, []))"
  using unstorable_mime_types_fail_validation [of text_file
      "\<lparr>s3Enabled = True, maxFileSize = 52428800\<rparr>" None "js ''documents/k.txt''"
      "\<lambda>n. js ''notes''" empty_database 7 None]
  by (auto simp: text_file_def getFormatFromMimeType_def)

section \<open>Heading detection in PDF text\<close>

subsection \<open>What the regular expressions match\<close>

lemma js_space_not_digit: "js_space c \<Longrightarrow> \<not> js_digit c"
  by (auto simp: js_space_def js_digit_def)

lemma stop_not_digit: "\<not> js_digit 46"
  by (simp add: js_digit_def)

lemma digits_split:
  assumes "\<forall>d \<in> set ds. js_digit d" and "\<not> js_digit c"
  shows "takeWhile js_digit (ds @ c # rest) = ds" and "dropWhile js_digit (ds @ c # rest) = c # rest"
  using assms by (simp_all add: takeWhile_append2 dropWhile_append2)

lemma startsWithNumber_iff:
  "startsWithNumber line \<longleftrightarrow>
     (\<exists>ds c rest. line = ds @ c # rest \<and> ds \<noteq> [] \<and> (\<forall>d \<in> set ds. js_digit d) \<and>
        (c = 46 \<or> js_space c))"
proof
  assume a: "startsWithNumber line"
  then obtain c rest where d: "dropWhile js_digit line = c # rest" and c: "c = 46 \<or> js_space c"
    by (auto simp: startsWithNumber_def split: list.splits)
  have "line = takeWhile js_digit line @ c # rest"
    using d takeWhile_dropWhile_id [of js_digit line] by simp
  moreover have "takeWhile js_digit line \<noteq> []"
    using a by (simp add: startsWithNumber_def)
  moreover have "\<forall>d \<in> set (takeWhile js_digit line). js_digit d"
    by (auto dest: set_takeWhileD)
  ultimately show "\<exists>ds c rest. line = ds @ c # rest \<and> ds \<noteq> [] \<and> (\<forall>d \<in> set ds. js_digit d) \<and>
        (c = 46 \<or> js_space c)"
    using c by blast
next
  assume "\<exists>ds c rest. line = ds @ c # rest \<and> ds \<noteq> [] \<and> (\<forall>d \<in> set ds. js_digit d) \<and>
        (c = 46 \<or> js_space c)"
  then obtain ds c rest where l: "line = ds @ c # rest" and ne: "ds \<noteq> []"
    and ds: "\<forall>d \<in> set ds. js_digit d" and c: "c = 46 \<or> js_space c"
    by blast
  from c have nd: "\<not> js_digit c"
    using js_space_not_digit stop_not_digit by blast
  show "startsWithNumber line"
    using digits_split [OF ds nd, of rest] ne c by (simp add: startsWithNumber_def l)
qed

lemma subNumberMatch_iff:
  "subNumberMatch line \<longleftrightarrow>
     (\<exists>ds d rest. line = ds @ 46 # d # rest \<and> ds \<noteq> [] \<and> (\<forall>x \<in> set ds. js_digit x) \<and> js_digit d)"
proof
  assume a: "subNumberMatch line"
  then obtain d rest where dr: "dropWhile js_digit line = 46 # d # rest" and d: "js_digit d"
    by (auto simp: subNumberMatch_def split: list.splits)
  have "line = takeWhile js_digit line @ 46 # d # rest"
    using dr takeWhile_dropWhile_id [of js_digit line] by simp
  moreover have "takeWhile js_digit line \<noteq> []"
    using a by (simp add: subNumberMatch_def)
  moreover have "\<forall>x \<in> set (takeWhile js_digit line). js_digit x"
    by (auto dest: set_takeWhileD)
  ultimately show "\<exists>ds d rest. line = ds @ 46 # d # rest \<and> ds \<noteq> [] \<and>
      (\<forall>x \<in> set ds. js_digit x) \<and> js_digit d"
    using d by blast
next
  assume "\<exists>ds d rest. line = ds @ 46 # d # rest \<and> ds \<noteq> [] \<and> (\<forall>x \<in> set ds. js_digit x) \<and> js_digit d"
  then obtain ds d rest where l: "line = ds @ 46 # d # rest" and ne: "ds \<noteq> []"
    and ds: "\<forall>x \<in> set ds. js_digit x" and d: "js_digit d"
    by blast
  show "subNumberMatch line"
    using digits_split [OF ds stop_not_digit, of "d # rest"] ne d by (simp add: subNumberMatch_def l)
qed

lemma containsTitleKeyword_iff:
  "containsTitleKeyword line \<longleftrightarrow> (\<exists>k \<in> set titleKeywords. \<exists>p q. line = p @ k @ q)"
  by (simp add: containsTitleKeyword_def js_includes_iff)

subsection \<open>Which lines become headings\<close>

lemma trim_js_nonempty [simp]: "\<not> js_space (of_char c) \<Longrightarrow> trim (of_char c # js cs) \<noteq> []"
  by (simp add: trim_def)

text \<open>
  An upper-case line after a blank line and directly above running text: the code makes
  it a heading, the rule of the specification does not.
\<close>

theorem upper_case_line_above_text_counterexample:
  "isPotentialTitle ascii_toUpperCase (js ''SUMMARY OF RESULTS'')
     [[], js ''SUMMARY OF RESULTS'', js ''Text follows.''] 1 = Inr True \<and>
   \<not> spec_isPotentialTitle ascii_toUpperCase (js ''SUMMARY OF RESULTS'')
     [[], js ''SUMMARY OF RESULTS'', js ''Text follows.''] 1"
  by (simp add: isPotentialTitle_def spec_isPotentialTitle_def prevLineEmpty_def
      nextLineEmpty_def isAllUpperCase_def hasUpperCase_def startsWithNumber_def
      containsTitleKeyword_def titleKeywords_def ascii_toUpperCase_def trim_def js_space_def
      js_digit_def)

text \<open>
  Claim C7, amended. For a line of the text (\<open>index\<close> within \<open>lines\<close>),
  \<open>isPotentialTitle\<close> answers without error, and it answers yes exactly when the line is
  not blank, is at most 100 code units long, and one of these holds:
  it equals its own upper-casing, has a letter \<open>A\<close>..\<open>Z\<close>, and is the first line or follows
  a blank line (the line after it does not matter);
  it starts with digits followed by a full stop or by white space;
  it contains one of the title keywords and is shorter than 50 code units;
  it is shorter than 80 code units, is the first line or follows a blank line, and is the
  last line or precedes a blank line.
\<close>

theorem heading_detection_rule:
  assumes "index < length lines"
  shows "isPotentialTitle toUpperCase line lines index =
    Inr (trim line \<noteq> [] \<and> length line \<le> 100 \<and>
         ((line = toUpperCase line \<and> (\<exists>c \<in> set line. 65 \<le> c \<and> c \<le> 90) \<and>
             (index = 0 \<or> trim (lines ! (index - 1)) = [])) \<or>
          (\<exists>ds c rest. line = ds @ c # rest \<and> ds \<noteq> [] \<and> (\<forall>d \<in> set ds. js_digit d) \<and>
             (c = 46 \<or> js_space c)) \<or>
          ((\<exists>k \<in> set titleKeywords. \<exists>p q. line = p @ k @ q) \<and> length line < 50) \<or>
          ((index = 0 \<or> trim (lines ! (index - 1)) = []) \<and>
             (index + 1 = length lines \<or> trim (lines ! (index + 1)) = []) \<and>
             length line < 80)))"
proof -
  have p: "prevLineEmpty lines index = Inr (index = 0 \<or> trim (lines ! (index - 1)) = [])"
    using assms by (auto simp: prevLineEmpty_def)
  have n: "nextLineEmpty lines index =
      Inr (index + 1 = length lines \<or> trim (lines ! (index + 1)) = [])"
    using assms by (auto simp: nextLineEmpty_def)
  show ?thesis
    unfolding isPotentialTitle_def p n
    by (auto simp: isAllUpperCase_def hasUpperCase_def startsWithNumber_iff
        containsTitleKeyword_iff)
qed

theorem heading_detection_rule_witness:
  "isPotentialTitle ascii_toUpperCase (js ''1. Introduction'')
     [[], js ''1. Introduction'', [], js ''Content here.''] 1 = Inr True"
proof -
  have "js ''1. Introduction'' = [49] @ 46 # js '' Introduction''"
    by simp
  then have "\<exists>ds c rest. js ''1. Introduction'' = ds @ c # rest \<and> ds \<noteq> [] \<and>
      (\<forall>d \<in> set ds. js_digit d) \<and> (c = 46 \<or> js_space c)"
    by (intro exI [of _ "[49]"] exI [of _ 46] exI [of _ "js '' Introduction''"])
      (simp add: js_digit_def)
  then show ?thesis
    using heading_detection_rule [of 1 "[[], js ''1. Introduction'', [], js ''Content here.'']"
        ascii_toUpperCase "js ''1. Introduction''"]
    by (simp add: trim_def js_space_def)
qed

subsection \<open>The level of a heading\<close>

lemma bit_length_0 [simp]: "bit_length 0 = 0"
  by (simp add: bit_length.simps)

lemma bit_length_1 [simp]: "bit_length (Suc 0) = Suc 0"
  by (subst bit_length.simps) simp

lemma bit_length_Bit0 [simp]: "bit_length (numeral (Num.Bit0 k)) = Suc (bit_length (numeral k))"
  by (subst bit_length.simps) simp

lemma bit_length_Bit1 [simp]: "bit_length (numeral (Num.Bit1 k)) = Suc (bit_length (numeral k))"
  by (subst bit_length.simps) simp

lemma double_times_tenth_20: "double_times_tenth 20 = 2 ^ 56"
  by (simp add: double_times_tenth_def Let_def)

lemma not_inFirstTenth_15_20: "\<not> inFirstTenth 15 20"
  by (simp add: inFirstTenth_def double_times_tenth_20)

text \<open>
  A short line between two blank lines, at index 15 of a text of twenty lines, without
  number or keyword: \<open>isPotentialTitle\<close> makes it a heading, and the code gives it level
  2 (the loop writes \<open>## Closing remarks\<close>), where the rule of the specification gives
  level 3.
\<close>

theorem short_late_heading_counterexample:
  "length late_heading_lines = 20 \<and>
   late_heading_lines ! 15 = js ''Closing remarks'' \<and>
   isPotentialTitle ascii_toUpperCase (late_heading_lines ! 15) late_heading_lines 15 = Inr True \<and>
   determineTitleLevel ascii_toLowerCase (late_heading_lines ! 15) late_heading_lines 15 = 2 \<and>
   spec_determineTitleLevel ascii_toLowerCase (late_heading_lines ! 15) late_heading_lines 15 = 3 \<and>
   processedLine ascii_toUpperCase ascii_toLowerCase late_heading_lines 15
     = Inr (js ''## Closing remarks'')"
proof -
  have n: "length late_heading_lines = 20"
    by (simp add: late_heading_lines_def)
  have l: "late_heading_lines ! 15 = js ''Closing remarks''"
    and p: "late_heading_lines ! 14 = []" and q: "late_heading_lines ! 16 = []"
    by (simp_all add: late_heading_lines_def nth_append)
  have t: "isPotentialTitle ascii_toUpperCase (js ''Closing remarks'') late_heading_lines 15 = Inr True"
    using p q
    by (simp add: isPotentialTitle_def prevLineEmpty_def nextLineEmpty_def n trim_def js_space_def)
  have d: "determineTitleLevel ascii_toLowerCase (js ''Closing remarks'') late_heading_lines 15 = 2"
    by (simp add: determineTitleLevel_def subNumberMatch_def startsWithNumber_def js_digit_def
        ascii_toLowerCase_def n not_inFirstTenth_15_20)
  have s: "spec_determineTitleLevel ascii_toLowerCase (js ''Closing remarks'') late_heading_lines 15 = 3"
    by (simp add: spec_determineTitleLevel_def subNumberMatch_def startsWithNumber_def js_digit_def
        ascii_toLowerCase_def n not_inFirstTenth_15_20)
  have "processedLine ascii_toUpperCase ascii_toLowerCase late_heading_lines 15
     = Inr (js ''## Closing remarks'')"
    unfolding processedLine_def l Let_def t d by (simp add: numeral_2_eq_2)
  with n l t d s show ?thesis
    by simp
qed

text \<open>
  Claim C8, amended. \<open>determineTitleLevel\<close> applies these rules in order:
  digits, a full stop and a digit at the start give level 2;
  digits followed by a full stop or white space give level 1 when the number is at most
  10 and level 2 otherwise;
  a line with U+7B2C and one of U+7AE0, U+8282 gives level 1 when it has U+7AE0 and level 2
  otherwise;
  a line whose lower-casing contains \<open>chapter\<close> gives level 1, one whose lower-casing
  contains \<open>section\<close> level 2;
  a line whose index is below \<open>lines.length * 0.1\<close> (in double precision) gives level 1;
  a line shorter than 30 code units gives level 2;
  every other line gives level 3.
\<close>

theorem heading_level_rule:
  "determineTitleLevel toLowerCase line lines index =
     (if \<exists>ds d rest. line = ds @ 46 # d # rest \<and> ds \<noteq> [] \<and> (\<forall>x \<in> set ds. js_digit x) \<and> js_digit d
        then 2
      else if \<exists>ds c rest. line = ds @ c # rest \<and> ds \<noteq> [] \<and> (\<forall>d \<in> set ds. js_digit d) \<and>
                (c = 46 \<or> js_space c)
        then (if parseInt (takeWhile js_digit line) \<le> 10 then 1 else 2)
      else if (\<exists>p q. line = p @ [31532] @ q) \<and>
              ((\<exists>p q. line = p @ [31456] @ q) \<or> (\<exists>p q. line = p @ [33410] @ q))
        then (if \<exists>p q. line = p @ [31456] @ q then 1 else 2)
      else if \<exists>p q. toLowerCase line = p @ js ''chapter'' @ q then 1
      else if \<exists>p q. toLowerCase line = p @ js ''section'' @ q then 2
      else if inFirstTenth index (length lines) then 1
      else if length line < 30 then 2
      else 3)"
  unfolding determineTitleLevel_def subNumberMatch_iff startsWithNumber_iff js_includes_iff
  by (rule refl)

theorem heading_level_rule_witness:
  "determineTitleLevel ascii_toLowerCase (js ''12 Appendix'') [js ''12 Appendix''] 0 = 2"
proof -
  have a: "\<not> (\<exists>ds d rest. js ''12 Appendix'' = ds @ 46 # d # rest \<and> ds \<noteq> [] \<and>
      (\<forall>x \<in> set ds. js_digit x) \<and> js_digit d)"
    using subNumberMatch_iff [of "js ''12 Appendix''"]
    by (simp add: subNumberMatch_def js_digit_def)
  have b: "\<exists>ds c rest. js ''12 Appendix'' = ds @ c # rest \<and> ds \<noteq> [] \<and>
      (\<forall>d \<in> set ds. js_digit d) \<and> (c = 46 \<or> js_space c)"
    using startsWithNumber_iff [of "js ''12 Appendix''"]
    by (simp add: startsWithNumber_def js_digit_def js_space_def)
  have c: "parseInt (takeWhile js_digit (js ''12 Appendix'')) = 12"
    by (simp add: parseInt_def js_digit_def)
  show ?thesis
    using heading_level_rule [of ascii_toLowerCase "js ''12 Appendix''" "[js ''12 Appendix'']" 0]
    unfolding if_not_P [OF a] if_P [OF b] c
    by simp
qed

section \<open>The Mermaid syntax check of AIService\<close>

lemma js_includes_single: "js_includes s [c] \<longleftrightarrow> c \<in> set s"
  by (induction s) auto

lemma isValidMindmapNode_iff:
  "isValidMindmapNode line \<longleftrightarrow> trim line \<noteq> [] \<and> (\<forall>char \<in> set invalidChars. char \<notin> set (trim line))"
  by (auto simp: isValidMindmapNode_def Let_def js_includes_single)

lemma trim_nonblank_idem: "trim (trim s) = trim s"
proof -
  define t where "t = dropWhile js_space s"
  define u where "u = dropWhile js_space (rev t)"
  have "rev t = takeWhile js_space (rev t) @ u"
    by (simp add: u_def)
  then have "rev (rev t) = rev (takeWhile js_space (rev t) @ u)"
    by simp
  then have t: "t = rev u @ rev (takeWhile js_space (rev t))"
    by simp
  have 1: "dropWhile js_space (rev u) = rev u"
  proof (cases "rev u")
    case Nil
    then show ?thesis by simp
  next
    case (Cons a as)
    with t have "t = a # as @ rev (takeWhile js_space (rev t))"
      by simp
    then have "t \<noteq> []" and "hd t = a"
      by (metis list.distinct(1), metis list.sel(1))
    then have "\<not> js_space a"
      using hd_dropWhile [of js_space s] by (simp add: t_def)
    then show ?thesis
      using Cons by simp
  qed
  have 2: "dropWhile js_space u = u"
    by (simp add: u_def)
  have "trim s = rev u"
    by (simp add: trim_def t_def u_def)
  moreover have "trim (rev u) = rev u"
    by (simp add: trim_def 1 2)
  ultimately show ?thesis
    by simp
qed

text \<open>
  A diagram that consists of a type declaration alone: the first non-blank line declares
  a type and no line follows it, so the rule of the specification holds, and the code
  rejects the diagram.
\<close>

theorem declaration_only_counterexample:
  "spec_validDiagram (js ''graph'') \<and> \<not> validateMermaidSyntax (js ''graph'')"
  by (simp add: spec_validDiagram_def validateMermaidSyntax_def nonBlankLines_def trim_def
      js_space_def validTypes_def startsWith_def)

text \<open>
  Claim C9, amended. \<open>validateMermaidSyntax\<close> accepts a diagram exactly when it has at
  least two non-blank lines, the first of them, trimmed, starts with one of the eight
  type names, and, when it starts with \<open>mindmap\<close>, no later non-blank line contains any of
  \<open>< > { } [ ] ( ) |\<close>. Indentation is not examined.
\<close>

theorem mermaid_validity_rule:
  "validateMermaidSyntax mermaidCode \<longleftrightarrow>
     (\<exists>l rest. nonBlankLines mermaidCode = l # rest \<and> rest \<noteq> [] \<and>
        (\<exists>type \<in> set validTypes. prefix type (trim l)) \<and>
        (prefix (js ''mindmap'') (trim l) \<longrightarrow>
           (\<forall>line \<in> set rest. \<forall>char \<in> set invalidChars. char \<notin> set (trim line))))"
proof (cases "nonBlankLines mermaidCode")
  case Nil
  then show ?thesis by (simp add: validateMermaidSyntax_def)
next
  case (Cons l rest)
  have nb: "trim line \<noteq> []" if "line \<in> set rest" for line
  proof -
    from that have "line \<in> set (nonBlankLines mermaidCode)" using Cons by simp
    then show ?thesis by (simp add: nonBlankLines_def)
  qed
  have node: "isValidMindmapNode (trim line) \<longleftrightarrow> (\<forall>char \<in> set invalidChars. char \<notin> set (trim line))"
    if "line \<in> set rest" for line
    using nb [OF that] by (simp add: isValidMindmapNode_iff trim_nonblank_idem)
  have "(\<exists>line \<in> set rest. trim line \<noteq> [] \<and> \<not> isValidMindmapNode (trim line)) \<longleftrightarrow>
        \<not> (\<forall>line \<in> set rest. \<forall>char \<in> set invalidChars. char \<notin> set (trim line))"
    using nb node by blast
  then show ?thesis
    unfolding validateMermaidSyntax_def Cons
    by (cases rest) (auto simp: startsWith_def Let_def)
qed

theorem mermaid_validity_rule_witness:
  "validateMermaidSyntax (js ''mindmap'' @ [10] @ js ''  Topic'') \<and>
   \<not> validateMermaidSyntax (js ''mindmap'' @ [10] @ js ''  Topic [a]'') \<and>
   \<not> validateMermaidSyntax (js ''root'' @ [10] @ js ''  Topic'')"
proof -
  have a: "nonBlankLines (js ''mindmap'' @ [10] @ js ''  Topic'') = [js ''mindmap'', js ''  Topic'']"
    by (simp add: nonBlankLines_def trim_def js_space_def)
  have b: "nonBlankLines (js ''mindmap'' @ [10] @ js ''  Topic [a]'') = [js ''mindmap'', js ''  Topic [a]'']"
    by (simp add: nonBlankLines_def trim_def js_space_def)
  have c: "nonBlankLines (js ''root'' @ [10] @ js ''  Topic'') = [js ''root'', js ''  Topic'']"
    by (simp add: nonBlankLines_def trim_def js_space_def)
  have "validateMermaidSyntax (js ''mindmap'' @ [10] @ js ''  Topic'')"
    using mermaid_validity_rule [of "js ''mindmap'' @ [10] @ js ''  Topic''"]
    unfolding a by (simp add: trim_def js_space_def validTypes_def invalidChars_def)
  moreover have "\<not> validateMermaidSyntax (js ''mindmap'' @ [10] @ js ''  Topic [a]'')"
    using mermaid_validity_rule [of "js ''mindmap'' @ [10] @ js ''  Topic [a]''"]
    unfolding b by (simp add: trim_def js_space_def validTypes_def invalidChars_def)
  moreover have "\<not> validateMermaidSyntax (js ''root'' @ [10] @ js ''  Topic'')"
    using mermaid_validity_rule [of "js ''root'' @ [10] @ js ''  Topic''"]
    unfolding c by (simp add: trim_def js_space_def validTypes_def)
  ultimately show ?thesis by blast
qed

section \<open>The status invariant of a document\<close>

lemma findByIdAndUpdate_lookup:
  "documents (findByIdAndUpdate db i upd) j =
     (if j = i then map_option upd (documents db i) else documents db j)"
  by (simp add: findByIdAndUpdate_def split: option.splits)

lemma extractToMarkdown_document:
  "documents (fst (snd (extractToMarkdown env db i buf mime))) i =
     (case fst (extractToMarkdown env db i buf mime) of
        Inr markdown \<Rightarrow>
          map_option (\<lambda>d. d\<lparr>markdownContent := markdown, processingStatus := completed\<rparr>)
            (documents db i)
      | Inl message \<Rightarrow>
          map_option (\<lambda>d. d\<lparr>processingStatus := failed, processingError := Some message\<rparr>)
            (documents db i))"
  by (simp add: extractToMarkdown_def Let_def findByIdAndUpdate_lookup split: sum.splits)

lemma processFileExtraction_document:
  assumes "documents db i = Some d"
  shows "documents (fst (processFileExtraction env db i buf mime)) i =
     Some (case fst (extractToMarkdown env
                      (findByIdAndUpdate db i (\<lambda>d. d\<lparr>processingStatus := processing\<rparr>)) i buf mime) of
             Inr markdown \<Rightarrow> d\<lparr>markdownContent := markdown, processingStatus := completed\<rparr>
           | Inl message \<Rightarrow> d\<lparr>processingStatus := failed, processingError := Some message\<rparr>)"
proof -
  let ?db1 = "findByIdAndUpdate db i (\<lambda>d. d\<lparr>processingStatus := processing\<rparr>)"
  obtain r db' ts where e: "extractToMarkdown env ?db1 i buf mime = (r, db', ts)"
    by (cases "extractToMarkdown env ?db1 i buf mime") auto
  have d1: "documents ?db1 i = Some (d\<lparr>processingStatus := processing\<rparr>)"
    using assms by (simp add: findByIdAndUpdate_lookup)
  have d': "documents db' i =
     (case r of
        Inr markdown \<Rightarrow> Some (d\<lparr>processingStatus := completed, markdownContent := markdown\<rparr>)
      | Inl message \<Rightarrow> Some (d\<lparr>processingStatus := failed, processingError := Some message\<rparr>))"
    using extractToMarkdown_document [of env ?db1 i buf mime] e d1
    by (simp split: sum.splits)
  show ?thesis
    using e d' by (cases r) (simp_all add: processFileExtraction_def findByIdAndUpdate_lookup)
qed

text \<open>
  Extraction of the scan completes with an empty markdown: the record is \<open>completed\<close>
  and its text is empty.
\<close>

theorem completed_with_empty_text_counterexample:
  "map_option processingStatus
     (documents (fst (processFileExtraction scan_externals one_pdf_database 0 [37, 80, 68, 70]
                        (js ''application/pdf''))) 0) = Some completed \<and>
   map_option markdownContent
     (documents (fst (processFileExtraction scan_externals one_pdf_database 0 [37, 80, 68, 70]
                        (js ''application/pdf''))) 0) = Some [] \<and>
   map_option status_invariant
     (documents (fst (processFileExtraction scan_externals one_pdf_database 0 [37, 80, 68, 70]
                        (js ''application/pdf''))) 0) = Some False"
proof -
  have d: "documents one_pdf_database 0 = Some uploaded_pdf"
    by (simp add: one_pdf_database_def)
  have "extractPdfToMarkdown scan_externals [37, 80, 68, 70] = Inr []"
    by (simp add: extractPdfToMarkdown_def scan_externals_def pdfLineToMarkdown_def trim_def)
  then have "fst (extractToMarkdown scan_externals
       (findByIdAndUpdate one_pdf_database 0 (\<lambda>d. d\<lparr>processingStatus := processing\<rparr>)) 0
       [37, 80, 68, 70] (js ''application/pdf'')) = Inr []"
    by (simp add: extractToMarkdown_def)
  then show ?thesis
    using processFileExtraction_document [OF d, of scan_externals "[37, 80, 68, 70]"
        "js ''application/pdf''"]
    by (simp add: status_invariant_def uploaded_pdf_def)
qed

text \<open>
  Claim C1, amended. For a record as upload creates it (no text, no error), after
  \<open>processFileExtraction\<close> the record is \<open>completed\<close> or \<open>failed\<close>; its
  \<open>processingError\<close> is non-null exactly when it is \<open>failed\<close>; a non-empty
  \<open>markdownContent\<close> implies \<open>completed\<close>; and the text of a completed record is what
  \<open>extractToMarkdown\<close> returned. And
  \<open>updateProcessingStatus(status, error)\<close> sets the status, leaves the text alone, and
  leaves \<open>processingError\<close> non-null exactly when \<open>error\<close> is a non-empty string,
  whatever the status.
\<close>

theorem status_after_extraction:
  assumes "documents db i = Some d" and "markdownContent d = []" and "processingError d = None"
  shows "(\<exists>d'. documents (fst (processFileExtraction env db i buf mime)) i = Some d' \<and>
            (processingStatus d' = completed \<or> processingStatus d' = failed) \<and>
            ((processingError d' \<noteq> None) = (processingStatus d' = failed)) \<and>
            (markdownContent d' \<noteq> [] \<longrightarrow> processingStatus d' = completed) \<and>
            (processingStatus d' = completed \<longrightarrow>
               fst (extractToMarkdown env
                      (findByIdAndUpdate db i (\<lambda>d. d\<lparr>processingStatus := processing\<rparr>)) i buf mime)
               = Inr (markdownContent d'))) \<and>
         processingStatus (updateProcessingStatus d0 st error) = st \<and>
         markdownContent (updateProcessingStatus d0 st error) = markdownContent d0 \<and>
         ((processingError (updateProcessingStatus d0 st error) \<noteq> None) =
            (\<exists>e. error = Some e \<and> e \<noteq> []))"
proof -
  have "processingStatus (updateProcessingStatus d0 st error) = st \<and>
         markdownContent (updateProcessingStatus d0 st error) = markdownContent d0 \<and>
         ((processingError (updateProcessingStatus d0 st error) \<noteq> None) =
            (\<exists>e. error = Some e \<and> e \<noteq> []))"
    by (cases error) (simp_all add: updateProcessingStatus_def)
  moreover have "\<exists>d'. documents (fst (processFileExtraction env db i buf mime)) i = Some d' \<and>
            (processingStatus d' = completed \<or> processingStatus d' = failed) \<and>
            ((processingError d' \<noteq> None) = (processingStatus d' = failed)) \<and>
            (markdownContent d' \<noteq> [] \<longrightarrow> processingStatus d' = completed) \<and>
            (processingStatus d' = completed \<longrightarrow>
               fst (extractToMarkdown env
                      (findByIdAndUpdate db i (\<lambda>d. d\<lparr>processingStatus := processing\<rparr>)) i buf mime)
               = Inr (markdownContent d'))"
    using processFileExtraction_document [OF assms(1), of env buf mime] assms(2,3)
    by (cases "fst (extractToMarkdown env
                      (findByIdAndUpdate db i (\<lambda>d. d\<lparr>processingStatus := processing\<rparr>)) i buf mime)")
      simp_all
  ultimately show ?thesis by blast
qed

theorem status_after_extraction_witness:
  "map_option (\<lambda>d. (processingStatus d, processingError d, markdownContent d))
     (documents (fst (processFileExtraction scan_externals one_pdf_database 0 [80, 75]
                        (js ''application/msword''))) 0)
   = Some (failed, Some msg_word_not_implemented, [])"
proof -
  have d: "documents one_pdf_database 0 = Some uploaded_pdf"
    by (simp add: one_pdf_database_def)
  have e: "fst (extractToMarkdown scan_externals
       (findByIdAndUpdate one_pdf_database 0 (\<lambda>d. d\<lparr>processingStatus := processing\<rparr>)) 0
       [80, 75] (js ''application/msword'')) = Inl msg_word_not_implemented"
    by (simp add: extractToMarkdown_def)
  have p: "documents (fst (processFileExtraction scan_externals one_pdf_database 0 [80, 75]
                        (js ''application/msword''))) 0
      = Some (uploaded_pdf\<lparr>processingStatus := failed,
                            processingError := Some msg_word_not_implemented\<rparr>)"
    using processFileExtraction_document [OF d, of scan_externals "[80, 75]"
        "js ''application/msword''"] e
    by simp
  show ?thesis
    using status_after_extraction [OF d, of scan_externals "[80, 75]" "js ''application/msword''"
        uploaded_pdf failed "Some (js ''x'')"] p
    by (simp add: uploaded_pdf_def)
qed

section \<open>One summary per document and type\<close>

lemma insert_summary_unique:
  assumes "unique_summaries (summaries db)" and "insert_summary db s = Inr db'"
  shows "unique_summaries (summaries db')"
proof -
  from assms(2) have new: "\<forall>r \<in> set (summaries db). \<not> (s_documentId r = s_documentId s \<and> s_type r = s_type s)"
    and db': "db' = db\<lparr>summaries := summaries db @ [s]\<rparr>"
    by (auto simp: insert_summary_def split: list.splits if_splits)
  from new have "(s_documentId s, s_type s) \<notin> set (map (\<lambda>s. (s_documentId s, s_type s)) (summaries db))"
    by auto
  with assms(1) show ?thesis
    by (simp add: unique_summaries_def db')
qed

lemma generateAndSaveSummary_unique:
  assumes "unique_summaries (summaries db)"
  shows "unique_summaries (summaries (snd (generateAndSaveSummary db generated documentId uid)))"
proof (cases generated)
  case (Inl message)
  with assms show ?thesis by (simp add: generateAndSaveSummary_def)
next
  case (Inr summaryContent)
  let ?s = "\<lparr>s_documentId = documentId, s_userId = uid, s_type = js ''ai_generated'',
             s_content = summaryContent\<rparr>"
  show ?thesis
  proof (cases "insert_summary db ?s")
    case (Inl e)
    with Inr assms show ?thesis by (simp add: generateAndSaveSummary_def)
  next
    case (Inr db')
    with insert_summary_unique [OF assms Inr] \<open>generated = Inr summaryContent\<close>
    show ?thesis by (simp add: generateAndSaveSummary_def)
  qed
qed

text \<open>
  Claim C3. At most one summary row per document and type: \<open>generateAndSaveSummary\<close>
  keeps the pairs of document and type distinct. But where the claim has the second
  generation update the row in place, the code inserts a new row each time: when a
  summary of the document exists and the model returns an admissible text, the unique
  index rejects the insert, the function throws, and the existing row keeps its content.
\<close>

theorem second_summary_is_rejected:
  assumes "unique_summaries (summaries db)"
    and "\<exists>r \<in> set (summaries db). s_documentId r = documentId \<and> s_type r = js ''ai_generated''"
    and "summaryContent \<noteq> []" and "length summaryContent \<le> 10000"
  shows "generateAndSaveSummary db (Inr summaryContent) documentId uid
           = (Inl (SummaryFailed DuplicateKeyError), db) \<and>
         unique_summaries (summaries (snd (generateAndSaveSummary db generated documentId uid)))"
proof -
  have "validate_summary \<lparr>s_documentId = documentId, s_userId = uid, s_type = js ''ai_generated'',
             s_content = summaryContent\<rparr> = []"
    using assms(3,4) by (simp add: validate_summary_def summary_type_enum_def)
  then have "generateAndSaveSummary db (Inr summaryContent) documentId uid
           = (Inl (SummaryFailed DuplicateKeyError), db)"
    using assms(2) by (simp add: generateAndSaveSummary_def insert_summary_def)
  then show ?thesis
    using generateAndSaveSummary_unique [OF assms(1)] by simp
qed

lemma first_summary_database_summaries:
  "summaries first_summary_database =
     [\<lparr>s_documentId = 0, s_userId = 7, s_type = js ''ai_generated'', s_content = js ''first''\<rparr>]"
  by (simp add: first_summary_database_def generateAndSaveSummary_def insert_summary_def
      validate_summary_def summary_type_enum_def one_pdf_database_def Let_def)

theorem second_summary_is_rejected_witness:
  "generateAndSaveSummary first_summary_database (Inr (js ''second'')) 0 7
     = (Inl (SummaryFailed DuplicateKeyError), first_summary_database) \<and>
   map s_content (summaries first_summary_database) = [js ''first'']"
  using second_summary_is_rejected [where db = first_summary_database and documentId = 0
      and summaryContent = "js ''second''" and generated = "Inr (js ''second'')" and uid = 7]
  by (simp add: first_summary_database_summaries unique_summaries_def)

section \<open>Isolation of the annotation artifacts\<close>

lemma generateAndSaveSummary_frame:
  "snd (generateAndSaveSummary db generated documentId uid) =
     db\<lparr>summaries := summaries (snd (generateAndSaveSummary db generated documentId uid))\<rparr>"
  by (auto simp: generateAndSaveSummary_def insert_summary_def Let_def
      split: sum.splits list.splits)

lemma generateAndSaveSummary_summaries:
  "summaries db1 = summaries db \<Longrightarrow>
   summaries (snd (generateAndSaveSummary db1 generated documentId uid)) =
   summaries (snd (generateAndSaveSummary db generated documentId uid))"
  by (auto simp: generateAndSaveSummary_def insert_summary_def Let_def
      split: sum.splits list.splits)

lemma extractAndSaveConcepts_frame:
  "snd (extractAndSaveConcepts db extracted documentId uid) =
     db\<lparr>concepts := concepts (snd (extractAndSaveConcepts db extracted documentId uid))\<rparr>"
  by (auto simp: extractAndSaveConcepts_def split: sum.splits prod.splits)

lemma extractAndSaveConcepts_concepts:
  "concepts db2 = concepts db \<Longrightarrow>
   concepts (snd (extractAndSaveConcepts db2 extracted documentId uid)) =
   concepts (snd (extractAndSaveConcepts db extracted documentId uid))"
  by (auto simp: extractAndSaveConcepts_def split: sum.splits prod.splits)

lemma generateAndSaveSummary_result:
  "summaries db1 = summaries db \<Longrightarrow>
   fst (generateAndSaveSummary db1 generated documentId uid) =
   fst (generateAndSaveSummary db generated documentId uid)"
  by (auto simp: generateAndSaveSummary_def insert_summary_def Let_def
      split: sum.splits list.splits)

lemma extractAndSaveConcepts_result:
  "concepts db2 = concepts db \<Longrightarrow>
   fst (extractAndSaveConcepts db2 extracted documentId uid) =
   fst (extractAndSaveConcepts db extracted documentId uid)"
  by (auto simp: extractAndSaveConcepts_def split: sum.splits prod.splits)

lemma generateAndSaveSummary_documents:
  "documents (snd (generateAndSaveSummary db generated documentId uid)) = documents db"
  by (auto simp: generateAndSaveSummary_def insert_summary_def Let_def
      split: sum.splits list.splits)

lemma extractAndSaveConcepts_documents:
  "documents (snd (extractAndSaveConcepts db extracted documentId uid)) = documents db"
  by (auto simp: extractAndSaveConcepts_def split: sum.splits prod.splits)

lemma processAIFeatures_documents:
  "documents (fst (snd (processAIFeatures ai db i content))) j =
     (if j = i \<and> (\<exists>restructured. restructureDocument ai content = Inr restructured)
      then map_option (\<lambda>d. d\<lparr>restructuredContent :=
                                   (case restructureDocument ai content of
                                      Inr restructured \<Rightarrow> Some restructured
                                    | Inl _ \<Rightarrow> None)\<rparr>) (documents db i)
      else documents db j)"
  by (auto simp: processAIFeatures_def Let_def extractAndSaveConcepts_documents
      generateAndSaveSummary_documents findByIdAndUpdate_lookup
      split: option.splits sum.splits)

text \<open>
  The restructuring call times out: annotation stops there, and the summary, which would
  have been generated and saved, is never attempted.
\<close>

theorem restructure_failure_blocks_summary_counterexample:
  "processAIFeatures restructure_down one_pdf_database 0 (js ''Text.'')
     = (Inl (AIServiceError (js ''timeout'')), one_pdf_database,
        [(label_ai_features_failed, AIServiceError (js ''timeout''))]) \<and>
   summaries (snd (generateAndSaveSummary one_pdf_database
                     (generateSummary restructure_down (js ''Text.'')) 0 7))
     = [\<lparr>s_documentId = 0, s_userId = 7, s_type = js ''ai_generated'',
         s_content = js ''A summary.''\<rparr>]"
  by (simp add: processAIFeatures_def restructure_down_def one_pdf_database_def
      generateAndSaveSummary_def insert_summary_def validate_summary_def summary_type_enum_def
      Let_def)

text \<open>
  Claim C4, amended. Annotation of a document first reads the document and awaits the
  restructuring. When the document is missing or the restructuring fails, annotation
  ends with that error, prints it, writes nothing, and attempts neither summary nor
  concepts. When the restructuring succeeds, the restructured text is written to the
  document, and the summary and the concepts are then produced side by side, each
  isolated from the other: annotation succeeds whatever the two do, the summaries
  collection is what \<open>generateAndSaveSummary\<close> alone makes of it, the concepts collection
  is what \<open>extractAndSaveConcepts\<close> alone makes of it, the order of the two does not
  matter, and exactly the failures of the two are printed, each with its own label. None
  of this reaches the caller of the upload: the call that runs annotation throws
  nothing, prints the error annotation ended with, starts no further task, and leaves
  the status, the error and the text of every document as they were.
\<close>

theorem annotation_isolation:
  "(documents db i = None \<longrightarrow>
      processAIFeatures ai db i content
        = (Inl DocumentNotFound, db, [(label_ai_features_failed, DocumentNotFound)])) \<and>
   (documents db i = Some doc \<and> restructureDocument ai content = Inl message \<longrightarrow>
      processAIFeatures ai db i content
        = (Inl (AIServiceError message), db,
           [(label_ai_features_failed, AIServiceError message)])) \<and>
   (documents db i = Some doc \<and> restructureDocument ai content = Inr restructured \<longrightarrow>
      fst (processAIFeatures ai db i content) = Inr () \<and>
      documents (fst (snd (processAIFeatures ai db i content)))
        = (documents db)(i \<mapsto> doc\<lparr>restructuredContent := Some restructured\<rparr>) \<and>
      summaries (fst (snd (processAIFeatures ai db i content)))
        = summaries (snd (generateAndSaveSummary db (generateSummary ai content) i (userId doc))) \<and>
      concepts (fst (snd (processAIFeatures ai db i content)))
        = concepts (snd (extractAndSaveConcepts db (extractConcepts ai content) i (userId doc))) \<and>
      fst (snd (processAIFeatures ai db i content))
        = snd (generateAndSaveSummary
                 (snd (extractAndSaveConcepts
                         (findByIdAndUpdate db i (\<lambda>d. d\<lparr>restructuredContent := Some restructured\<rparr>))
                         (extractConcepts ai content) i (userId doc)))
                 (generateSummary ai content) i (userId doc)) \<and>
      snd (snd (processAIFeatures ai db i content))
        = (case fst (generateAndSaveSummary db (generateSummary ai content) i (userId doc)) of
             Inl reason \<Rightarrow> [(label_summary_failed, reason)]
           | Inr _ \<Rightarrow> []) @
          (case fst (extractAndSaveConcepts db (extractConcepts ai content) i (userId doc)) of
             Inl reason \<Rightarrow> [(label_concepts_failed, reason)]
           | Inr _ \<Rightarrow> [])) \<and>
   fst (runAIFeatures ai db i content) = fst (snd (processAIFeatures ai db i content)) \<and>
   snd (runAIFeatures ai db i content)
     = snd (snd (processAIFeatures ai db i content)) @
       (case fst (processAIFeatures ai db i content) of
          Inl error \<Rightarrow> [(label_ai_failed, error)]
        | Inr _ \<Rightarrow> []) \<and>
   run_task env ai db (ProcessAIFeatures i content) = (fst (runAIFeatures ai db i content), []) \<and>
   (\<forall>j. map_option processingStatus (documents (fst (runAIFeatures ai db i content)) j)
          = map_option processingStatus (documents db j) \<and>
        map_option processingError (documents (fst (runAIFeatures ai db i content)) j)
          = map_option processingError (documents db j) \<and>
        map_option markdownContent (documents (fst (runAIFeatures ai db i content)) j)
          = map_option markdownContent (documents db j))"
proof -
  let ?g = "generateSummary ai content" and ?x = "extractConcepts ai content" and ?u = "userId doc"
  have missing: "processAIFeatures ai db i content
        = (Inl DocumentNotFound, db, [(label_ai_features_failed, DocumentNotFound)])"
    if "documents db i = None"
    using that by (simp add: processAIFeatures_def)
  have fail: "processAIFeatures ai db i content
        = (Inl (AIServiceError message), db, [(label_ai_features_failed, AIServiceError message)])"
    if "documents db i = Some doc" and "restructureDocument ai content = Inl message"
    using that by (simp add: processAIFeatures_def)
  have ok: "fst (processAIFeatures ai db i content) = Inr () \<and>
      documents (fst (snd (processAIFeatures ai db i content)))
        = (documents db)(i \<mapsto> doc\<lparr>restructuredContent := Some restructured\<rparr>) \<and>
      summaries (fst (snd (processAIFeatures ai db i content)))
        = summaries (snd (generateAndSaveSummary db ?g i ?u)) \<and>
      concepts (fst (snd (processAIFeatures ai db i content)))
        = concepts (snd (extractAndSaveConcepts db ?x i ?u)) \<and>
      fst (snd (processAIFeatures ai db i content))
        = snd (generateAndSaveSummary
                 (snd (extractAndSaveConcepts
                         (findByIdAndUpdate db i (\<lambda>d. d\<lparr>restructuredContent := Some restructured\<rparr>))
                         ?x i ?u))
                 ?g i ?u) \<and>
      snd (snd (processAIFeatures ai db i content))
        = (case fst (generateAndSaveSummary db ?g i ?u) of
             Inl reason \<Rightarrow> [(label_summary_failed, reason)]
           | Inr _ \<Rightarrow> []) @
          (case fst (extractAndSaveConcepts db ?x i ?u) of
             Inl reason \<Rightarrow> [(label_concepts_failed, reason)]
           | Inr _ \<Rightarrow> [])"
    if doc: "documents db i = Some doc" and r: "restructureDocument ai content = Inr restructured"
  proof -
    define S where "S = summaries (snd (generateAndSaveSummary db ?g i ?u))"
    define C where "C = concepts (snd (extractAndSaveConcepts db ?x i ?u))"
    define d1 where "d1 = findByIdAndUpdate db i (\<lambda>d. d\<lparr>restructuredContent := Some restructured\<rparr>)"
    define d2 where "d2 = snd (generateAndSaveSummary d1 ?g i ?u)"
    define d3 where "d3 = snd (extractAndSaveConcepts d2 ?x i ?u)"
    define dc where "dc = snd (extractAndSaveConcepts d1 ?x i ?u)"
    define dcs where "dcs = snd (generateAndSaveSummary dc ?g i ?u)"
    have db1: "d1 = db\<lparr>documents := (documents db)(i \<mapsto> doc\<lparr>restructuredContent := Some restructured\<rparr>)\<rparr>"
      using doc by (simp add: d1_def findByIdAndUpdate_def)
    have s1: "summaries d1 = summaries db" and c1: "concepts d1 = concepts db"
      by (simp_all add: db1)
    have "summaries d2 = S"
      unfolding S_def d2_def by (rule generateAndSaveSummary_summaries) (rule s1)
    then have db2: "d2 = d1\<lparr>summaries := S\<rparr>"
      using generateAndSaveSummary_frame [of d1 ?g i ?u] by (simp add: d2_def)
    have c2: "concepts d2 = concepts db"
      by (simp add: db2 db1)
    have "concepts d3 = C"
      unfolding C_def d3_def by (rule extractAndSaveConcepts_concepts) (rule c2)
    then have db3: "d3 = d2\<lparr>concepts := C\<rparr>"
      using extractAndSaveConcepts_frame [of d2 ?x i ?u] by (simp add: d3_def)
    have "concepts dc = C"
      unfolding C_def dc_def by (rule extractAndSaveConcepts_concepts) (rule c1)
    then have dc: "dc = d1\<lparr>concepts := C\<rparr>"
      using extractAndSaveConcepts_frame [of d1 ?x i ?u] by (simp add: dc_def)
    have "summaries dcs = S"
      unfolding S_def dcs_def by (rule generateAndSaveSummary_summaries) (simp add: dc db1)
    then have dcs: "dcs = dc\<lparr>summaries := S\<rparr>"
      using generateAndSaveSummary_frame [of dc ?g i ?u] by (simp add: dcs_def)
    have comm: "d3 = dcs"
      by (simp add: db3 db2 dcs dc)
    have s: "summaries d3 = S" and c: "concepts d3 = C"
      and d: "documents d3 = (documents db)(i \<mapsto> doc\<lparr>restructuredContent := Some restructured\<rparr>)"
      by (simp_all add: db3 db2 db1)
    have rs: "fst (generateAndSaveSummary d1 ?g i ?u) = fst (generateAndSaveSummary db ?g i ?u)"
      by (rule generateAndSaveSummary_result) (rule s1)
    have rc: "fst (extractAndSaveConcepts d2 ?x i ?u) = fst (extractAndSaveConcepts db ?x i ?u)"
      by (rule extractAndSaveConcepts_result) (rule c2)
    have run: "processAIFeatures ai db i content
        = (Inr (), d3,
           (case fst (generateAndSaveSummary d1 ?g i ?u) of
              Inl reason \<Rightarrow> [(label_summary_failed, reason)]
            | Inr _ \<Rightarrow> []) @
           (case fst (extractAndSaveConcepts d2 ?x i ?u) of
              Inl reason \<Rightarrow> [(label_concepts_failed, reason)]
            | Inr _ \<Rightarrow> []))"
      using doc r by (simp add: processAIFeatures_def Let_def d3_def d2_def d1_def)
    show ?thesis
      unfolding run rs rc fst_conv snd_conv
      using s c d comm
      unfolding S_def C_def dcs_def dc_def d1_def by simp
  qed
  have task: "fst (runAIFeatures ai db i content) = fst (snd (processAIFeatures ai db i content))"
    and printed: "snd (runAIFeatures ai db i content)
       = snd (snd (processAIFeatures ai db i content)) @
         (case fst (processAIFeatures ai db i content) of
            Inl error \<Rightarrow> [(label_ai_failed, error)]
          | Inr _ \<Rightarrow> [])"
    by (simp_all add: runAIFeatures_def split: prod.splits sum.splits)
  have run: "run_task env ai db (ProcessAIFeatures i content)
      = (fst (runAIFeatures ai db i content), [])"
    by (simp add: run_task_def)
  have frame: "map_option processingStatus (documents (fst (runAIFeatures ai db i content)) j)
          = map_option processingStatus (documents db j) \<and>
        map_option processingError (documents (fst (runAIFeatures ai db i content)) j)
          = map_option processingError (documents db j) \<and>
        map_option markdownContent (documents (fst (runAIFeatures ai db i content)) j)
          = map_option markdownContent (documents db j)" for j
    unfolding task processAIFeatures_documents
    by (cases "documents db i") simp_all
  from missing fail ok task printed run frame show ?thesis
    by blast
qed

theorem annotation_isolation_witness:
  "processAIFeatures summary_down one_pdf_database 5 (js ''Text.'')
     = (Inl DocumentNotFound, one_pdf_database,
        [(label_ai_features_failed, DocumentNotFound)]) \<and>
   processAIFeatures restructure_down one_pdf_database 0 (js ''Text.'')
     = (Inl (AIServiceError (js ''timeout'')), one_pdf_database,
        [(label_ai_features_failed, AIServiceError (js ''timeout''))]) \<and>
   fst (processAIFeatures summary_down one_pdf_database 0 (js ''Text.'')) = Inr () \<and>
   summaries (fst (snd (processAIFeatures summary_down one_pdf_database 0 (js ''Text.'')))) = [] \<and>
   map c_term (concepts (fst (snd (processAIFeatures summary_down one_pdf_database 0
                                     (js ''Text.''))))) = [js ''Heap''] \<and>
   snd (snd (processAIFeatures summary_down one_pdf_database 0 (js ''Text.'')))
     = [(label_summary_failed, SummaryFailed (AIServiceError (js ''rate limit'')))] \<and>
   snd (runAIFeatures restructure_down one_pdf_database 0 (js ''Text.''))
     = [(label_ai_features_failed, AIServiceError (js ''timeout'')),
        (label_ai_failed, AIServiceError (js ''timeout''))] \<and>
   map_option processingStatus
     (documents (fst (runAIFeatures summary_down one_pdf_database 0 (js ''Text.''))) 0)
     = Some pending"
proof -
  have d: "documents one_pdf_database 0 = Some uploaded_pdf"
    and n: "documents one_pdf_database 5 = None"
    by (simp_all add: one_pdf_database_def)
  have r: "restructureDocument summary_down (js ''Text.'') = Inr (js ''Tidy text.'')"
    by (simp add: summary_down_def)
  have r': "restructureDocument restructure_down (js ''Text.'') = Inl (js ''timeout'')"
    by (simp add: restructure_down_def)
  have s: "generateAndSaveSummary one_pdf_database
      (generateSummary summary_down (js ''Text.'')) 0 (userId uploaded_pdf)
        = (Inl (SummaryFailed (AIServiceError (js ''rate limit''))), one_pdf_database)"
    by (simp add: generateAndSaveSummary_def summary_down_def)
  obtain saved db' where c: "extractAndSaveConcepts one_pdf_database
      (extractConcepts summary_down (js ''Text.'')) 0 (userId uploaded_pdf) = (Inr saved, db')"
    and t: "map c_term (concepts db') = [js ''Heap'']"
    unfolding extractAndSaveConcepts_def summary_down_def
    by (simp add: one_pdf_database_def trim_def js_space_def insert_concept_def
        validate_concept_def category_enum_def Let_def)
  note gone = annotation_isolation [where ai = summary_down and content = "js ''Text.''",
      THEN conjunct1, THEN mp, OF n]
  note stop = annotation_isolation [where ai = restructure_down and content = "js ''Text.''",
      THEN conjunct2, THEN conjunct1, THEN mp, OF conjI [OF d r']]
  note ok = annotation_isolation [where ai = summary_down and content = "js ''Text.''",
      THEN conjunct2, THEN conjunct2, THEN conjunct1, THEN mp, OF conjI [OF d r]]
  note caught = annotation_isolation [where db = one_pdf_database and i = 0
      and content = "js ''Text.''" and ai = restructure_down,
      THEN conjunct2, THEN conjunct2, THEN conjunct2, THEN conjunct2, THEN conjunct1]
  note kept = annotation_isolation [where db = one_pdf_database and i = 0
      and content = "js ''Text.''" and ai = summary_down,
      THEN conjunct2, THEN conjunct2, THEN conjunct2, THEN conjunct2, THEN conjunct2,
      THEN conjunct2, THEN spec, where x = 0, THEN conjunct1]
  have a: "fst (processAIFeatures summary_down one_pdf_database 0 (js ''Text.'')) = Inr ()"
    using ok by (rule conjunct1)
  have b: "summaries (fst (snd (processAIFeatures summary_down one_pdf_database 0 (js ''Text.'')))) = []"
    using ok [THEN conjunct2, THEN conjunct2, THEN conjunct1] s
    by (simp add: one_pdf_database_def)
  have e: "map c_term (concepts (fst (snd (processAIFeatures summary_down one_pdf_database 0
      (js ''Text.''))))) = [js ''Heap'']"
    using ok [THEN conjunct2, THEN conjunct2, THEN conjunct2, THEN conjunct1] c t by simp
  have f: "snd (snd (processAIFeatures summary_down one_pdf_database 0 (js ''Text.'')))
     = [(label_summary_failed, SummaryFailed (AIServiceError (js ''rate limit'')))]"
    using ok [THEN conjunct2, THEN conjunct2, THEN conjunct2, THEN conjunct2, THEN conjunct2]
    unfolding s c by simp
  have g: "snd (runAIFeatures restructure_down one_pdf_database 0 (js ''Text.''))
     = [(label_ai_features_failed, AIServiceError (js ''timeout'')),
        (label_ai_failed, AIServiceError (js ''timeout''))]"
    using caught unfolding stop by simp
  have h: "map_option processingStatus
     (documents (fst (runAIFeatures summary_down one_pdf_database 0 (js ''Text.''))) 0)
     = Some pending"
    using kept by (simp add: one_pdf_database_def uploaded_pdf_def)
  from gone stop a b e f g h show ?thesis
    by blast
qed

section \<open>One concept per document and term\<close>

lemma findIndex_SomeD: "findIndex P xs = Some i \<Longrightarrow> i < length xs \<and> P (xs ! i)"
proof (induction xs arbitrary: i)
  case Nil
  then show ?case by simp
next
  case (Cons x xs)
  show ?case
  proof (cases "P x")
    case True
    with Cons.prems show ?thesis by simp
  next
    case False
    with Cons.prems obtain j where j: "findIndex P xs = Some j" and i: "i = Suc j"
      by auto
    from Cons.IH [OF j] i show ?thesis by simp
  qed
qed

lemma findIndex_NoneD: "findIndex P xs = None \<Longrightarrow> \<forall>x \<in> set xs. \<not> P x"
  by (induction xs) (auto split: if_splits)

lemma addOccurrence_fields:
  "c_documentId (addOccurrence c od) = c_documentId c"
  "c_term (addOccurrence c od) = c_term c"
  "c_definition (addOccurrence c od) = c_definition c"
  "c_category (addOccurrence c od) = c_category c"
  "c_importance (addOccurrence c od) = c_importance c"
  by (simp_all add: addOccurrence_def Let_def split: option.splits)

lemma foldl_addOccurrence_fields:
  "c_documentId (foldl addOccurrence c ods) = c_documentId c"
  "c_term (foldl addOccurrence c ods) = c_term c"
  "c_definition (foldl addOccurrence c ods) = c_definition c"
  "c_category (foldl addOccurrence c ods) = c_category c"
  "c_importance (foldl addOccurrence c ods) = c_importance c"
  by (induction ods arbitrary: c) (simp_all add: addOccurrence_fields)

lemma update_same_key:
  assumes "i < length cs" and "concept_key c' = concept_key (cs ! i)"
  shows "map concept_key (cs[i := c']) = map concept_key cs"
proof -
  have "map concept_key (cs[i := c']) = (map concept_key cs)[i := concept_key (cs ! i)]"
    using assms(2) by (simp add: map_update)
  also have "\<dots> = map concept_key cs"
    using assms(1) by (metis list_update_id nth_map)
  finally show ?thesis .
qed

lemma addOccurrences_result:
  assumes "i < length cs" and "concept_key c = concept_key (cs ! i)"
    and "addOccurrences cs i c ods = (r, cs')"
  shows "map concept_key cs' = map concept_key cs \<and>
         (\<forall>c'. r = Inr c' \<longrightarrow> c' = foldl addOccurrence c ods \<and> cs'[i := c'] = cs[i := c'])"
  using assms
proof (induction ods arbitrary: cs c)
  case Nil
  then show ?case by auto
next
  case (Cons od ods)
  let ?c' = "addOccurrence c od"
  show ?case
  proof (cases "validate_concept ?c'")
    case Nil
    have k: "concept_key ?c' = concept_key (cs ! i)"
      using Cons.prems(2) by (simp add: concept_key_def addOccurrence_fields)
    have len: "i < length (cs[i := ?c'])"
      using Cons.prems(1) by simp
    have k': "concept_key ?c' = concept_key (cs[i := ?c'] ! i)"
      using Cons.prems(1) by simp
    have run: "addOccurrences (cs[i := ?c']) i ?c' ods = (r, cs')"
      using Cons.prems(3) Nil by (simp add: Let_def)
    from Cons.IH [OF len k' run]
    have ih: "map concept_key cs' = map concept_key (cs[i := ?c'])"
      "\<forall>c'. r = Inr c' \<longrightarrow> c' = foldl addOccurrence ?c' ods \<and> cs'[i := c'] = cs[i := ?c', i := c']"
      by simp_all
    from ih(1) update_same_key [OF Cons.prems(1) k]
    have "map concept_key cs' = map concept_key cs" by simp
    with ih(2) show ?thesis by simp
  next
    case (Cons p ps)
    with Cons.prems(3) show ?thesis by (auto simp: Let_def)
  qed
qed

lemma insert_concept_result:
  assumes "insert_concept cs c = Inr cs'"
  shows "cs' = cs @ [c] \<and> concept_key c \<notin> set (map concept_key cs)"
  using assms
  by (auto simp: insert_concept_def concept_key_def split: list.splits if_splits)

text \<open>One step of the loop: the rows keep their keys, or one row with a new key is added.\<close>

lemma saveConcepts_keys:
  assumes "saveConcepts cs d u saved cds = (r, cs')"
  shows "\<exists>new. map concept_key cs' = map concept_key cs @ new \<and>
           (unique_concepts cs \<longrightarrow> unique_concepts cs') \<and>
           (\<forall>out. r = Inr out \<longrightarrow> (\<forall>cd \<in> set cds. (d, trim (cd_term cd)) \<in> set (map concept_key cs')))"
  using assms
proof (induction cds arbitrary: cs saved)
  case Nil
  then show ?case by auto
next
  case (Cons cd cds)
  let ?P = "\<lambda>c. c_documentId c = d \<and> c_term c = trim (cd_term cd)"
  let ?ods = "case cd_occurrences cd of Some ods \<Rightarrow> ods | None \<Rightarrow> []"
  show ?case
  proof (cases "findIndex ?P cs")
    case (Some i)
    from findIndex_SomeD [OF Some] have i: "i < length cs" and pi: "?P (cs ! i)"
      by simp_all
    let ?c = "(cs ! i)\<lparr>c_definition := cd_definition cd, c_category := cd_category cd,
                         c_importance := cd_importance cd\<rparr>"
    have kc: "concept_key ?c = concept_key (cs ! i)"
      by (simp add: concept_key_def)
    obtain r1 cs1 where a: "addOccurrences cs i ?c ?ods = (r1, cs1)"
      by (cases "addOccurrences cs i ?c ?ods") auto
    from addOccurrences_result [OF i kc a]
    have k1: "map concept_key cs1 = map concept_key cs"
      and r1: "\<forall>c'. r1 = Inr c' \<longrightarrow> c' = foldl addOccurrence ?c ?ods \<and> cs1[i := c'] = cs[i := c']"
      by simp_all
    show ?thesis
    proof (cases r1)
      case (Inl e)
      with Cons.prems Some a have "r = Inl e" "cs' = cs1" by simp_all
      with k1 show ?thesis by (simp add: unique_concepts_def)
    next
      case (Inr c')
      with r1 have c': "c' = foldl addOccurrence ?c ?ods" and u: "cs1[i := c'] = cs[i := c']"
        by blast+
      have kc': "concept_key c' = concept_key (cs ! i)"
        using kc by (simp add: c' concept_key_def foldl_addOccurrence_fields)
      have k2: "map concept_key (cs[i := c']) = map concept_key cs"
        by (rule update_same_key [OF i kc'])
      show ?thesis
      proof (cases "validate_concept c'")
        case Nil
        with Cons.prems Some a Inr
        have run: "saveConcepts (cs[i := c']) d u (saved @ [c']) cds = (r, cs')"
          by (simp add: u)
        from Cons.IH [OF run] obtain new where
          n: "map concept_key cs' = map concept_key (cs[i := c']) @ new"
          and un: "unique_concepts (cs[i := c']) \<longrightarrow> unique_concepts cs'"
          and mem: "\<forall>out. r = Inr out \<longrightarrow> (\<forall>cd \<in> set cds. (d, trim (cd_term cd)) \<in> set (map concept_key cs'))"
          by blast
        have here: "(d, trim (cd_term cd)) \<in> set (map concept_key cs')"
        proof -
          have "concept_key (cs ! i) = (d, trim (cd_term cd))"
            using pi by (simp add: concept_key_def)
          then have "(d, trim (cd_term cd)) \<in> set (map concept_key cs)"
            using i by (metis nth_mem nth_map length_map)
          then show ?thesis by (simp add: n k2)
        qed
        show ?thesis
          using n un mem here by (auto simp: k2 unique_concepts_def)
      next
        case (Cons p ps)
        with Cons.prems Some a Inr have "r = Inl (ValidationError (p # ps))" "cs' = cs1"
          by simp_all
        with k1 show ?thesis by (simp add: unique_concepts_def)
      qed
    qed
  next
    case None
    let ?c = "\<lparr>c_term = trim (cd_term cd), c_definition = cd_definition cd,
                c_documentId = d, c_userId = u,
                c_occurrences =
                  map (\<lambda>od. \<lparr>o_position = od_position od, o_context = od_context od,
                              o_confidence = (case od_confidence od of Some x \<Rightarrow> x | None \<Rightarrow> 1)\<rparr>)
                    ?ods,
                c_category = cd_category cd, c_importance = cd_importance cd\<rparr>"
    show ?thesis
    proof (cases "insert_concept cs ?c")
      case (Inl e)
      with Cons.prems None have "r = Inl e" "cs' = cs" by (simp_all add: Let_def)
      then show ?thesis by simp
    next
      case (Inr cs1)
      from insert_concept_result [OF Inr]
      have cs1: "cs1 = cs @ [?c]" and fresh: "concept_key ?c \<notin> set (map concept_key cs)"
        by simp_all
      from Cons.prems None Inr
      have run: "saveConcepts cs1 d u (saved @ [?c]) cds = (r, cs')"
        by (simp add: Let_def)
      from Cons.IH [OF run] obtain new where
        n: "map concept_key cs' = map concept_key cs1 @ new"
        and un: "unique_concepts cs1 \<longrightarrow> unique_concepts cs'"
        and mem: "\<forall>out. r = Inr out \<longrightarrow> (\<forall>cd \<in> set cds. (d, trim (cd_term cd)) \<in> set (map concept_key cs'))"
        by blast
      have u1: "unique_concepts cs \<longrightarrow> unique_concepts cs1"
        using fresh by (simp add: unique_concepts_def cs1)
      have here: "(d, trim (cd_term cd)) \<in> set (map concept_key cs')"
        by (simp add: n cs1 concept_key_def)
      have m: "map concept_key cs' = map concept_key cs @ (concept_key ?c # new)"
        by (simp add: n cs1)
      have un': "unique_concepts cs \<longrightarrow> unique_concepts cs'"
        using un u1 by simp
      have mem': "\<forall>out. r = Inr out \<longrightarrow>
          (\<forall>x \<in> set (cd # cds). (d, trim (cd_term x)) \<in> set (map concept_key cs'))"
        using mem here by simp
      show ?thesis
        using m un' mem' by (intro exI [of _ "concept_key ?c # new"] conjI)
    qed
  qed
qed

lemma one_row_per_key:
  assumes "unique_concepts cs" and "(d, t) \<in> set (map concept_key cs)"
  shows "length (filter (\<lambda>c. c_documentId c = d \<and> c_term c = t) cs) = 1"
  using assms
proof (induction cs)
  case Nil
  then show ?case by simp
next
  case (Cons c cs)
  show ?case
  proof (cases "concept_key c = (d, t)")
    case True
    with Cons.prems(1) have "(d, t) \<notin> set (map concept_key cs)"
      by (simp add: unique_concepts_def)
    then have "filter (\<lambda>c. c_documentId c = d \<and> c_term c = t) cs = []"
      by (auto simp: filter_empty_conv concept_key_def)
    with True show ?thesis
      by (simp add: concept_key_def)
  next
    case False
    with Cons.prems have "unique_concepts cs" and "(d, t) \<in> set (map concept_key cs)"
      by (auto simp: unique_concepts_def)
    from Cons.IH [OF this] False show ?thesis
      by (auto simp: concept_key_def)
  qed
qed

lemma saveConcepts_existing:
  assumes "findIndex (\<lambda>c. c_documentId c = d \<and> c_term c = trim (cd_term cd)) cs = Some i"
    and "saveConcepts cs d u saved [cd] = (Inr out, cs')"
  shows "cs' = cs[i := foldl addOccurrence
                   ((cs ! i)\<lparr>c_definition := cd_definition cd, c_category := cd_category cd,
                             c_importance := cd_importance cd\<rparr>)
                   (case cd_occurrences cd of Some ods \<Rightarrow> ods | None \<Rightarrow> [])] \<and>
         out = saved @ [cs' ! i] \<and> i < length cs"
proof -
  let ?c = "(cs ! i)\<lparr>c_definition := cd_definition cd, c_category := cd_category cd,
                       c_importance := cd_importance cd\<rparr>"
  let ?ods = "case cd_occurrences cd of Some ods \<Rightarrow> ods | None \<Rightarrow> []"
  from findIndex_SomeD [OF assms(1)] have i: "i < length cs"
    by simp
  have kc: "concept_key ?c = concept_key (cs ! i)"
    by (simp add: concept_key_def)
  obtain r1 cs1 where a: "addOccurrences cs i ?c ?ods = (r1, cs1)"
    by (cases "addOccurrences cs i ?c ?ods") auto
  from addOccurrences_result [OF i kc a]
  have r1: "\<forall>c'. r1 = Inr c' \<longrightarrow> c' = foldl addOccurrence ?c ?ods \<and> cs1[i := c'] = cs[i := c']"
    by simp
  show ?thesis
  proof (cases r1)
    case (Inl e)
    with assms a show ?thesis by simp
  next
    case (Inr c')
    with r1 have c': "c' = foldl addOccurrence ?c ?ods" and u: "cs1[i := c'] = cs[i := c']"
      by blast+
    show ?thesis
    proof (cases "validate_concept c'")
      case Nil
      with assms a Inr have "cs' = cs1[i := c']" and "out = saved @ [c']"
        by simp_all
      with u c' i show ?thesis by simp
    next
      case (Cons p ps)
      with assms a Inr show ?thesis by simp
    qed
  qed
qed

lemma findIndex_Some_iff:
  "findIndex P xs = Some k \<longleftrightarrow> k < length xs \<and> P (xs ! k) \<and> (\<forall>j<k. \<not> P (xs ! j))"
proof (induction xs arbitrary: k)
  case Nil
  show ?case by simp
next
  case (Cons x xs)
  show ?case
  proof (cases "P x")
    case True
    then show ?thesis by (cases k) auto
  next
    case False
    show ?thesis
    proof (cases k)
      case 0
      then show ?thesis using False by auto
    next
      case (Suc n)
      have "(\<forall>j<Suc n. \<not> P ((x # xs) ! j)) \<longleftrightarrow> (\<forall>j<n. \<not> P (xs ! j))"
        using False by (auto simp: less_Suc_eq_0_disj)
      then show ?thesis
        using False Suc Cons.IH [of n] by auto
    qed
  qed
qed

lemma findIndex_None_iff: "findIndex P xs = None \<longleftrightarrow> (\<forall>x \<in> set xs. \<not> P x)"
  by (induction xs) auto

lemma findIndex_append_Some: "findIndex P xs = Some k \<Longrightarrow> findIndex P (xs @ ys) = Some k"
  by (simp add: findIndex_Some_iff nth_append)

lemma findIndex_append_None:
  "findIndex P xs = None \<Longrightarrow> P y \<Longrightarrow> findIndex P (xs @ [y]) = Some (length xs)"
  by (auto simp: findIndex_Some_iff findIndex_None_iff nth_append)

lemma findIndex_prefix:
  "findIndex P (xs @ ys) = Some k \<Longrightarrow> k < length xs \<Longrightarrow> findIndex P xs = Some k"
  by (auto simp: findIndex_Some_iff nth_append)

lemma findIndex_update:
  assumes "i < length xs" and "P y = P (xs ! i)"
  shows "findIndex P (xs[i := y]) = findIndex P xs"
  using assms
proof (induction xs arbitrary: i)
  case Nil
  then show ?case by simp
next
  case (Cons x xs)
  show ?case
  proof (cases i)
    case 0
    with Cons.prems show ?thesis by simp
  next
    case (Suc n)
    with Cons.prems have "findIndex P (xs[n := y]) = findIndex P xs"
      by (intro Cons.IH) simp_all
    with Suc show ?thesis by simp
  qed
qed

lemma findIndex_map: "findIndex (\<lambda>x. P (f x)) xs = findIndex P (map f xs)"
  by (induction xs) simp_all

lemma addOccurrence_occurrences:
  "c_occurrences (addOccurrence c od) =
     (case findIndex (\<lambda>occ. o_position occ = od_position od) (c_occurrences c) of
        Some k \<Rightarrow> (c_occurrences c)[k := stored_occurrence od]
      | None \<Rightarrow> c_occurrences c @ [stored_occurrence od])"
proof (cases "findIndex (\<lambda>occ. o_position occ = od_position od) (c_occurrences c)")
  case None
  then show ?thesis by (simp add: addOccurrence_def Let_def)
next
  case (Some k)
  from findIndex_SomeD [OF Some] have "o_position (c_occurrences c ! k) = od_position od"
    by simp
  then have "(c_occurrences c ! k)\<lparr>o_context := od_context od,
        o_confidence := (case od_confidence od of Some x \<Rightarrow> x | None \<Rightarrow> 1)\<rparr> = stored_occurrence od"
    by (cases "c_occurrences c ! k") simp
  with Some show ?thesis by (simp add: addOccurrence_def Let_def)
qed

lemma addOccurrence_step_positions:
  "map o_position (c_occurrences (addOccurrence c od)) =
     map o_position (c_occurrences c) @
     (if od_position od \<in> o_position ` set (c_occurrences c) then [] else [od_position od])"
proof (cases "findIndex (\<lambda>occ. o_position occ = od_position od) (c_occurrences c)")
  case None
  then have "od_position od \<notin> o_position ` set (c_occurrences c)"
    by (auto simp: findIndex_None_iff)
  with None show ?thesis by (simp add: addOccurrence_occurrences)
next
  case (Some k)
  let ?os = "c_occurrences c"
  from findIndex_SomeD [OF Some] have k: "k < length ?os" and p: "o_position (?os ! k) = od_position od"
    by simp_all
  have "map o_position (?os[k := stored_occurrence od]) = (map o_position ?os)[k := o_position (?os ! k)]"
    by (simp add: map_update p)
  also have "\<dots> = map o_position ?os"
    using k by (metis list_update_id nth_map)
  finally have "map o_position (?os[k := stored_occurrence od]) = map o_position ?os" .
  moreover have "od_position od \<in> o_position ` set ?os"
    using k p by (metis imageI nth_mem)
  ultimately show ?thesis using Some by (simp add: addOccurrence_occurrences)
qed

lemma merged_positions:
  "map o_position (c_occurrences (foldl addOccurrence c ods)) =
     map o_position (c_occurrences c) @
     rev (remdups (rev (filter (\<lambda>p. p \<notin> o_position ` set (c_occurrences c)) (map od_position ods))))"
proof (induction ods rule: rev_induct)
  case Nil
  show ?case by simp
next
  case (snoc od ods)
  let ?c' = "foldl addOccurrence c ods"
  let ?Q = "\<lambda>p. p \<notin> o_position ` set (c_occurrences c)"
  let ?F = "filter ?Q (map od_position ods)"
  have s: "o_position ` set (c_occurrences ?c') = o_position ` set (c_occurrences c) \<union> set ?F"
  proof -
    have "set (map o_position (c_occurrences ?c')) = set (map o_position (c_occurrences c)) \<union> set ?F"
      unfolding snoc.IH by simp
    then show ?thesis by simp
  qed
  show ?case
  proof (cases "?Q (od_position od)")
    case False
    then have "od_position od \<in> o_position ` set (c_occurrences ?c')"
      unfolding s by simp
    with False show ?thesis
      by (simp add: addOccurrence_step_positions snoc.IH)
  next
    case True
    show ?thesis
    proof (cases "od_position od \<in> set ?F")
      case True
      then have "od_position od \<in> o_position ` set (c_occurrences ?c')"
        unfolding s by simp
      with True \<open>?Q (od_position od)\<close> show ?thesis
        by (simp add: addOccurrence_step_positions snoc.IH)
    next
      case False
      with True have "od_position od \<notin> o_position ` set (c_occurrences ?c')"
        unfolding s by simp
      with False True show ?thesis
        by (simp add: addOccurrence_step_positions snoc.IH)
    qed
  qed
qed

lemma merged_refreshed:
  assumes "od \<in> set ods"
  shows "\<exists>k. findIndex (\<lambda>occ. o_position occ = od_position od)
              (c_occurrences (foldl addOccurrence c ods)) = Some k \<and>
             c_occurrences (foldl addOccurrence c ods) ! k =
               stored_occurrence (last (filter (\<lambda>x. od_position x = od_position od) ods))"
  using assms
proof (induction ods rule: rev_induct)
  case Nil
  then show ?case by simp
next
  case (snoc x ods)
  let ?c' = "foldl addOccurrence c ods"
  let ?os = "c_occurrences ?c'"
  let ?P = "\<lambda>occ. o_position occ = od_position od"
  let ?X = "\<lambda>occ. o_position occ = od_position x"
  show ?case
  proof (cases "od_position x = od_position od")
    case True
    have l: "last (filter (\<lambda>y. od_position y = od_position od) (ods @ [x])) = x"
      using True by simp
    show ?thesis
    proof (cases "findIndex ?X ?os")
      case None
      then have "findIndex ?P (?os @ [stored_occurrence x]) = Some (length ?os)"
        using True by (intro findIndex_append_None) simp_all
      with None show ?thesis
        unfolding l by (simp add: addOccurrence_occurrences)
    next
      case (Some k)
      from findIndex_SomeD [OF Some] have k: "k < length ?os" and p: "o_position (?os ! k) = od_position x"
        by simp_all
      have "findIndex ?P (?os[k := stored_occurrence x]) = findIndex ?P ?os"
        using k p True by (intro findIndex_update) simp_all
      with Some True k show ?thesis
        unfolding l by (simp add: addOccurrence_occurrences)
    qed
  next
    case False
    with snoc.prems have mem: "od \<in> set ods"
      by auto
    have l: "last (filter (\<lambda>y. od_position y = od_position od) (ods @ [x])) =
        last (filter (\<lambda>y. od_position y = od_position od) ods)"
      using False by simp
    from snoc.IH [OF mem] obtain k where f: "findIndex ?P ?os = Some k"
      and v: "?os ! k = stored_occurrence (last (filter (\<lambda>y. od_position y = od_position od) ods))"
      by blast
    from findIndex_SomeD [OF f] have k: "k < length ?os" and pk: "o_position (?os ! k) = od_position od"
      by simp_all
    show ?thesis
    proof (cases "findIndex ?X ?os")
      case None
      have "findIndex ?P (?os @ [stored_occurrence x]) = Some k"
        by (rule findIndex_append_Some [OF f])
      with None v k show ?thesis
        unfolding l by (simp add: addOccurrence_occurrences nth_append)
    next
      case (Some j)
      from findIndex_SomeD [OF Some] have j: "j < length ?os" and pj: "o_position (?os ! j) = od_position x"
        by simp_all
      from pj pk False have "j \<noteq> k" by auto
      moreover have "findIndex ?P (?os[j := stored_occurrence x]) = findIndex ?P ?os"
        using j pj False by (intro findIndex_update) auto
      ultimately show ?thesis
        using Some f v unfolding l by (simp add: addOccurrence_occurrences)
    qed
  qed
qed

lemma merged_kept:
  assumes "k < length (c_occurrences c)"
    and "o_position (c_occurrences c ! k) \<notin> od_position ` set ods \<or>
         findIndex (\<lambda>occ. o_position occ = o_position (c_occurrences c ! k)) (c_occurrences c) \<noteq> Some k"
  shows "c_occurrences (foldl addOccurrence c ods) ! k = c_occurrences c ! k"
  using assms(2)
proof (induction ods rule: rev_induct)
  case Nil
  show ?case by simp
next
  case (snoc x ods)
  let ?os = "c_occurrences (foldl addOccurrence c ods)"
  let ?X = "\<lambda>occ. o_position occ = od_position x"
  define new where "new = rev (remdups (rev (filter (\<lambda>p. p \<notin> o_position ` set (c_occurrences c))
      (map od_position ods))))"
  have pos: "map o_position ?os = map o_position (c_occurrences c) @ new"
    unfolding new_def by (rule merged_positions)
  from snoc.prems have "o_position (c_occurrences c ! k) \<notin> od_position ` set ods \<or>
         findIndex (\<lambda>occ. o_position occ = o_position (c_occurrences c ! k)) (c_occurrences c) \<noteq> Some k"
    by (elim disjE) simp_all
  from snoc.IH [OF this] have ih: "?os ! k = c_occurrences c ! k" .
  have "length (map o_position ?os) = length (c_occurrences c) + length new"
    by (simp only: pos length_append length_map)
  with assms(1) have k: "k < length ?os"
    by simp
  have step: "c_occurrences (foldl addOccurrence c (ods @ [x])) =
      (case findIndex ?X ?os of
         Some j \<Rightarrow> ?os[j := stored_occurrence x]
       | None \<Rightarrow> ?os @ [stored_occurrence x])"
    by (simp add: addOccurrence_occurrences)
  show ?case
  proof (cases "findIndex ?X ?os")
    case None
    with ih k show ?thesis
      unfolding step by (simp add: nth_append)
  next
    case (Some j)
    have "j \<noteq> k"
    proof
      assume jk: "j = k"
      from findIndex_SomeD [OF Some] jk ih have p: "o_position (c_occurrences c ! k) = od_position x"
        by simp
      have "findIndex (\<lambda>q. q = od_position x) (map o_position ?os) = Some k"
        using Some jk by (simp only: findIndex_map [symmetric])
      then have "findIndex (\<lambda>q. q = od_position x) (map o_position (c_occurrences c) @ new) = Some k"
        by (simp only: pos)
      then have "findIndex (\<lambda>q. q = od_position x) (map o_position (c_occurrences c)) = Some k"
        using assms(1) by (elim findIndex_prefix) simp
      then have "findIndex ?X (c_occurrences c) = Some k"
        by (simp only: findIndex_map [symmetric])
      with snoc.prems p show False
        by simp
    qed
    with Some ih show ?thesis
      unfolding step by simp
  qed
qed

lemma saveConcepts_append:
  "saveConcepts cs d u saved (pre @ post) =
     (case saveConcepts cs d u saved pre of
        (Inl e, cs1) \<Rightarrow> (Inl e, cs1)
      | (Inr saved1, cs1) \<Rightarrow> saveConcepts cs1 d u saved1 post)"
proof (induction pre arbitrary: cs saved)
  case Nil
  show ?case by simp
next
  case (Cons cd pre)
  note ih = Cons.IH
  let ?P = "\<lambda>c. c_documentId c = d \<and> c_term c = trim (cd_term cd)"
  let ?ods = "case cd_occurrences cd of Some ods \<Rightarrow> ods | None \<Rightarrow> []"
  show ?case
  proof (cases "findIndex ?P cs")
    case None
    let ?c = "\<lparr>c_term = trim (cd_term cd), c_definition = cd_definition cd,
                c_documentId = d, c_userId = u,
                c_occurrences = map stored_occurrence ?ods,
                c_category = cd_category cd, c_importance = cd_importance cd\<rparr>"
    show ?thesis
    proof (cases "insert_concept cs ?c")
      case (Inl e)
      with None show ?thesis by (simp add: Let_def)
    next
      case (Inr cs1)
      with None show ?thesis
        using ih [of cs1 "saved @ [?c]"] by (simp add: Let_def)
    qed
  next
    case (Some i)
    let ?c0 = "(cs ! i)\<lparr>c_definition := cd_definition cd, c_category := cd_category cd,
                         c_importance := cd_importance cd\<rparr>"
    obtain r1 cs1 where a: "addOccurrences cs i ?c0 ?ods = (r1, cs1)"
      by (cases "addOccurrences cs i ?c0 ?ods") auto
    show ?thesis
    proof (cases r1)
      case (Inl e)
      with Some a show ?thesis by simp
    next
      case (Inr c')
      show ?thesis
      proof (cases "validate_concept c'")
        case Nil
        with Some a Inr show ?thesis
          using ih [of "cs1[i := c']" "saved @ [c']"] by simp
      next
        case (Cons p ps)
        with Some a Inr show ?thesis by simp
      qed
    qed
  qed
qed

lemma saveConcepts_saved:
  "saveConcepts cs d u (s1 @ s2) cds =
     (case saveConcepts cs d u s2 cds of
        (Inl e, cs1) \<Rightarrow> (Inl e, cs1)
      | (Inr out, cs1) \<Rightarrow> (Inr (s1 @ out), cs1))"
proof (induction cds arbitrary: cs s2)
  case Nil
  show ?case by simp
next
  case (Cons cd cds)
  note ih = Cons.IH
  let ?P = "\<lambda>c. c_documentId c = d \<and> c_term c = trim (cd_term cd)"
  let ?ods = "case cd_occurrences cd of Some ods \<Rightarrow> ods | None \<Rightarrow> []"
  show ?case
  proof (cases "findIndex ?P cs")
    case None
    let ?c = "\<lparr>c_term = trim (cd_term cd), c_definition = cd_definition cd,
                c_documentId = d, c_userId = u,
                c_occurrences = map stored_occurrence ?ods,
                c_category = cd_category cd, c_importance = cd_importance cd\<rparr>"
    show ?thesis
    proof (cases "insert_concept cs ?c")
      case (Inl e)
      with None show ?thesis by (simp add: Let_def)
    next
      case (Inr cs1)
      with None show ?thesis
        using ih [of cs1 "s2 @ [?c]"] by (simp add: Let_def)
    qed
  next
    case (Some i)
    let ?c0 = "(cs ! i)\<lparr>c_definition := cd_definition cd, c_category := cd_category cd,
                         c_importance := cd_importance cd\<rparr>"
    obtain r1 cs1 where a: "addOccurrences cs i ?c0 ?ods = (r1, cs1)"
      by (cases "addOccurrences cs i ?c0 ?ods") auto
    show ?thesis
    proof (cases r1)
      case (Inl e)
      with Some a show ?thesis by simp
    next
      case (Inr c')
      show ?thesis
      proof (cases "validate_concept c'")
        case Nil
        with Some a Inr show ?thesis
          using ih [of "cs1[i := c']" "s2 @ [c']"] by simp
      next
        case (Cons p ps)
        with Some a Inr show ?thesis by simp
      qed
    qed
  qed
qed


lemma addOccurrence_userId: "c_userId (addOccurrence c od) = c_userId c"
  by (simp add: addOccurrence_def Let_def split: option.splits)

lemma foldl_addOccurrence_userId: "c_userId (foldl addOccurrence c ods) = c_userId c"
  by (induction ods arbitrary: c) (simp_all add: addOccurrence_userId)

lemma extractAndSaveConcepts_InrD:
  assumes "extractAndSaveConcepts db (Inr cds) d u = (Inr saved, db')"
  shows "saveConcepts (concepts db) d u [] cds = (Inr saved, concepts db') \<and>
         db' = db\<lparr>concepts := concepts db'\<rparr>"
proof -
  obtain r cs' where s: "saveConcepts (concepts db) d u [] cds = (r, cs')"
    by (cases "saveConcepts (concepts db) d u [] cds") auto
  with assms show ?thesis
    by (cases r) (auto simp: extractAndSaveConcepts_def)
qed

lemma extractAndSaveConcepts_append:
  "extractAndSaveConcepts db (Inr (pre @ post)) d u =
     (case extractAndSaveConcepts db (Inr pre) d u of
        (Inl e, db0) \<Rightarrow> (Inl e, db0)
      | (Inr saved0, db0) \<Rightarrow>
          (case extractAndSaveConcepts db0 (Inr post) d u of
             (Inl e, db1) \<Rightarrow> (Inl e, db1)
           | (Inr saved1, db1) \<Rightarrow> (Inr (saved0 @ saved1), db1)))"
proof -
  obtain r0 cs0 where s0: "saveConcepts (concepts db) d u [] pre = (r0, cs0)"
    by (cases "saveConcepts (concepts db) d u [] pre") auto
  show ?thesis
  proof (cases r0)
    case (Inl e)
    with s0 show ?thesis
      by (simp add: extractAndSaveConcepts_def saveConcepts_append)
  next
    case (Inr saved0)
    obtain r1 cs1 where s1: "saveConcepts cs0 d u [] post = (r1, cs1)"
      by (cases "saveConcepts cs0 d u [] post") auto
    have "saveConcepts cs0 d u saved0 post =
        (case r1 of Inl e \<Rightarrow> (Inl e, cs1) | Inr out \<Rightarrow> (Inr (saved0 @ out), cs1))"
      using saveConcepts_saved [of cs0 d u saved0 "[]" post] s1
      by (cases r1) simp_all
    with s0 s1 Inr show ?thesis
      by (cases r1) (simp_all add: extractAndSaveConcepts_def saveConcepts_append)
  qed
qed

lemma saveConcepts_new:
  assumes "findIndex (\<lambda>c. c_documentId c = d \<and> c_term c = trim (cd_term cd)) cs = None"
    and "saveConcepts cs d u saved [cd] = (Inr out, cs')"
  shows "cs' = cs @ [\<lparr>c_term = trim (cd_term cd), c_definition = cd_definition cd,
                       c_documentId = d, c_userId = u,
                       c_occurrences = map stored_occurrence
                         (case cd_occurrences cd of Some ods \<Rightarrow> ods | None \<Rightarrow> []),
                       c_category = cd_category cd, c_importance = cd_importance cd\<rparr>] \<and>
         out = saved @ [last cs']"
  using assms
  by (auto simp: Let_def insert_concept_def split: sum.splits list.splits if_splits)

text \<open>
  Claim C5. \<open>extractAndSaveConcepts\<close> keeps the pairs of document and term distinct,
  whatever the model returned and however far it got. After a run that succeeded, every
  term submitted has exactly one row for the document. A batch is its submissions one
  after the other: running \<open>pre @ post\<close> is running \<open>pre\<close> and then \<open>post\<close> on the
  database \<open>pre\<close> left. A submission whose term has no row for the document when its
  turn comes, in the database or from earlier in the batch, appends one row with the
  submitted fields and occurrences. A submission whose term has a row, at index \<open>i\<close>, is
  written into that row: no row is added and no other row changes; the row keeps its
  document, term and user; its definition, category and importance are the submitted
  ones; and its occurrences are the old ones merged with the submitted ones:
  the positions are the old positions, in place, followed by the submitted positions
  that are new, each once, in the order of first appearance;
  at every submitted position, the first occurrence with that position carries the
  context and the confidence (1 when none is given) of the last submitted occurrence
  with that position;
  and every old occurrence whose position was not submitted, or which is not the first
  with its position, is unchanged.
\<close>

theorem concept_rows_are_merged:
  assumes "unique_concepts (concepts db)"
  shows "unique_concepts (concepts (snd (extractAndSaveConcepts db extracted d u))) \<and>
     (extractAndSaveConcepts db (Inr cds) d u = (Inr saved, db') \<longrightarrow>
        (\<forall>cd \<in> set cds.
           length (filter (\<lambda>c. c_documentId c = d \<and> c_term c = trim (cd_term cd)) (concepts db')) = 1)) \<and>
     extractAndSaveConcepts db (Inr (pre @ post)) d u =
       (case extractAndSaveConcepts db (Inr pre) d u of
          (Inl e, db0) \<Rightarrow> (Inl e, db0)
        | (Inr saved0, db0) \<Rightarrow>
            (case extractAndSaveConcepts db0 (Inr post) d u of
               (Inl e, db1) \<Rightarrow> (Inl e, db1)
             | (Inr saved1, db1) \<Rightarrow> (Inr (saved0 @ saved1), db1))) \<and>
     (extractAndSaveConcepts db (Inr before) d u = (Inr saved0, db0) \<and>
      extractAndSaveConcepts db (Inr (before @ [cd0])) d u = (Inr saved1, db1) \<and>
      findIndex (\<lambda>c. c_documentId c = d \<and> c_term c = trim (cd_term cd0)) (concepts db0) = None \<longrightarrow>
        concepts db1 =
          concepts db0 @
          [\<lparr>c_term = trim (cd_term cd0), c_definition = cd_definition cd0,
            c_documentId = d, c_userId = u,
            c_occurrences = map stored_occurrence
              (case cd_occurrences cd0 of Some ods \<Rightarrow> ods | None \<Rightarrow> []),
            c_category = cd_category cd0, c_importance = cd_importance cd0\<rparr>] \<and>
        saved1 = saved0 @ [last (concepts db1)]) \<and>
     (extractAndSaveConcepts db (Inr earlier) d u = (Inr saved2, db2) \<and>
      extractAndSaveConcepts db (Inr (earlier @ [cd1])) d u = (Inr saved3, db3) \<and>
      findIndex (\<lambda>c. c_documentId c = d \<and> c_term c = trim (cd_term cd1)) (concepts db2) = Some i \<longrightarrow>
        length (concepts db3) = length (concepts db2) \<and>
        concepts db3 = (concepts db2)[i := concepts db3 ! i] \<and>
        saved3 = saved2 @ [concepts db3 ! i] \<and>
        c_documentId (concepts db3 ! i) = d \<and>
        c_term (concepts db3 ! i) = trim (cd_term cd1) \<and>
        c_userId (concepts db3 ! i) = c_userId (concepts db2 ! i) \<and>
        c_definition (concepts db3 ! i) = cd_definition cd1 \<and>
        c_category (concepts db3 ! i) = cd_category cd1 \<and>
        c_importance (concepts db3 ! i) = cd_importance cd1 \<and>
        map o_position (c_occurrences (concepts db3 ! i)) =
          map o_position (c_occurrences (concepts db2 ! i)) @
          rev (remdups (rev (filter (\<lambda>p. p \<notin> o_position ` set (c_occurrences (concepts db2 ! i)))
                              (map od_position
                                 (case cd_occurrences cd1 of Some ods \<Rightarrow> ods | None \<Rightarrow> []))))) \<and>
        (\<forall>od \<in> set (case cd_occurrences cd1 of Some ods \<Rightarrow> ods | None \<Rightarrow> []).
           \<exists>k. findIndex (\<lambda>occ. o_position occ = od_position od)
                  (c_occurrences (concepts db3 ! i)) = Some k \<and>
               c_occurrences (concepts db3 ! i) ! k =
                 stored_occurrence
                   (last (filter (\<lambda>x. od_position x = od_position od)
                            (case cd_occurrences cd1 of Some ods \<Rightarrow> ods | None \<Rightarrow> [])))) \<and>
        (\<forall>k < length (c_occurrences (concepts db2 ! i)).
           o_position (c_occurrences (concepts db2 ! i) ! k)
             \<notin> od_position ` set (case cd_occurrences cd1 of Some ods \<Rightarrow> ods | None \<Rightarrow> []) \<or>
           findIndex (\<lambda>occ. o_position occ = o_position (c_occurrences (concepts db2 ! i) ! k))
             (c_occurrences (concepts db2 ! i)) \<noteq> Some k \<longrightarrow>
           c_occurrences (concepts db3 ! i) ! k = c_occurrences (concepts db2 ! i) ! k))"
proof -
  have a: "unique_concepts (concepts (snd (extractAndSaveConcepts db extracted d u)))"
  proof (cases extracted)
    case (Inl message)
    with assms show ?thesis by (simp add: extractAndSaveConcepts_def)
  next
    case (Inr xs)
    obtain r cs' where s: "saveConcepts (concepts db) d u [] xs = (r, cs')"
      by (cases "saveConcepts (concepts db) d u [] xs") auto
    from saveConcepts_keys [OF s] assms have "unique_concepts cs'"
      by blast
    with Inr s show ?thesis
      by (cases r) (simp_all add: extractAndSaveConcepts_def)
  qed
  have b: "\<forall>cd \<in> set cds.
           length (filter (\<lambda>c. c_documentId c = d \<and> c_term c = trim (cd_term cd)) (concepts db')) = 1"
    if run: "extractAndSaveConcepts db (Inr cds) d u = (Inr saved, db')"
  proof -
    from extractAndSaveConcepts_InrD [OF run]
    have s: "saveConcepts (concepts db) d u [] cds = (Inr saved, concepts db')"
      by simp
    from saveConcepts_keys [OF s] assms
    have "unique_concepts (concepts db')"
      and "\<forall>cd \<in> set cds. (d, trim (cd_term cd)) \<in> set (map concept_key (concepts db'))"
      by blast+
    then show ?thesis
      using one_row_per_key [of "concepts db'" d] by blast
  qed
  note c = extractAndSaveConcepts_append [of db pre post d u]
  have step: "saveConcepts (concepts x0) d u s0 [cd] = (Inr s1, concepts x1)"
    if r0: "extractAndSaveConcepts db (Inr xs) d u = (Inr s0, x0)"
      and r1: "extractAndSaveConcepts db (Inr (xs @ [cd])) d u = (Inr s1, x1)"
    for xs cd s0 s1 x0 x1
  proof -
    from extractAndSaveConcepts_InrD [OF r0] extractAndSaveConcepts_InrD [OF r1]
    have "saveConcepts (concepts db) d u [] xs = (Inr s0, concepts x0)"
      and "saveConcepts (concepts db) d u [] (xs @ [cd]) = (Inr s1, concepts x1)"
      by simp_all
    then show ?thesis
      by (simp add: saveConcepts_append)
  qed
  have n: "concepts db1 =
          concepts db0 @
          [\<lparr>c_term = trim (cd_term cd0), c_definition = cd_definition cd0,
            c_documentId = d, c_userId = u,
            c_occurrences = map stored_occurrence
              (case cd_occurrences cd0 of Some ods \<Rightarrow> ods | None \<Rightarrow> []),
            c_category = cd_category cd0, c_importance = cd_importance cd0\<rparr>] \<and>
        saved1 = saved0 @ [last (concepts db1)]"
    if "extractAndSaveConcepts db (Inr before) d u = (Inr saved0, db0)"
      and "extractAndSaveConcepts db (Inr (before @ [cd0])) d u = (Inr saved1, db1)"
      and "findIndex (\<lambda>c. c_documentId c = d \<and> c_term c = trim (cd_term cd0)) (concepts db0) = None"
    using saveConcepts_new [OF that(3) step [OF that(1,2)]] .
  have m: "length (concepts db3) = length (concepts db2) \<and>
        concepts db3 = (concepts db2)[i := concepts db3 ! i] \<and>
        saved3 = saved2 @ [concepts db3 ! i] \<and>
        c_documentId (concepts db3 ! i) = d \<and>
        c_term (concepts db3 ! i) = trim (cd_term cd1) \<and>
        c_userId (concepts db3 ! i) = c_userId (concepts db2 ! i) \<and>
        c_definition (concepts db3 ! i) = cd_definition cd1 \<and>
        c_category (concepts db3 ! i) = cd_category cd1 \<and>
        c_importance (concepts db3 ! i) = cd_importance cd1 \<and>
        map o_position (c_occurrences (concepts db3 ! i)) =
          map o_position (c_occurrences (concepts db2 ! i)) @
          rev (remdups (rev (filter (\<lambda>p. p \<notin> o_position ` set (c_occurrences (concepts db2 ! i)))
                              (map od_position
                                 (case cd_occurrences cd1 of Some ods \<Rightarrow> ods | None \<Rightarrow> []))))) \<and>
        (\<forall>od \<in> set (case cd_occurrences cd1 of Some ods \<Rightarrow> ods | None \<Rightarrow> []).
           \<exists>k. findIndex (\<lambda>occ. o_position occ = od_position od)
                  (c_occurrences (concepts db3 ! i)) = Some k \<and>
               c_occurrences (concepts db3 ! i) ! k =
                 stored_occurrence
                   (last (filter (\<lambda>x. od_position x = od_position od)
                            (case cd_occurrences cd1 of Some ods \<Rightarrow> ods | None \<Rightarrow> [])))) \<and>
        (\<forall>k < length (c_occurrences (concepts db2 ! i)).
           o_position (c_occurrences (concepts db2 ! i) ! k)
             \<notin> od_position ` set (case cd_occurrences cd1 of Some ods \<Rightarrow> ods | None \<Rightarrow> []) \<or>
           findIndex (\<lambda>occ. o_position occ = o_position (c_occurrences (concepts db2 ! i) ! k))
             (c_occurrences (concepts db2 ! i)) \<noteq> Some k \<longrightarrow>
           c_occurrences (concepts db3 ! i) ! k = c_occurrences (concepts db2 ! i) ! k)"
    if r2: "extractAndSaveConcepts db (Inr earlier) d u = (Inr saved2, db2)"
      and r3: "extractAndSaveConcepts db (Inr (earlier @ [cd1])) d u = (Inr saved3, db3)"
      and f: "findIndex (\<lambda>c. c_documentId c = d \<and> c_term c = trim (cd_term cd1)) (concepts db2) = Some i"
  proof -
    let ?cs = "concepts db2"
    define ods where "ods = (case cd_occurrences cd1 of Some ods \<Rightarrow> ods | None \<Rightarrow> [])"
    define c0 where "c0 = (?cs ! i)\<lparr>c_definition := cd_definition cd1, c_category := cd_category cd1,
                              c_importance := cd_importance cd1\<rparr>"
    define c' where "c' = foldl addOccurrence c0 ods"
    have o0: "c_occurrences c0 = c_occurrences (?cs ! i)"
      by (simp add: c0_def)
    from saveConcepts_existing [OF f step [OF r2 r3]]
    have cs': "concepts db3 = ?cs[i := c']" and out: "saved3 = saved2 @ [concepts db3 ! i]"
      and i: "i < length ?cs"
      by (simp_all add: c'_def c0_def ods_def)
    from findIndex_SomeD [OF f] have pi: "c_documentId (?cs ! i) = d" "c_term (?cs ! i) = trim (cd_term cd1)"
      by simp_all
    have nth: "concepts db3 ! i = c'"
      using i by (simp add: cs')
    have fields: "c_documentId c' = d" "c_term c' = trim (cd_term cd1)"
      "c_userId c' = c_userId (?cs ! i)" "c_definition c' = cd_definition cd1"
      "c_category c' = cd_category cd1" "c_importance c' = cd_importance cd1"
      using pi by (simp_all add: c'_def c0_def foldl_addOccurrence_fields foldl_addOccurrence_userId)
    have p: "map o_position (c_occurrences c') =
          map o_position (c_occurrences (?cs ! i)) @
          rev (remdups (rev (filter (\<lambda>p. p \<notin> o_position ` set (c_occurrences (?cs ! i)))
                              (map od_position ods))))"
      unfolding c'_def using merged_positions [of c0 ods] by (simp only: o0)
    have r: "\<forall>od \<in> set ods.
           \<exists>k. findIndex (\<lambda>occ. o_position occ = od_position od) (c_occurrences c') = Some k \<and>
               c_occurrences c' ! k =
                 stored_occurrence (last (filter (\<lambda>x. od_position x = od_position od) ods))"
      unfolding c'_def using merged_refreshed [of _ ods c0] by blast
    have k: "\<forall>k < length (c_occurrences (?cs ! i)).
           o_position (c_occurrences (?cs ! i) ! k) \<notin> od_position ` set ods \<or>
           findIndex (\<lambda>occ. o_position occ = o_position (c_occurrences (?cs ! i) ! k))
             (c_occurrences (?cs ! i)) \<noteq> Some k \<longrightarrow>
           c_occurrences c' ! k = c_occurrences (?cs ! i) ! k"
      unfolding c'_def using merged_kept [of _ c0 ods] by (simp only: o0) blast
    have l: "length (concepts db3) = length ?cs" and u: "concepts db3 = ?cs[i := concepts db3 ! i]"
      unfolding nth by (simp_all add: cs')
    from l u out fields p r k show ?thesis
      unfolding nth ods_def by blast
  qed
  from a b c n m show ?thesis
    by blast
qed


lemma heap_first_run:
  "extractAndSaveConcepts one_pdf_database (Inr [heap_first]) 0 7
     = (Inr [heap_row], one_pdf_database\<lparr>concepts := [heap_row]\<rparr>)"
  by (simp add: extractAndSaveConcepts_def heap_first_def heap_row_def one_pdf_database_def
      trim_def js_space_def insert_concept_def validate_concept_def valid_occurrence_def
      category_enum_def Let_def)

lemma heap_second_run:
  "extractAndSaveConcepts (one_pdf_database\<lparr>concepts := [heap_row]\<rparr>) (Inr [heap_second]) 0 7
     = (Inr [heap_row_merged], one_pdf_database\<lparr>concepts := [heap_row_merged]\<rparr>)"
  by (simp add: extractAndSaveConcepts_def heap_second_def heap_row_def heap_row_merged_def
      one_pdf_database_def trim_def js_space_def addOccurrence_def validate_concept_def
      valid_occurrence_def category_enum_def Let_def)

theorem concept_rows_are_merged_witness:
  "extractAndSaveConcepts one_pdf_database (Inr []) 0 7 = (Inr [], one_pdf_database) \<and>
   extractAndSaveConcepts one_pdf_database (Inr [heap_first]) 0 7
     = (Inr [heap_row], one_pdf_database\<lparr>concepts := [heap_row]\<rparr>) \<and>
   extractAndSaveConcepts one_pdf_database (Inr [heap_first, heap_second]) 0 7
     = (Inr [heap_row, heap_row_merged], one_pdf_database\<lparr>concepts := [heap_row_merged]\<rparr>) \<and>
   length (filter (\<lambda>c. c_documentId c = 0 \<and> c_term c = js ''Heap'')
             (concepts (one_pdf_database\<lparr>concepts := [heap_row_merged]\<rparr>))) = 1 \<and>
   concepts (one_pdf_database\<lparr>concepts := [heap_row]\<rparr>) = concepts one_pdf_database @ [heap_row] \<and>
   length (concepts (one_pdf_database\<lparr>concepts := [heap_row_merged]\<rparr>))
     = length (concepts (one_pdf_database\<lparr>concepts := [heap_row]\<rparr>)) \<and>
   c_definition (concepts (one_pdf_database\<lparr>concepts := [heap_row_merged]\<rparr>) ! 0)
     = js ''A priority tree.'' \<and>
   map o_position (c_occurrences (concepts (one_pdf_database\<lparr>concepts := [heap_row_merged]\<rparr>) ! 0))
     = [3, 9] \<and>
   (\<exists>k. findIndex (\<lambda>occ. o_position occ = 3)
          (c_occurrences (concepts (one_pdf_database\<lparr>concepts := [heap_row_merged]\<rparr>) ! 0)) = Some k \<and>
        c_occurrences (concepts (one_pdf_database\<lparr>concepts := [heap_row_merged]\<rparr>) ! 0) ! k
          = \<lparr>o_position = 3, o_context = js ''the heap'', o_confidence = 1 / 2\<rparr>)"
proof -
  let ?db1 = "one_pdf_database\<lparr>concepts := [heap_row]\<rparr>"
  let ?db2 = "one_pdf_database\<lparr>concepts := [heap_row_merged]\<rparr>"
  have u: "unique_concepts (concepts one_pdf_database)"
    by (simp add: unique_concepts_def one_pdf_database_def)
  have e: "extractAndSaveConcepts one_pdf_database (Inr []) 0 7 = (Inr [], one_pdf_database)"
    by (simp add: extractAndSaveConcepts_def)
  have e1: "extractAndSaveConcepts one_pdf_database (Inr ([] @ [heap_first])) 0 7 = (Inr [heap_row], ?db1)"
    using heap_first_run by simp
  have b: "extractAndSaveConcepts one_pdf_database (Inr ([heap_first] @ [heap_second])) 0 7
      = (Inr [heap_row, heap_row_merged], ?db2)"
    using concept_rows_are_merged [where db = one_pdf_database and pre = "[heap_first]"
        and post = "[heap_second]" and d = 0 and u = 7, OF u,
        THEN conjunct2, THEN conjunct2, THEN conjunct1]
    by (simp only: heap_first_run heap_second_run prod.case sum.case append.simps)
  have t: "trim (cd_term heap_second) = js ''Heap''" and t1: "trim (cd_term heap_first) = js ''Heap''"
    by (simp_all add: heap_second_def heap_first_def trim_def js_space_def)
  have one: "length (filter (\<lambda>c. c_documentId c = 0 \<and> c_term c = js ''Heap'') (concepts ?db2)) = 1"
    using concept_rows_are_merged [where db = one_pdf_database
        and cds = "[heap_first] @ [heap_second]" and d = 0 and u = 7, OF u,
        THEN conjunct2, THEN conjunct1, THEN mp, OF b, THEN bspec, where x = heap_second]
    unfolding t by simp
  have f0: "findIndex (\<lambda>c. c_documentId c = 0 \<and> c_term c = trim (cd_term heap_first))
      (concepts one_pdf_database) = None"
    by (simp add: one_pdf_database_def)
  have f1: "findIndex (\<lambda>c. c_documentId c = 0 \<and> c_term c = trim (cd_term heap_second))
      (concepts ?db1) = Some 0"
    unfolding t by (simp add: heap_row_def)
  note new = concept_rows_are_merged [where db = one_pdf_database and d = 0 and u = 7, OF u,
      THEN conjunct2, THEN conjunct2, THEN conjunct2, THEN conjunct1, THEN mp,
      OF conjI [OF e conjI [OF e1 f0]]]
  note upd = concept_rows_are_merged [where db = one_pdf_database and d = 0 and u = 7, OF u,
      THEN conjunct2, THEN conjunct2, THEN conjunct2, THEN conjunct2, THEN mp,
      OF conjI [OF heap_first_run conjI [OF b f1]]]
  have ods: "(case cd_occurrences heap_second of Some ods \<Rightarrow> ods | None \<Rightarrow> [])
      = [\<lparr>od_position = 3, od_context = js ''the heap'', od_confidence = Some (1 / 2)\<rparr>,
         \<lparr>od_position = 9, od_context = js ''heap order'', od_confidence = None\<rparr>]"
    by (simp add: heap_second_def)
  have n: "concepts ?db1 = concepts one_pdf_database @ [heap_row]"
    using new [THEN conjunct1] by (simp add: one_pdf_database_def)
  have l: "length (concepts ?db2) = length (concepts ?db1)"
    using upd by (rule conjunct1)
  have d: "c_definition (concepts ?db2 ! 0) = js ''A priority tree.''"
    using upd by (simp add: heap_second_def)
  have p: "map o_position (c_occurrences (concepts ?db2 ! 0)) = [3, 9]"
    using upd [THEN conjunct2, THEN conjunct2, THEN conjunct2, THEN conjunct2, THEN conjunct2,
        THEN conjunct2, THEN conjunct2, THEN conjunct2, THEN conjunct2, THEN conjunct1]
    unfolding ods by (simp add: heap_row_def)
  have r: "\<exists>k. findIndex (\<lambda>occ. o_position occ = 3) (c_occurrences (concepts ?db2 ! 0)) = Some k \<and>
        c_occurrences (concepts ?db2 ! 0) ! k
          = \<lparr>o_position = 3, o_context = js ''the heap'', o_confidence = 1 / 2\<rparr>"
    using upd [THEN conjunct2, THEN conjunct2, THEN conjunct2, THEN conjunct2, THEN conjunct2,
        THEN conjunct2, THEN conjunct2, THEN conjunct2, THEN conjunct2, THEN conjunct2,
        THEN conjunct1, THEN bspec,
        where x = "\<lparr>od_position = 3, od_context = js ''the heap'', od_confidence = Some (1 / 2)\<rparr>"]
    unfolding ods by simp
  from e heap_first_run b one n l d p r show ?thesis
    by simp
qed

section \<open>Reprocessing\<close>




lemma statusCode_not_200: "statusCode message \<noteq> 200"
  by (simp add: statusCode_def)

lemma saveStatus_lookup:
  "documents (saveStatus db i st error) j =
     (if j = i then map_option (\<lambda>d. updateProcessingStatus d st error) (documents db i)
      else documents db j)"
  by (simp add: saveStatus_def findByIdAndUpdate_lookup)

lemma updateProcessingStatus_status [simp]:
  "processingStatus (updateProcessingStatus d st error) = st"
  by (simp add: updateProcessingStatus_def)

lemma findByIdAndUpdate_nextId [simp]: "nextId (findByIdAndUpdate db i upd) = nextId db"
  by (simp add: findByIdAndUpdate_def split: option.splits)

lemma saveStatus_nextId [simp]: "nextId (saveStatus db i st error) = nextId db"
  by (simp add: saveStatus_def)

text \<open>
  One run of the parser on a stored document, in closed form: the history is the
  database with the document in \<open>processing\<close>, then the database with the outcome of the
  one conversion.
\<close>

lemma parseAndConvertDocument_run:
  assumes "documents db i = Some doc"
  shows "parseAndConvertDocument ext db i fb =
     (case (case (case fb of Some b \<Rightarrow> Inr b | None \<Rightarrow> fetchBuffer ext (filePath doc)) of
              Inl message \<Rightarrow> Inl message
            | Inr buf \<Rightarrow>
                if originalFormat doc = js ''pdf'' then pdfMarkdown ext buf
                else if originalFormat doc = js ''url''
                  then Inr (js ''# '' @ title doc @ [10, 10] @ js ''**URL**: '' @
                            (case url doc of Some u \<Rightarrow> u | None \<Rightarrow> js ''undefined'') @
                            [10, 10] @ url_note)
                else Inl (msg_unsupported_format (originalFormat doc))) of
        Inr markdown \<Rightarrow>
          (Inr (doc\<lparr>markdownContent := markdown, processingStatus := completed,
                     processingError := None\<rparr>),
           db\<lparr>documents := (documents db)(i \<mapsto>
                 doc\<lparr>markdownContent := markdown, processingStatus := completed,
                     processingError := None\<rparr>)\<rparr>,
           [db\<lparr>documents := (documents db)(i \<mapsto>
                  doc\<lparr>processingStatus := processing, processingError := None\<rparr>)\<rparr>,
            db\<lparr>documents := (documents db)(i \<mapsto>
                  doc\<lparr>markdownContent := markdown, processingStatus := completed,
                      processingError := None\<rparr>)\<rparr>])
      | Inl message \<Rightarrow>
          (Inl message,
           db\<lparr>documents := (documents db)(i \<mapsto>
                 doc\<lparr>processingStatus := failed,
                     processingError := (if message = [] then None else Some message)\<rparr>)\<rparr>,
           [db\<lparr>documents := (documents db)(i \<mapsto>
                  doc\<lparr>processingStatus := processing, processingError := None\<rparr>)\<rparr>,
            db\<lparr>documents := (documents db)(i \<mapsto>
                  doc\<lparr>processingStatus := failed,
                      processingError := (if message = [] then None else Some message)\<rparr>)\<rparr>]))"
  using assms
  by (simp add: parseAndConvertDocument_def Let_def saveStatus_def findByIdAndUpdate_def
      updateProcessingStatus_def split: sum.splits)

lemma parseAndConvertDocument_found:
  assumes "documents db i = Some doc"
  shows "\<exists>r db1 db' st. parseAndConvertDocument ext db i fb = (r, db', [db1, db']) \<and>
           (st = completed \<or> st = failed) \<and>
           ((\<exists>d'. r = Inr d') \<longleftrightarrow> st = completed) \<and>
           map_option processingStatus (documents db1 i) = Some processing \<and>
           map_option processingStatus (documents db' i) = Some st \<and>
           nextId db1 = nextId db \<and> nextId db' = nextId db \<and>
           (\<forall>j. j \<noteq> i \<longrightarrow> documents db1 j = documents db j \<and> documents db' j = documents db j)"
  unfolding parseAndConvertDocument_run [OF assms]
  by (simp split: sum.splits)






















section \<open>What an upload returns\<close>

text \<open>
  The same upload through the DocumentService that parses on upload: the handler awaits
  the parser and answers 201 with the record already \<open>completed\<close>.
\<close>

theorem upload_awaits_parsing_counterexample:
  "responseCode (fst (handle default_config parsing_externals empty_database
       (UploadDocument pdf_request (js ''documents/7/1_ab_report.pdf'')))) = 201 \<and>
   map_option processingStatus
     (responseBody (fst (handle default_config parsing_externals empty_database
       (UploadDocument pdf_request (js ''documents/7/1_ab_report.pdf''))))) = Some completed \<and>
   map_option markdownContent
     (responseBody (fst (handle default_config parsing_externals empty_database
       (UploadDocument pdf_request (js ''documents/7/1_ab_report.pdf''))))) = Some (js ''# report'')"
proof -
  have v: "validateFileInline default_config parsing_externals pdf_file
      = ([], js ''pdf'', js ''application/pdf'')"
    by (simp add: validateFileInline_def default_config_def pdf_file_def formatOfMimeType_def
        trim_def js_space_def Let_def)
  have t: "trim (js ''report'') = js ''report''"
    by (simp add: trim_def js_space_def)
  show ?thesis
    unfolding handle_def uploadAndParse_def
    by (simp add: pdf_request_def v, simp add: parsing_externals_def pdf_file_def t [simplified]
        save_document_def validate_document_def originalFormat_enum_def empty_database_def
        parseAndConvertDocument_def saveStatus_def findByIdAndUpdate_def
        updateProcessingStatus_def Let_def)
qed

lemma uploadDocument_success:
  assumes "uploadDocument cfg sdk_error fileKey extractTitle db (Some f) uid meta_title
             = (Inr (i, d), db', tasks)"
  shows "i = nextId db \<and> processingStatus d = pending \<and> markdownContent d = [] \<and>
         processingError d = None \<and> documents db' i = Some d \<and>
         tasks = [ProcessFileExtraction i (buffer f) (mimetype f)]"
proof -
  let ?d = "\<lparr>userId = uid,
             title = trim (case meta_title of
                             Some t \<Rightarrow> if t \<noteq> [] then t else extractTitle (originalname f)
                           | None \<Rightarrow> extractTitle (originalname f)),
             originalFormat = getFormatFromMimeType (mimetype f),
             filePath = Some fileKey, markdownContent = [], restructuredContent = None,
             processingStatus = pending, processingError = None, isDeleted = False, url = None\<rparr>"
  from assms have v: "validateFile cfg (Some f) = Inr f"
    by (auto simp: uploadDocument_def validateFile_def split: if_splits sum.splits)
  from assms v obtain u where s3: "uploadToS3 cfg sdk_error = Inr u"
    by (cases "uploadToS3 cfg sdk_error") (auto simp: uploadDocument_def)
  from assms v s3 have s: "save_document db ?d = Inr (i, db')" and d: "d = ?d"
    and t: "tasks = [ProcessFileExtraction i (buffer f) (mimetype f)]"
    by (auto simp: uploadDocument_def Let_def split: sum.splits)
  from s have "i = nextId db" and "documents db' i = Some ?d"
    by (auto simp: save_document_def split: list.splits)
  with d t show ?thesis by simp
qed

lemma save_document_stored: "save_document db d = Inr (i, db1) \<Longrightarrow> documents db1 i = Some d"
  by (auto simp: save_document_def split: list.splits)

lemma uploadAndParse_success:
  assumes "uploadAndParse cfg ext s3Key db f uid meta_title = (Inr d, db', w)"
  shows "processingStatus d = completed \<or> processingStatus d = failed"
proof -
  let ?d0 = "\<lparr>userId = uid,
              title = trim (case meta_title of
                              Some t \<Rightarrow> if t \<noteq> [] then t else baseTitle ext (originalname f)
                            | None \<Rightarrow> baseTitle ext (originalname f)),
              originalFormat = fst (snd (validateFileInline cfg ext f)),
              filePath = Some s3Key, markdownContent = [], restructuredContent = None,
              processingStatus = processing, processingError = None, isDeleted = False,
              url = None\<rparr>"
  from assms obtain i db1 where s: "save_document db ?d0 = Inr (i, db1)"
    by (auto simp: uploadAndParse_def Let_def
        split: prod.splits list.splits option.splits sum.splits)
  from save_document_stored [OF s] have doc: "documents db1 i = Some ?d0" .
  from parseAndConvertDocument_found [OF doc, of ext "Some (buffer f)"]
  obtain r dbp db2 st where p: "parseAndConvertDocument ext db1 i (Some (buffer f))
        = (r, db2, [dbp, db2])"
    and st: "st = completed \<or> st = failed"
    and r: "(\<exists>d'. r = Inr d') \<longleftrightarrow> st = completed"
    and fin: "map_option processingStatus (documents db2 i) = Some st"
    by blast
  from fin obtain d2 where d2: "documents db2 i = Some d2" and s2: "processingStatus d2 = st"
    by auto
  show ?thesis
  proof (cases r)
    case (Inl message)
    have "documents (saveStatus db2 i failed (Some message)) i
        = Some (updateProcessingStatus d2 failed (Some message))"
      using d2 by (simp add: saveStatus_lookup)
    with assms s p Inl have "d = updateProcessingStatus d2 failed (Some message)"
      by (auto simp: uploadAndParse_def Let_def split: prod.splits list.splits option.splits)
    then show ?thesis by simp
  next
    case (Inr d')
    with r have "st = completed" by auto
    moreover from assms s p Inr d2 have "d = d2"
      by (auto simp: uploadAndParse_def Let_def split: prod.splits list.splits option.splits)
    ultimately show ?thesis using s2 by simp
  qed
qed

text \<open>
  Claim C2, amended. Through the DocumentService that delegates extraction to
  FileExtractService, an upload that is answered 201 carries the new record in status
  \<open>pending\<close>, with no text and no error; the record is stored as returned; and extraction
  has only been started, as one background task, which afterwards takes the stored
  record to \<open>completed\<close> or \<open>failed\<close>. Through the DocumentService that parses on upload,
  an upload that is answered 201 carries the record after parsing, \<open>completed\<close> or
  \<open>failed\<close>.
\<close>

theorem upload_returns_pending:
  "(uploadDocumentHandler cfg sdk_error fileKey extractTitle db req
      = (Response 201 body, db', tasks) \<longrightarrow>
      (\<exists>f d. requestFile req = Some f \<and> body = Some d \<and>
           processingStatus d = pending \<and> markdownContent d = [] \<and> processingError d = None \<and>
           documents db' (nextId db) = Some d \<and>
           tasks = [ProcessFileExtraction (nextId db) (buffer f) (mimetype f)] \<and>
           (\<exists>d'. documents (fst (run_task env ai db' (ProcessFileExtraction (nextId db) (buffer f)
                                   (mimetype f)))) (nextId db) = Some d' \<and>
                 (processingStatus d' = completed \<or> processingStatus d' = failed)))) \<and>
   (handle cfg ext db (UploadDocument req s3Key) = (Response 201 body2, db2, w) \<longrightarrow>
      (\<exists>d. body2 = Some d \<and> (processingStatus d = completed \<or> processingStatus d = failed)))"
proof -
  have a: "\<exists>f d. requestFile req = Some f \<and> body = Some d \<and>
           processingStatus d = pending \<and> markdownContent d = [] \<and> processingError d = None \<and>
           documents db' (nextId db) = Some d \<and>
           tasks = [ProcessFileExtraction (nextId db) (buffer f) (mimetype f)] \<and>
           (\<exists>d'. documents (fst (run_task env ai db' (ProcessFileExtraction (nextId db) (buffer f)
                                   (mimetype f)))) (nextId db) = Some d' \<and>
                 (processingStatus d' = completed \<or> processingStatus d' = failed))"
    if h: "uploadDocumentHandler cfg sdk_error fileKey extractTitle db req
             = (Response 201 body, db', tasks)"
  proof -
    from h obtain f where f: "requestFile req = Some f" and ok: "fieldsValid req"
      by (auto simp: uploadDocumentHandler_def split: if_splits option.splits)
    obtain r db1 ts where u: "uploadDocument cfg sdk_error fileKey extractTitle db (Some f)
        (requestUser req) (requestTitle req) = (r, db1, ts)"
      by (cases "uploadDocument cfg sdk_error fileKey extractTitle db (Some f)
        (requestUser req) (requestTitle req)") auto
    from h f ok u obtain i d where r: "r = Inr (i, d)" and b: "body = Some d"
      and db': "db' = db1" and ts: "tasks = ts"
      by (cases r) (auto simp: uploadDocumentHandler_def)
    from uploadDocument_success [OF u [unfolded r]]
    have i: "i = nextId db" and st: "processingStatus d = pending" and md: "markdownContent d = []"
      and pe: "processingError d = None" and doc: "documents db1 i = Some d"
      and t: "ts = [ProcessFileExtraction i (buffer f) (mimetype f)]"
      by blast+
    have "\<exists>d'. documents (fst (processFileExtraction env db1 i (buffer f) (mimetype f))) i = Some d' \<and>
            (processingStatus d' = completed \<or> processingStatus d' = failed)"
      using processFileExtraction_document [OF doc, of env "buffer f" "mimetype f"]
      by (cases "fst (extractToMarkdown env
            (findByIdAndUpdate db1 i (\<lambda>d. d\<lparr>processingStatus := processing\<rparr>)) i (buffer f) (mimetype f))")
        simp_all
    then have run: "\<exists>d'. documents (fst (run_task env ai db1 (ProcessFileExtraction i (buffer f)
        (mimetype f)))) i = Some d' \<and> (processingStatus d' = completed \<or> processingStatus d' = failed)"
      by (simp add: run_task_def)
    from f b st md pe doc [unfolded i] t [unfolded i] run [unfolded i] show ?thesis
      unfolding db' ts by blast
  qed
  have b: "\<exists>d. body2 = Some d \<and> (processingStatus d = completed \<or> processingStatus d = failed)"
    if h: "handle cfg ext db (UploadDocument req s3Key) = (Response 201 body2, db2, w)"
  proof -
    from h obtain f where f: "requestFile req = Some f" and ok: "fieldsValid req"
      by (auto simp: handle_def split: if_splits option.splits)
    obtain r db1 w1 where u: "uploadAndParse cfg ext s3Key db f (requestUser req) (requestTitle req)
        = (r, db1, w1)"
      by (cases "uploadAndParse cfg ext s3Key db f (requestUser req) (requestTitle req)") auto
    from h f ok u obtain d where r: "r = Inr d" and b: "body2 = Some d"
      by (cases r) (auto simp: handle_def)
    from uploadAndParse_success [OF u [unfolded r]] b show ?thesis
      by simp
  qed
  from a b show ?thesis by blast
qed

theorem upload_returns_pending_witness:
  "responseCode (fst (uploadDocumentHandler default_config None (js ''documents/1-ab.pdf'')
       (\<lambda>n. js ''report'') empty_database pdf_request)) = 201 \<and>
   map_option processingStatus
     (responseBody (fst (uploadDocumentHandler default_config None (js ''documents/1-ab.pdf'')
       (\<lambda>n. js ''report'') empty_database pdf_request))) = Some pending \<and>
   snd (snd (uploadDocumentHandler default_config None (js ''documents/1-ab.pdf'')
       (\<lambda>n. js ''report'') empty_database pdf_request))
     = [ProcessFileExtraction 0 [37, 80, 68, 70] (js ''application/pdf'')] \<and>
   (\<exists>d. responseBody (fst (handle default_config parsing_externals empty_database
             (UploadDocument pdf_request (js ''documents/7/1_ab_report.pdf'')))) = Some d \<and>
        (processingStatus d = completed \<or> processingStatus d = failed))"
proof -
  obtain r db' tasks where h: "uploadDocumentHandler default_config None (js ''documents/1-ab.pdf'')
      (\<lambda>n. js ''report'') empty_database pdf_request = (r, db', tasks)"
    by (cases "uploadDocumentHandler default_config None (js ''documents/1-ab.pdf'')
      (\<lambda>n. js ''report'') empty_database pdf_request") auto
  obtain code body where r: "r = Response code body"
    by (cases r) auto
  have "code = 201"
    using h [unfolded r]
    by (simp add: uploadDocumentHandler_def pdf_request_def uploadDocument_def validateFile_def
        uploadToS3_def default_config_def pdf_file_def supportedFormats_def Let_def
        save_document_def validate_document_def getFormatFromMimeType_def
        originalFormat_enum_def trim_def js_space_def empty_database_def
        split: sum.splits prod.splits if_splits list.splits)
  with h r have h': "uploadDocumentHandler default_config None (js ''documents/1-ab.pdf'')
      (\<lambda>n. js ''report'') empty_database pdf_request = (Response 201 body, db', tasks)"
    by simp
  obtain r2 db2 w where k: "handle default_config parsing_externals empty_database
      (UploadDocument pdf_request (js ''documents/7/1_ab_report.pdf'')) = (r2, db2, w)"
    by (cases "handle default_config parsing_externals empty_database
      (UploadDocument pdf_request (js ''documents/7/1_ab_report.pdf''))") auto
  obtain code2 body2 where r2: "r2 = Response code2 body2"
    by (cases r2) auto
  have v: "validateFileInline default_config parsing_externals pdf_file
      = ([], js ''pdf'', js ''application/pdf'')"
    by (simp add: validateFileInline_def default_config_def pdf_file_def formatOfMimeType_def
        trim_def js_space_def Let_def)
  have t: "trim (js ''report'') = js ''report''"
    by (simp add: trim_def js_space_def)
  have "responseCode (fst (handle default_config parsing_externals empty_database
       (UploadDocument pdf_request (js ''documents/7/1_ab_report.pdf'')))) = 201"
    unfolding handle_def uploadAndParse_def
    by (simp add: pdf_request_def v, simp add: parsing_externals_def pdf_file_def t [simplified]
        save_document_def validate_document_def originalFormat_enum_def empty_database_def
        parseAndConvertDocument_def saveStatus_def findByIdAndUpdate_def
        updateProcessingStatus_def Let_def)
  then have "code2 = 201"
    unfolding k r2 by simp
  with k r2 have k': "handle default_config parsing_externals empty_database
      (UploadDocument pdf_request (js ''documents/7/1_ab_report.pdf'')) = (Response 201 body2, db2, w)"
    by simp
  have inline: "\<exists>d. responseBody (fst (handle default_config parsing_externals empty_database
             (UploadDocument pdf_request (js ''documents/7/1_ab_report.pdf'')))) = Some d \<and>
        (processingStatus d = completed \<or> processingStatus d = failed)"
    using upload_returns_pending [THEN conjunct2, THEN mp, OF k'] unfolding k' by simp
  from upload_returns_pending [where env = scan_externals and ai = summary_down,
      THEN conjunct1, THEN mp, OF h'] inline
  show ?thesis
    unfolding h' by (auto simp: pdf_request_def pdf_file_def empty_database_def)
qed

end
